(* ===== verification/Overlay_Prelude.thy ===== *)
theory Overlay_Prelude
  imports Main "HOL-Library.Word"
begin

text \<open>
  Shared material of the development: the names of the machine types, the result type of
  fallible Rust code (\<open>'e + 'a\<close>, \<open>Inl\<close> the error), big- and little-endian byte encodings of
  integers, and the generic list lemmas that the component theories rely on.
\<close>

section \<open>Machine types\<close>

type_synonym u8 = "8 word"
type_synonym u16 = "16 word"
type_synonym u32 = "32 word"
type_synonym u64 = "64 word"
type_synonym bytes = "u8 list"

text \<open>Proof collections: \<open>result_iff\<close> characterises the success and failure of fallible
  pipelines; \<open>slice_simps\<close> evaluates slices of concatenations.\<close>

named_theorems result_iff
named_theorems slice_simps

section \<open>Results\<close>

definition rbind :: "'e + 'a \<Rightarrow> ('a \<Rightarrow> 'e + 'b) \<Rightarrow> 'e + 'b" where
  "rbind m f = (case m of Inl e \<Rightarrow> Inl e | Inr x \<Rightarrow> f x)"

definition ok_or :: "'e \<Rightarrow> 'a option \<Rightarrow> 'e + 'a" where
  "ok_or e m = (case m of None \<Rightarrow> Inl e | Some x \<Rightarrow> Inr x)"

definition map_err :: "('e \<Rightarrow> 'f) \<Rightarrow> 'e + 'a \<Rightarrow> 'f + 'a" where
  "map_err f m = (case m of Inl e \<Rightarrow> Inl (f e) | Inr x \<Rightarrow> Inr x)"

definition ensure :: "bool \<Rightarrow> 'e \<Rightarrow> 'e + unit" where
  "ensure b e = (if b then Inr () else Inl e)"

lemma rbind_simps [simp]:
  "rbind (Inl e) f = Inl e"
  "rbind (Inr x) f = f x"
  by (simp_all add: rbind_def)

lemma ok_or_simps [simp]:
  "ok_or e None = Inl e"
  "ok_or e (Some x) = Inr x"
  by (simp_all add: ok_or_def)

lemma map_err_simps [simp]:
  "map_err f (Inl e) = Inl (f e)"
  "map_err f (Inr x) = Inr x"
  by (simp_all add: map_err_def)

lemma ensure_simps [simp]:
  "ensure True e = Inr ()"
  "ensure False e = Inl e"
  by (simp_all add: ensure_def)

lemma rbind_eq_Inr_iff [result_iff]:
  "rbind m f = Inr y \<longleftrightarrow> (\<exists>x. m = Inr x \<and> f x = Inr y)"
  by (cases m) auto

lemma rbind_eq_Inl_iff [result_iff]:
  "rbind m f = Inl e \<longleftrightarrow> m = Inl e \<or> (\<exists>x. m = Inr x \<and> f x = Inl e)"
  by (cases m) auto

lemma ok_or_eq_Inr_iff [result_iff]: "ok_or e m = Inr x \<longleftrightarrow> m = Some x"
  by (cases m) auto

lemma ok_or_eq_Inl_iff [result_iff]: "ok_or e m = Inl e' \<longleftrightarrow> m = None \<and> e' = e"
  by (cases m) auto

lemma map_err_eq_Inr_iff [result_iff]: "map_err f m = Inr x \<longleftrightarrow> m = Inr x"
  by (cases m) auto

lemma map_err_eq_Inl_iff [result_iff]: "map_err f m = Inl e \<longleftrightarrow> (\<exists>e'. m = Inl e' \<and> e = f e')"
  by (cases m) auto

lemma ensure_eq_Inr_iff [result_iff]: "ensure b e = Inr u \<longleftrightarrow> b"
  by (cases b) auto

lemma ensure_eq_Inl_iff [result_iff]: "ensure b e = Inl e' \<longleftrightarrow> \<not> b \<and> e' = e"
  by (cases b) auto

section \<open>Slices\<close>

text \<open>The Rust slice \<open>b[i..j]\<close>, for \<open>i \<le> j \<le> b.len()\<close>.\<close>

definition bslice :: "nat \<Rightarrow> nat \<Rightarrow> 'a list \<Rightarrow> 'a list" where
  "bslice i j xs = take (j - i) (drop i xs)"

lemma length_bslice [simp]: "length (bslice i j xs) = min (j - i) (length xs - i)"
  by (simp add: bslice_def min.commute)

lemma bslice_append_left [slice_simps]:
  "j \<le> length xs \<Longrightarrow> bslice i j (xs @ ys) = bslice i j xs"
  by (cases "i \<le> j") (auto simp: bslice_def)

lemma bslice_append_right [slice_simps]:
  "length xs \<le> i \<Longrightarrow> bslice i j (xs @ ys) = bslice (i - length xs) (j - length xs) ys"
  by (cases "i \<le> j") (auto simp: bslice_def)

lemma bslice_full [slice_simps]: "length xs \<le> j \<Longrightarrow> bslice 0 j xs = xs"
  by (simp add: bslice_def)

lemma bslice_split:
  assumes "i \<le> j" "j \<le> k"
  shows "bslice i j xs @ bslice j k xs = bslice i k xs"
proof -
  have "k - i = (j - i) + (k - j)" and "i + (j - i) = j" using assms by simp_all
  then show ?thesis
    by (simp only: bslice_def take_add drop_drop) (simp add: add.commute)
qed

lemma take_eq_bslice: "take j xs = bslice 0 j xs"
  by (simp add: bslice_def)

text \<open>Rust's \<open>try_into\<close> from a slice to an array of \<open>n\<close> bytes.\<close>

definition try_into_array :: "nat \<Rightarrow> 'a list \<Rightarrow> 'a list option" where
  "try_into_array n xs = (if length xs = n then Some xs else None)"

section \<open>Integers as bytes\<close>

text \<open>\<open>be_encode n x\<close> is the \<open>n\<close>-byte big-endian encoding of \<open>x\<close> modulo \<open>256 ^ n\<close>.\<close>

fun be_encode :: "nat \<Rightarrow> nat \<Rightarrow> bytes" where
  "be_encode 0 x = []"
| "be_encode (Suc n) x = be_encode n (x div 256) @ [word_of_nat (x mod 256)]"

definition be_decode :: "bytes \<Rightarrow> nat" where
  "be_decode bs = foldl (\<lambda>a b. a * 256 + unat b) 0 bs"

lemma length_be_encode [simp]: "length (be_encode n x) = n"
  by (induction n arbitrary: x) auto

lemma be_decode_append_single [simp]: "be_decode (bs @ [b]) = be_decode bs * 256 + unat b"
  by (simp add: be_decode_def)

lemma be_decode_Nil [simp]: "be_decode [] = 0"
  by (simp add: be_decode_def)

lemma unat_of_nat_byte [simp]: "unat (word_of_nat (x mod 256) :: u8) = x mod 256"
  by (simp add: unat_of_nat)

lemma be_decode_encode: "be_decode (be_encode n x) = x mod 256 ^ n"
proof (induction n arbitrary: x)
  case 0
  then show ?case by simp
next
  case (Suc n)
  then show ?case by (simp add: mod_mult2_eq mult.commute)
qed

lemma be_decode_encode_id: "x < 256 ^ n \<Longrightarrow> be_decode (be_encode n x) = x"
  by (simp add: be_decode_encode)

lemma be_decode_less: "be_decode bs < 256 ^ length bs"
proof (induction bs rule: rev_induct)
  case Nil
  then show ?case by simp
next
  case (snoc b bs)
  have "unat b < 256" using unsigned_less [of b] by simp
  with snoc show ?case by simp
qed

lemma be_encode_decode: "be_encode (length bs) (be_decode bs) = bs"
proof (induction bs rule: rev_induct)
  case Nil
  then show ?case by simp
next
  case (snoc b bs)
  have b: "unat b < 256" using unsigned_less [of b] by simp
  then have "(be_decode bs * 256 + unat b) div 256 = be_decode bs"
    and "(be_decode bs * 256 + unat b) mod 256 = unat b" by simp_all
  with snoc show ?case by simp
qed

lemma be_encode_inject:
  assumes "x < 256 ^ n" "y < 256 ^ n" "be_encode n x = be_encode n y"
  shows "x = y"
  using assms by (metis be_decode_encode_id)

text \<open>The fixed-width encodings of Rust's \<open>to_be_bytes\<close>/\<open>from_be_bytes\<close> on \<open>u32\<close> and
  \<open>to_ne_bytes\<close>/\<open>from_ne_bytes\<close>, where \<open>big\<close> says whether the target is big-endian.\<close>

definition u32_to_be :: "u32 \<Rightarrow> bytes" where
  "u32_to_be w = be_encode 4 (unat w)"

definition u32_from_be :: "bytes \<Rightarrow> u32" where
  "u32_from_be bs = word_of_nat (be_decode bs)"

definition to_ne :: "bool \<Rightarrow> nat \<Rightarrow> nat \<Rightarrow> bytes" where
  "to_ne big n x = (if big then be_encode n x else rev (be_encode n x))"

definition from_ne :: "bool \<Rightarrow> bytes \<Rightarrow> nat" where
  "from_ne big bs = be_decode (if big then bs else rev bs)"

lemma length_u32_to_be [simp]: "length (u32_to_be w) = 4"
  by (simp add: u32_to_be_def)

lemma length_to_ne [simp]: "length (to_ne big n x) = n"
  by (simp add: to_ne_def)

lemma from_ne_to_ne: "x < 256 ^ n \<Longrightarrow> from_ne big (to_ne big n x) = x"
  by (simp add: to_ne_def from_ne_def be_decode_encode_id)

lemma to_ne_from_ne: "length bs = n \<Longrightarrow> to_ne big n (from_ne big bs) = bs"
  using be_encode_decode [of bs] be_encode_decode [of "rev bs"]
  by (auto simp: to_ne_def from_ne_def)

lemma u32_from_to_be [simp]: "u32_from_be (u32_to_be w) = w"
proof -
  have "unat w < 256 ^ 4" using unsigned_less [of w] by simp
  then show ?thesis
    by (simp add: u32_from_be_def u32_to_be_def be_decode_encode_id)
qed

lemma unat_u32_from_be: "length bs = 4 \<Longrightarrow> unat (u32_from_be bs) = be_decode bs"
  using be_decode_less [of bs] by (simp add: u32_from_be_def unat_of_nat)

lemma u32_to_from_be: "length bs = 4 \<Longrightarrow> u32_to_be (u32_from_be bs) = bs"
  using be_encode_decode [of bs] by (simp add: u32_to_be_def unat_u32_from_be)

section \<open>Byte strings\<close>

text \<open>A Rust byte-string literal \<open>b"..."\<close>.\<close>

definition ascii :: "string \<Rightarrow> bytes" where
  "ascii s = map of_char s"

lemma length_ascii [simp]: "length (ascii s) = length s"
  by (simp add: ascii_def)

lemma append_eq_length_conv:
  "length xs = length ys \<Longrightarrow> xs @ us = ys @ vs \<longleftrightarrow> xs = ys \<and> us = vs"
  by (rule append_eq_append_conv) simp

end
