(* ===== verification/Rust_Text.thy ===== *)
theory Rust_Text
  imports Overlay_Prelude
begin

text \<open>
  The string operations of the Rust standard library that the configuration code uses. A \<open>str\<close>
  is the list of its Unicode scalar values; its length in bytes is that of its UTF-8 encoding.
\<close>

unbundle bit_operations_syntax

type_synonym rstr = "nat list"

definition lit :: "string \<Rightarrow> rstr" where
  "lit s = map of_char s"

definition is_whitespace :: "nat \<Rightarrow> bool" where
  "is_whitespace c \<longleftrightarrow> 9 \<le> c \<and> c \<le> 13 \<or> c = 32 \<or> c = 0x85 \<or> c = 0xA0 \<or> c = 0x1680 \<or>
     0x2000 \<le> c \<and> c \<le> 0x200A \<or> c = 0x2028 \<or> c = 0x2029 \<or> c = 0x202F \<or> c = 0x205F \<or> c = 0x3000"

definition is_ascii_whitespace :: "nat \<Rightarrow> bool" where
  "is_ascii_whitespace c \<longleftrightarrow> c = 9 \<or> c = 10 \<or> c = 12 \<or> c = 13 \<or> c = 32"

text \<open>\<open>trim\<close> and \<open>trim_matches\<close> strip both ends of characters satisfying \<open>P\<close>.\<close>

definition strip_both :: "(nat \<Rightarrow> bool) \<Rightarrow> rstr \<Rightarrow> rstr" where
  "strip_both P s = rev (dropWhile P (rev (dropWhile P s)))"

definition trim :: "rstr \<Rightarrow> rstr" where
  "trim = strip_both is_whitespace"

definition trim_matches :: "nat \<Rightarrow> rstr \<Rightarrow> rstr" where
  "trim_matches c = strip_both (\<lambda>x. x = c)"

definition to_ascii_lowercase :: "rstr \<Rightarrow> rstr" where
  "to_ascii_lowercase = map (\<lambda>c. if 65 \<le> c \<and> c \<le> 90 then c + 32 else c)"

definition eq_ignore_ascii_case :: "rstr \<Rightarrow> rstr \<Rightarrow> bool" where
  "eq_ignore_ascii_case a b \<longleftrightarrow> to_ascii_lowercase a = to_ascii_lowercase b"

fun split_once :: "nat \<Rightarrow> rstr \<Rightarrow> (rstr \<times> rstr) option" where
  "split_once d [] = None"
| "split_once d (c # s) =
     (if c = d then Some ([], s)
      else map_option (\<lambda>(a, b). (c # a, b)) (split_once d s))"

fun strip_prefix :: "rstr \<Rightarrow> rstr \<Rightarrow> rstr option" where
  "strip_prefix [] s = Some s"
| "strip_prefix (p # ps) [] = None"
| "strip_prefix (p # ps) (c # s) = (if p = c then strip_prefix ps s else None)"

text \<open>\<open>str::lines\<close>: pieces ended by a newline (the last one may lack it), the newline and one
  carriage return before it removed.\<close>

fun split_inclusive_nl :: "rstr \<Rightarrow> rstr list" where
  "split_inclusive_nl [] = []"
| "split_inclusive_nl (c # s) =
     (if c = 10 then [10] # split_inclusive_nl s
      else case split_inclusive_nl s of [] \<Rightarrow> [[c]] | l # ls \<Rightarrow> (c # l) # ls)"

definition strip_eol :: "rstr \<Rightarrow> rstr" where
  "strip_eol l =
     (if l \<noteq> [] \<and> last l = 10 then
        let l' = butlast l in if l' \<noteq> [] \<and> last l' = 13 then butlast l' else l'
      else l)"

definition str_lines :: "rstr \<Rightarrow> rstr list" where
  "str_lines s = map strip_eol (split_inclusive_nl s)"

text \<open>\<open>Display\<close> of an unsigned integer.\<close>

fun show_nat :: "nat \<Rightarrow> string" where
  "show_nat n = (if n < 10 then [char_of (48 + n)] else show_nat (n div 10) @ [char_of (48 + n mod 10)])"

declare show_nat.simps [simp del]

section \<open>UTF-8\<close>

definition utf8_char :: "nat \<Rightarrow> bytes" where
  "utf8_char c =
     (if c < 0x80 then [word_of_nat c]
      else if c < 0x800 then [word_of_nat (0xC0 + c div 64), word_of_nat (0x80 + c mod 64)]
      else if c < 0x10000 then
        [word_of_nat (0xE0 + c div 4096), word_of_nat (0x80 + c div 64 mod 64),
         word_of_nat (0x80 + c mod 64)]
      else [word_of_nat (0xF0 + c div 262144), word_of_nat (0x80 + c div 4096 mod 64),
            word_of_nat (0x80 + c div 64 mod 64), word_of_nat (0x80 + c mod 64)])"

definition as_bytes :: "rstr \<Rightarrow> bytes" where
  "as_bytes s = concat (map utf8_char s)"

lemma as_bytes_ascii: "\<forall>c \<in> set s. c < 0x80 \<Longrightarrow> as_bytes s = map word_of_nat s"
  by (induction s) (auto simp: as_bytes_def utf8_char_def)

section \<open>Lemmas on lines, keys and values\<close>

lemma strip_both_id:
  "s = [] \<or> (\<not> P (hd s) \<and> \<not> P (last s)) \<Longrightarrow> strip_both P s = s"
proof -
  assume h: "s = [] \<or> (\<not> P (hd s) \<and> \<not> P (last s))"
  then have "dropWhile P s = s" "dropWhile P (rev s) = rev s"
    by (auto simp: dropWhile_eq_self_iff hd_rev)
  then show ?thesis by (simp add: strip_both_def)
qed

lemma split_once_append: "d \<notin> set a \<Longrightarrow> split_once d (a @ d # b) = Some (a, b)"
  by (induction a) auto

lemma split_once_eq_Some:
  "split_once d s = Some (a, b) \<longleftrightarrow> s = a @ d # b \<and> d \<notin> set a"
proof
  show "split_once d s = Some (a, b) \<Longrightarrow> s = a @ d # b \<and> d \<notin> set a"
    by (induction s arbitrary: a) (auto split: if_splits)
qed (auto simp: split_once_append)

lemma split_once_eq_None: "split_once d s = None \<longleftrightarrow> d \<notin> set s"
  by (induction s) auto

lemma split_inclusive_nl_line:
  "10 \<notin> set l \<Longrightarrow> split_inclusive_nl (l @ 10 # s) = (l @ [10]) # split_inclusive_nl s"
  by (induction l) auto

lemma str_lines_Cons:
  "10 \<notin> set l \<Longrightarrow> l = [] \<or> last l \<noteq> 13 \<Longrightarrow> str_lines (l @ 10 # s) = l # str_lines s"
  by (auto simp: str_lines_def split_inclusive_nl_line strip_eol_def)

lemma str_lines_Nil [simp]: "str_lines [] = []"
  by (simp add: str_lines_def)

lemma strip_both_ends:
  "strip_both P s = [] \<or> (\<not> P (hd (strip_both P s)) \<and> \<not> P (last (strip_both P s)))"
proof (cases "strip_both P s = []")
  case False
  define t where "t = dropWhile P s"
  have s: "strip_both P s = rev (dropWhile P (rev t))" by (simp add: strip_both_def t_def)
  with False have ne: "dropWhile P (rev t) \<noteq> []" "t \<noteq> []" by auto
  have hd_ok: "xs = [] \<or> \<not> P (hd xs)" if "dropWhile P ys = xs" for xs ys
    using that by (metis hd_dropWhile dropWhile_eq_Nil_conv)
  have t: "\<not> P (hd t)" using hd_ok [OF t_def [symmetric]] ne(2) by simp
  have "rev t = takeWhile P (rev t) @ dropWhile P (rev t)" by simp
  then have "t = strip_both P s @ rev (takeWhile P (rev t))"
    unfolding s by (metis rev_append rev_rev_ident)
  with False have "hd (strip_both P s) = hd t" by (metis hd_append)
  moreover have "\<not> P (last (strip_both P s))"
    using hd_ok [OF refl, of "rev t"] ne(1) by (auto simp: s last_rev)
  ultimately show ?thesis using t by simp
qed simp

lemma trim_idem [simp]: "trim (trim s) = trim s"
  unfolding trim_def by (rule strip_both_id) (rule strip_both_ends)

end
