(* ===== verification/Crypto_Lib.thy ===== *)
theory Crypto_Lib
  imports Overlay_Prelude
begin

text \<open>
  The third-party cryptography the sources call (\<open>aes-gcm\<close>, \<open>hkdf\<close>, \<open>sha2\<close>,
  \<open>x25519-dalek\<close>, \<open>ml-kem\<close>, \<open>ed25519-dalek\<close>, \<open>ml-dsa\<close>) is a parameter of every definition
  that uses it: a record of the operations called, keys and handles being opaque byte strings.
  Below the records come the laws the development relies on, as named predicates of that
  parameter: each states documented behaviour of the library (output sizes, correctness of
  decryption, decapsulation and signature verification), never a property of the overlay.
\<close>

section \<open>The operations called\<close>

text \<open>One ML-KEM parameter set, the \<open>K: KemCore\<close> of \<open>crypto/generic.rs\<close>. Randomness drawn
  from the operating system is an explicit argument.\<close>

record kem =
  kem_generate :: "bytes \<Rightarrow> bytes \<times> bytes"
    \<comment> \<open>randomness to decapsulation key and encoded encapsulation key\<close>
  kem_ek_try_from :: "bytes \<Rightarrow> bytes option"
  kem_encapsulate :: "bytes \<Rightarrow> bytes \<Rightarrow> (bytes \<times> bytes) option"
    \<comment> \<open>encapsulation key and randomness to ciphertext and shared secret\<close>
  kem_ct_try_from :: "bytes \<Rightarrow> bytes option"
  kem_decapsulate :: "bytes \<Rightarrow> bytes \<Rightarrow> bytes option"

record crypto_lib =
  aes_new :: "bytes \<Rightarrow> bytes option" \<comment> \<open>\<open>Aes256Gcm::new_from_slice\<close>\<close>
  aes_encrypt :: "bytes \<Rightarrow> bytes \<Rightarrow> bytes \<Rightarrow> bytes option" \<comment> \<open>cipher, nonce, message\<close>
  aes_decrypt :: "bytes \<Rightarrow> bytes \<Rightarrow> bytes \<Rightarrow> bytes option" \<comment> \<open>cipher, nonce, ciphertext\<close>
  hkdf_expand :: "bytes \<Rightarrow> bytes \<Rightarrow> nat \<Rightarrow> bytes option"
    \<comment> \<open>\<open>Hkdf::new(None, ikm)\<close> then \<open>expand\<close>: key material, info, output length\<close>
  sha256 :: "bytes \<Rightarrow> bytes"
  x25519_public :: "bytes \<Rightarrow> bytes"
  x25519_dh :: "bytes \<Rightarrow> bytes \<Rightarrow> bytes" \<comment> \<open>own secret, peer public key\<close>
  ml_kem_768 :: kem
  ml_kem_1024 :: kem
  ed_from_bytes :: "bytes \<Rightarrow> bytes" \<comment> \<open>seed to signing key\<close>
  ed_public :: "bytes \<Rightarrow> bytes" \<comment> \<open>signing key to public key bytes\<close>
  ed_try_sign :: "bytes \<Rightarrow> bytes \<Rightarrow> bytes option"
  ed_vk_from_bytes :: "bytes \<Rightarrow> bytes option"
  ed_sig_try_from :: "bytes \<Rightarrow> bytes option"
  ed_verify_strict :: "bytes \<Rightarrow> bytes \<Rightarrow> bytes \<Rightarrow> bool" \<comment> \<open>key, message, signature\<close>
  ml_seed_try_from :: "bytes \<Rightarrow> bytes option"
  ml_from_seed :: "bytes \<Rightarrow> bytes"
  ml_public :: "bytes \<Rightarrow> bytes"
  ml_try_sign :: "bytes \<Rightarrow> bytes \<Rightarrow> bytes option"
  ml_evk_try_from :: "bytes \<Rightarrow> bytes option"
  ml_vk_decode :: "bytes \<Rightarrow> bytes"
  ml_sig_try_from :: "bytes \<Rightarrow> bytes option"
  ml_verify :: "bytes \<Rightarrow> bytes \<Rightarrow> bytes \<Rightarrow> bool"

section \<open>Documented behaviour\<close>

text \<open>AES-256-GCM: a 32-byte key is accepted; encryption of messages below the GCM limit
  succeeds and appends a 16-byte tag; decryption inverts encryption, and accepts only what
  encryption under the same key and nonce produces (the tag is recomputed and compared).\<close>

definition aead_laws :: "crypto_lib \<Rightarrow> bool" where
  "aead_laws lib \<longleftrightarrow>
     (\<forall>k. length k = 32 \<longrightarrow> aes_new lib k \<noteq> None) \<and>
     (\<forall>c n m. length m < 2 ^ 36 - 31 \<longrightarrow> aes_encrypt lib c n m \<noteq> None) \<and>
     (\<forall>c n m ct. aes_encrypt lib c n m = Some ct \<longrightarrow> length ct = length m + 16) \<and>
     (\<forall>c n m ct. aes_encrypt lib c n m = Some ct \<longleftrightarrow> aes_decrypt lib c n ct = Some m)"

definition hkdf_laws :: "crypto_lib \<Rightarrow> bool" where
  "hkdf_laws lib \<longleftrightarrow>
     (\<forall>ikm info n. n \<le> 255 * 32 \<longrightarrow> (\<exists>okm. hkdf_expand lib ikm info n = Some okm \<and> length okm = n))"

definition x25519_laws :: "crypto_lib \<Rightarrow> bool" where
  "x25519_laws lib \<longleftrightarrow>
     (\<forall>a. length (x25519_public lib a) = 32) \<and>
     (\<forall>a b. x25519_dh lib a (x25519_public lib b) = x25519_dh lib b (x25519_public lib a))"

text \<open>ML-KEM with encapsulation keys of \<open>ek_len\<close> and ciphertexts of \<open>ct_len\<close> bytes.\<close>

definition kem_laws :: "kem \<Rightarrow> nat \<Rightarrow> nat \<Rightarrow> bool" where
  "kem_laws K ek_len ct_len \<longleftrightarrow>
     (\<forall>r. length (snd (kem_generate K r)) = ek_len) \<and>
     (\<forall>s. kem_ek_try_from K s = (if length s = ek_len then Some s else None)) \<and>
     (\<forall>s. kem_ct_try_from K s = (if length s = ct_len then Some s else None)) \<and>
     (\<forall>r r'. \<exists>ct ss. kem_encapsulate K (snd (kem_generate K r)) r' = Some (ct, ss) \<and>
        length ct = ct_len \<and> kem_decapsulate K (fst (kem_generate K r)) ct = Some ss)"

definition ed25519_laws :: "crypto_lib \<Rightarrow> bool" where
  "ed25519_laws lib \<longleftrightarrow>
     (\<forall>sk. length (ed_public lib sk) = 32 \<and> ed_vk_from_bytes lib (ed_public lib sk) \<noteq> None) \<and>
     (\<forall>sk m. \<exists>s. ed_try_sign lib sk m = Some s \<and> length s = 64 \<and> ed_sig_try_from lib s = Some s \<and>
        (\<forall>vk. ed_vk_from_bytes lib (ed_public lib sk) = Some vk \<longrightarrow> ed_verify_strict lib vk m s))"

definition mldsa65_laws :: "crypto_lib \<Rightarrow> bool" where
  "mldsa65_laws lib \<longleftrightarrow>
     (\<forall>sk. length (ml_public lib sk) = 1952 \<and> ml_evk_try_from lib (ml_public lib sk) \<noteq> None) \<and>
     (\<forall>sk m. \<exists>s. ml_try_sign lib sk m = Some s \<and> length s = 3309 \<and> ml_sig_try_from lib s = Some s \<and>
        (\<forall>e. ml_evk_try_from lib (ml_public lib sk) = Some e \<longrightarrow>
           ml_verify lib (ml_vk_decode lib e) m s))"

definition crypto_laws :: "crypto_lib \<Rightarrow> bool" where
  "crypto_laws lib \<longleftrightarrow>
     aead_laws lib \<and> hkdf_laws lib \<and> x25519_laws lib \<and>
     kem_laws (ml_kem_768 lib) 1184 1088 \<and> kem_laws (ml_kem_1024 lib) 1568 1568 \<and>
     ed25519_laws lib \<and> mldsa65_laws lib"

section \<open>Consequences of the laws\<close>

lemma aes_new_ok: "aead_laws lib \<Longrightarrow> length k = 32 \<Longrightarrow> \<exists>c. aes_new lib k = Some c"
  by (auto simp: aead_laws_def)

lemma aes_encrypt_ok:
  "aead_laws lib \<Longrightarrow> length m < 2 ^ 36 - 31 \<Longrightarrow>
     \<exists>ct. aes_encrypt lib c n m = Some ct \<and> length ct = length m + 16"
  unfolding aead_laws_def by blast

lemma aes_decrypt_iff:
  "aead_laws lib \<Longrightarrow> aes_decrypt lib c n ct = Some m \<longleftrightarrow> aes_encrypt lib c n m = Some ct"
  by (auto simp: aead_laws_def)

lemma aes_encrypt_length:
  "aead_laws lib \<Longrightarrow> aes_encrypt lib c n m = Some ct \<Longrightarrow> length ct = length m + 16"
  by (auto simp: aead_laws_def)

lemma hkdf_expand_ok:
  "hkdf_laws lib \<Longrightarrow> n \<le> 8160 \<Longrightarrow> \<exists>okm. hkdf_expand lib ikm info n = Some okm \<and> length okm = n"
  by (auto simp: hkdf_laws_def)

lemma x25519_public_length: "x25519_laws lib \<Longrightarrow> length (x25519_public lib a) = 32"
  by (simp add: x25519_laws_def)

lemma x25519_agree:
  "x25519_laws lib \<Longrightarrow>
     x25519_dh lib a (x25519_public lib b) = x25519_dh lib b (x25519_public lib a)"
  by (simp add: x25519_laws_def)

lemma kem_exchange:
  assumes "kem_laws K ek_len ct_len"
  obtains dk ek ct ss where "kem_generate K kr = (dk, ek)" "length ek = ek_len"
    "kem_ek_try_from K ek = Some ek" "kem_encapsulate K ek kr' = Some (ct, ss)"
    "length ct = ct_len" "kem_ct_try_from K ct = Some ct" "kem_decapsulate K dk ct = Some ss"
proof -
  obtain dk ek where gen: "kem_generate K kr = (dk, ek)" by fastforce
  from assms have ek: "length (snd (kem_generate K kr)) = ek_len"
    and enc: "\<exists>ct ss. kem_encapsulate K (snd (kem_generate K kr)) kr' = Some (ct, ss) \<and>
      length ct = ct_len \<and> kem_decapsulate K (fst (kem_generate K kr)) ct = Some ss"
    and tf: "\<And>s. kem_ek_try_from K s = (if length s = ek_len then Some s else None)"
      "\<And>s. kem_ct_try_from K s = (if length s = ct_len then Some s else None)"
    by (simp_all add: kem_laws_def)
  from enc gen obtain ct ss where "kem_encapsulate K ek kr' = Some (ct, ss)" "length ct = ct_len"
    "kem_decapsulate K dk ct = Some ss" by auto
  with gen ek tf show thesis by (intro that [of dk ek ct ss]) auto
qed

lemma ed_sign_ok:
  "ed25519_laws lib \<Longrightarrow> \<exists>s. ed_try_sign lib sk m = Some s \<and> length s = 64 \<and>
     ed_sig_try_from lib s = Some s \<and>
     (\<forall>vk. ed_vk_from_bytes lib (ed_public lib sk) = Some vk \<longrightarrow> ed_verify_strict lib vk m s)"
  by (simp add: ed25519_laws_def)

lemma ml_sign_ok:
  "mldsa65_laws lib \<Longrightarrow> \<exists>s. ml_try_sign lib sk m = Some s \<and> length s = 3309 \<and>
     ml_sig_try_from lib s = Some s \<and>
     (\<forall>e. ml_evk_try_from lib (ml_public lib sk) = Some e \<longrightarrow> ml_verify lib (ml_vk_decode lib e) m s)"
  by (simp add: mldsa65_laws_def)

lemma ed_public_length: "ed25519_laws lib \<Longrightarrow> length (ed_public lib sk) = 32"
  by (simp add: ed25519_laws_def)

lemma ml_public_length: "mldsa65_laws lib \<Longrightarrow> length (ml_public lib sk) = 1952"
  by (simp add: mldsa65_laws_def)

lemma ed_public_decodes: "ed25519_laws lib \<Longrightarrow> \<exists>vk. ed_vk_from_bytes lib (ed_public lib sk) = Some vk"
  by (simp add: ed25519_laws_def)

lemma ml_public_decodes: "mldsa65_laws lib \<Longrightarrow> \<exists>e. ml_evk_try_from lib (ml_public lib sk) = Some e"
  by (simp add: mldsa65_laws_def)

end
