(* ===== verification/Crypto_Instance.thy ===== *)
theory Crypto_Instance
  imports Crypto_Lib
begin

text \<open>
  A small concrete library that satisfies all the laws of \<open>Crypto_Lib\<close>. It has no security
  whatsoever; it shows that the laws are consistent and it instantiates the library parameter
  wherever a theorem is applied to concrete inputs.
\<close>

definition pad :: "nat \<Rightarrow> bytes \<Rightarrow> bytes" where
  "pad n bs = take n (bs @ replicate n 0)"

lemma length_pad [simp]: "length (pad n bs) = n"
  by (simp add: pad_def)

lemma pad_id [simp]: "length bs = n \<Longrightarrow> pad n bs = bs"
  by (simp add: pad_def)

lemma take_pad [simp]: "m = length bs \<Longrightarrow> length bs \<le> n \<Longrightarrow> take m (pad n bs) = bs"
  by (simp add: pad_def)

definition toy_sum :: "bytes \<Rightarrow> u8" where
  "toy_sum bs = foldr (+) bs 0"

definition toy_spread :: "nat \<Rightarrow> bytes \<Rightarrow> bytes" where
  "toy_spread n bs = map (\<lambda>i. toy_sum bs + word_of_nat i) [0..<n]"

lemma length_toy_spread [simp]: "length (toy_spread n bs) = n"
  by (simp add: toy_spread_def)

definition toy_encrypt :: "bytes \<Rightarrow> bytes \<Rightarrow> bytes \<Rightarrow> bytes" where
  "toy_encrypt c n m = map (\<lambda>b. b + toy_sum (c @ n)) m @ toy_spread 16 (c @ n @ m)"

definition toy_decrypt :: "bytes \<Rightarrow> bytes \<Rightarrow> bytes \<Rightarrow> bytes option" where
  "toy_decrypt c n ct =
     (let m = map (\<lambda>b. b - toy_sum (c @ n)) (take (length ct - 16) ct)
      in if toy_encrypt c n m = ct then Some m else None)"

definition toy_kem :: "nat \<Rightarrow> nat \<Rightarrow> kem" where
  "toy_kem ek_len ct_len =
     \<lparr>kem_generate = (\<lambda>r. (pad 32 r, pad ek_len (pad 32 r))),
      kem_ek_try_from = (\<lambda>s. if length s = ek_len then Some s else None),
      kem_encapsulate = (\<lambda>ek r. Some (pad ct_len (pad 32 r), pad 32 r)),
      kem_ct_try_from = (\<lambda>s. if length s = ct_len then Some s else None),
      kem_decapsulate = (\<lambda>dk ct. Some (take 32 ct))\<rparr>"

definition toy_lib :: crypto_lib where
  "toy_lib =
     \<lparr>aes_new = (\<lambda>k. if length k = 32 then Some k else None),
      aes_encrypt = (\<lambda>c n m. Some (toy_encrypt c n m)),
      aes_decrypt = toy_decrypt,
      hkdf_expand = (\<lambda>ikm info n. if n \<le> 8160 then Some (toy_spread n (ikm @ info)) else None),
      sha256 = toy_spread 32,
      x25519_public = pad 32,
      x25519_dh = (\<lambda>a p. map2 (+) (pad 32 a) (pad 32 p)),
      ml_kem_768 = toy_kem 1184 1088,
      ml_kem_1024 = toy_kem 1568 1568,
      ed_from_bytes = (\<lambda>s. s),
      ed_public = pad 32,
      ed_try_sign = (\<lambda>sk m. Some (pad 32 sk @ toy_spread 32 m)),
      ed_vk_from_bytes = (\<lambda>b. if length b = 32 then Some b else None),
      ed_sig_try_from = (\<lambda>s. if length s = 64 then Some s else None),
      ed_verify_strict = (\<lambda>vk m s. s = vk @ toy_spread 32 m),
      ml_seed_try_from = (\<lambda>s. if length s = 32 then Some s else None),
      ml_from_seed = (\<lambda>s. s),
      ml_public = (\<lambda>sk. pad 1952 (pad 32 sk)),
      ml_try_sign = (\<lambda>sk m. Some (pad 1952 (pad 32 sk) @ toy_spread 1357 m)),
      ml_evk_try_from = (\<lambda>b. if length b = 1952 then Some b else None),
      ml_vk_decode = (\<lambda>b. b),
      ml_sig_try_from = (\<lambda>s. if length s = 3309 then Some s else None),
      ml_verify = (\<lambda>vk m s. s = vk @ toy_spread 1357 m)\<rparr>"

lemma toy_decrypt_iff: "toy_encrypt c n m = ct \<longleftrightarrow> toy_decrypt c n ct = Some m"
proof
  assume "toy_encrypt c n m = ct"
  moreover from this have "map (\<lambda>b. b - toy_sum (c @ n)) (take (length ct - 16) ct) = m"
    by (auto simp: toy_encrypt_def o_def)
  ultimately show "toy_decrypt c n ct = Some m" by (simp add: toy_decrypt_def Let_def)
next
  assume "toy_decrypt c n ct = Some m"
  then show "toy_encrypt c n m = ct" by (auto simp: toy_decrypt_def Let_def split: if_splits)
qed

lemma length_toy_encrypt [simp]: "length (toy_encrypt c n m) = length m + 16"
  by (simp add: toy_encrypt_def)

lemma toy_aead: "aead_laws toy_lib"
  by (auto simp: aead_laws_def toy_lib_def toy_decrypt_iff [symmetric])

lemma toy_hkdf: "hkdf_laws toy_lib"
  by (simp add: hkdf_laws_def toy_lib_def)

lemma map2_plus_commute: "map2 (+) xs ys = map2 (+) ys (xs :: bytes)"
proof (induction xs arbitrary: ys)
  case Nil
  then show ?case by simp
next
  case (Cons x xs)
  then show ?case by (cases ys) (simp_all add: add.commute)
qed

lemma toy_x25519: "x25519_laws toy_lib"
  by (simp add: x25519_laws_def toy_lib_def map2_plus_commute)

lemma toy_kem_laws: "32 \<le> ct_len \<Longrightarrow> kem_laws (toy_kem ek_len ct_len) ek_len ct_len"
  by (simp add: kem_laws_def toy_kem_def)

lemma toy_ed25519: "ed25519_laws toy_lib"
  by (simp add: ed25519_laws_def toy_lib_def)

lemma toy_mldsa65: "mldsa65_laws toy_lib"
  by (simp add: mldsa65_laws_def toy_lib_def)

lemma toy_crypto_laws: "crypto_laws toy_lib"
proof -
  have "ml_kem_768 toy_lib = toy_kem 1184 1088" "ml_kem_1024 toy_lib = toy_kem 1568 1568"
    by (simp_all add: toy_lib_def)
  then show ?thesis
    by (simp add: crypto_laws_def toy_aead toy_hkdf toy_x25519 toy_kem_laws toy_ed25519 toy_mldsa65)
qed

end
