(* ===== verification/Record_Layer.thy ===== *)
theory Record_Layer
  imports Crypto_Instance
begin

text \<open>
  The AEAD record layer of \<open>src/crypto/generic.rs\<close> and \<open>src/crypto/mod.rs\<close>: a direction is
  a key with an owned nonce counter, a session is a transmit and a receive direction, and the
  key schedules of the hybrid and of the pre-shared-key handshake build sessions. The locale
  \<open>record_channel\<close> is the contract the data path relies on; it is interpreted on the session
  operations.
\<close>

section \<open>Directions\<close>

datatype CryptoError =
    BadHelloLength
  | BadIdentityConfig
  | Authentication
  | MlKemDecode
  | Decapsulate
  | Hkdf
  | Encrypt
  | Decrypt
  | NonceExhausted

definition nonce_from_counter :: "u64 \<Rightarrow> bytes" where
  "nonce_from_counter counter = replicate 4 0 @ be_encode 8 (unat counter)"

record Direction =
  dir_key :: bytes
  dir_counter :: u64

definition Direction_new :: "bytes \<Rightarrow> Direction" where
  "Direction_new key = \<lparr>dir_key = key, dir_counter = 0\<rparr>"

text \<open>\<open>u64::MAX\<close> is \<open>- 1\<close> as a word.\<close>

definition Direction_seal ::
  "crypto_lib \<Rightarrow> Direction \<Rightarrow> bytes \<Rightarrow> (CryptoError + bytes) \<times> Direction" where
  "Direction_seal lib d plaintext =
     (if dir_counter d = - 1 then (Inl NonceExhausted, d)
      else case aes_new lib (dir_key d) of
        None \<Rightarrow> (Inl Encrypt, d)
      | Some cipher \<Rightarrow>
          (case aes_encrypt lib cipher (nonce_from_counter (dir_counter d)) plaintext of
             None \<Rightarrow> (Inl Encrypt, d)
           | Some ct \<Rightarrow> (Inr ct, d\<lparr>dir_counter := dir_counter d + 1\<rparr>)))"

definition Direction_open ::
  "crypto_lib \<Rightarrow> Direction \<Rightarrow> bytes \<Rightarrow> (CryptoError + bytes) \<times> Direction" where
  "Direction_open lib d ciphertext =
     (if dir_counter d = - 1 then (Inl NonceExhausted, d)
      else case aes_new lib (dir_key d) of
        None \<Rightarrow> (Inl Decrypt, d)
      | Some cipher \<Rightarrow>
          (case aes_decrypt lib cipher (nonce_from_counter (dir_counter d)) ciphertext of
             None \<Rightarrow> (Inl Decrypt, d)
           | Some pt \<Rightarrow> (Inr pt, d\<lparr>dir_counter := dir_counter d + 1\<rparr>)))"

section \<open>Sessions\<close>

record SessionKeys =
  tx :: Direction
  rx :: Direction

definition SessionKeys_seal ::
  "crypto_lib \<Rightarrow> SessionKeys \<Rightarrow> bytes \<Rightarrow> (CryptoError + bytes) \<times> SessionKeys" where
  "SessionKeys_seal lib k plaintext =
     (case Direction_seal lib (tx k) plaintext of (r, d) \<Rightarrow> (r, k\<lparr>tx := d\<rparr>))"

definition SessionKeys_open ::
  "crypto_lib \<Rightarrow> SessionKeys \<Rightarrow> bytes \<Rightarrow> (CryptoError + bytes) \<times> SessionKeys" where
  "SessionKeys_open lib k ciphertext =
     (case Direction_open lib (rx k) ciphertext of (r, d) \<Rightarrow> (r, k\<lparr>rx := d\<rparr>))"

section \<open>Key export for kernel TLS\<close>

record KtlsTrafficSecret =
  kts_key :: bytes
  kts_salt :: bytes
  kts_iv :: bytes

record KtlsTrafficKeys =
  ktk_tx :: KtlsTrafficSecret
  ktk_rx :: KtlsTrafficSecret

text \<open>\<open>ktls_secret\<close> panics (\<open>None\<close>) when HKDF refuses the 12-byte output length.\<close>

definition ktls_secret :: "crypto_lib \<Rightarrow> Direction \<Rightarrow> KtlsTrafficSecret option" where
  "ktls_secret lib d =
     (case hkdf_expand lib (dir_key d) (ascii ''syntriass-overlay ktls salt+iv v1'') 12 of
        None \<Rightarrow> None
      | Some okm \<Rightarrow>
          Some \<lparr>kts_key = dir_key d, kts_salt = bslice 0 4 okm, kts_iv = bslice 4 12 okm\<rparr>)"

definition export_ktls :: "crypto_lib \<Rightarrow> SessionKeys \<Rightarrow> KtlsTrafficKeys option" where
  "export_ktls lib k =
     (case ktls_secret lib (tx k) of
        None \<Rightarrow> None
      | Some t \<Rightarrow> (case ktls_secret lib (rx k) of
          None \<Rightarrow> None
        | Some r \<Rightarrow> Some \<lparr>ktk_tx = t, ktk_rx = r\<rparr>))"

section \<open>Key schedules\<close>

definition HKDF_LABEL_PREFIX :: bytes where
  "HKDF_LABEL_PREFIX = ascii ''syntriass-overlay v3 suite=''"

definition derive ::
  "crypto_lib \<Rightarrow> bytes \<Rightarrow> u8 \<Rightarrow> bytes \<Rightarrow> bool \<Rightarrow> CryptoError + SessionKeys" where
  "derive lib ikm suite_id transcript_hash is_initiator =
     (let info = HKDF_LABEL_PREFIX @ [suite_id] @ transcript_hash in
      case hkdf_expand lib ikm info 64 of
        None \<Rightarrow> Inl Hkdf
      | Some okm \<Rightarrow>
          (let c2s = bslice 0 32 okm; s2c = bslice 32 64 okm;
               (t, r) = (if is_initiator then (c2s, s2c) else (s2c, c2s))
           in Inr \<lparr>tx = Direction_new t, rx = Direction_new r\<rparr>))"

definition derive_fallback ::
  "crypto_lib \<Rightarrow> bytes \<Rightarrow> bytes \<Rightarrow> bytes \<Rightarrow> bool \<Rightarrow> CryptoError + SessionKeys" where
  "derive_fallback lib psk client_nonce server_nonce is_initiator =
     (let th = sha256 lib (ascii ''syntriass-overlay psk-fallback transcript v1''
                 @ client_nonce @ server_nonce)
      in derive lib psk 0xFF th is_initiator)"

section \<open>Nonces\<close>

lemma length_nonce [simp]: "length (nonce_from_counter c) = 12"
  by (simp add: nonce_from_counter_def)

lemma nonce_inject [simp]: "nonce_from_counter a = nonce_from_counter b \<longleftrightarrow> a = b"
proof
  assume "nonce_from_counter a = nonce_from_counter b"
  then have "be_encode 8 (unat a) = be_encode 8 (unat b)"
    by (simp add: nonce_from_counter_def)
  moreover have "unat a < 256 ^ 8" "unat b < 256 ^ 8"
    using unsigned_less [of a] unsigned_less [of b] by simp_all
  ultimately have "unat a = unat b" by (blast intro: be_encode_inject)
  then show "a = b" by (simp add: word_unat_eq_iff)
qed simp

lemma unat_succ_not_max: "(c :: u64) \<noteq> - 1 \<Longrightarrow> unat (c + 1) = unat c + 1"
  by (metis Suc_eq_plus1 add.commute add_eq_0_iff unatSuc)

section \<open>One record\<close>

lemma Direction_seal_Inr_iff [result_iff]:
  "Direction_seal lib d p = (Inr ct, d') \<longleftrightarrow>
     dir_counter d \<noteq> - 1 \<and>
     (\<exists>c. aes_new lib (dir_key d) = Some c \<and>
        aes_encrypt lib c (nonce_from_counter (dir_counter d)) p = Some ct) \<and>
     d' = d\<lparr>dir_counter := dir_counter d + 1\<rparr>"
  by (auto simp: Direction_seal_def split: option.splits)

lemma Direction_open_Inr_iff [result_iff]:
  "Direction_open lib d ct = (Inr p, d') \<longleftrightarrow>
     dir_counter d \<noteq> - 1 \<and>
     (\<exists>c. aes_new lib (dir_key d) = Some c \<and>
        aes_decrypt lib c (nonce_from_counter (dir_counter d)) ct = Some p) \<and>
     d' = d\<lparr>dir_counter := dir_counter d + 1\<rparr>"
  by (auto simp: Direction_open_def split: option.splits)

lemma SessionKeys_seal_Inr_iff [result_iff]:
  "SessionKeys_seal lib k p = (Inr ct, k') \<longleftrightarrow>
     (\<exists>d. Direction_seal lib (tx k) p = (Inr ct, d) \<and> k' = k\<lparr>tx := d\<rparr>)"
  by (auto simp: SessionKeys_seal_def split: prod.splits)

lemma SessionKeys_open_Inr_iff [result_iff]:
  "SessionKeys_open lib k ct = (Inr p, k') \<longleftrightarrow>
     (\<exists>d. Direction_open lib (rx k) ct = (Inr p, d) \<and> k' = k\<lparr>rx := d\<rparr>)"
  by (auto simp: SessionKeys_open_def split: prod.splits)

lemma Direction_seal_error: "Direction_seal lib d p = (Inl e, d') \<Longrightarrow> d' = d"
  by (auto simp: Direction_seal_def split: if_splits option.splits)

lemma Direction_open_error: "Direction_open lib d ct = (Inl e, d') \<Longrightarrow> d' = d"
  by (auto simp: Direction_open_def split: if_splits option.splits)

section \<open>Record streams\<close>

text \<open>A run of one record operation over a list of inputs, stopping at the first error, as
  the loops of \<open>overlay_send\<close> and \<open>overlay_recv\<close> do.\<close>

fun run_rec :: "('k \<Rightarrow> bytes \<Rightarrow> ('e + bytes) \<times> 'k) \<Rightarrow> 'k \<Rightarrow> bytes list \<Rightarrow> ('e + bytes list) \<times> 'k" where
  "run_rec f k [] = (Inr [], k)"
| "run_rec f k (p # ps) =
     (case f k p of
        (Inl e, k') \<Rightarrow> (Inl e, k')
      | (Inr c, k') \<Rightarrow>
          (case run_rec f k' ps of
             (Inl e, k'') \<Rightarrow> (Inl e, k'')
           | (Inr cs, k'') \<Rightarrow> (Inr (c # cs), k'')))"

lemma run_rec_Cons_Inr [result_iff]:
  "run_rec f k (p # ps) = (Inr cs, k'') \<longleftrightarrow>
     (\<exists>c k' cs'. f k p = (Inr c, k') \<and> run_rec f k' ps = (Inr cs', k'') \<and> cs = c # cs')"
  by (auto split: prod.splits sum.splits)

lemma run_rec_length: "run_rec f k ps = (Inr cs, k') \<Longrightarrow> length cs = length ps"
proof (induction ps arbitrary: k cs k')
  case Nil
  then show ?case by simp
next
  case (Cons p ps)
  then show ?case by (auto simp: run_rec_Cons_Inr simp del: run_rec.simps)
qed

text \<open>The contract of a record channel between two peers: what one seals next, the other
  opens next, and the other opens nothing else.\<close>

locale record_channel =
  fixes seal :: "'k \<Rightarrow> bytes \<Rightarrow> ('e + bytes) \<times> 'k"
    and open_rec :: "'k \<Rightarrow> bytes \<Rightarrow> ('e + bytes) \<times> 'k"
    and sync :: "'k \<Rightarrow> 'k \<Rightarrow> bool"
  assumes delivers: "sync a b \<Longrightarrow> seal a p = (Inr ct, a') \<Longrightarrow>
      \<exists>b'. open_rec b ct = (Inr p, b') \<and> sync a' b'"
    and authentic: "sync a b \<Longrightarrow> open_rec b ct = (Inr p, b') \<Longrightarrow>
      \<exists>a'. seal a p = (Inr ct, a') \<and> sync a' b'"
begin

lemma stream_delivered:
  "sync a b \<Longrightarrow> run_rec seal a ps = (Inr cts, a') \<Longrightarrow>
     \<exists>b'. run_rec open_rec b cts = (Inr ps, b') \<and> sync a' b'"
proof (induction ps arbitrary: a b cts)
  case Nil
  then show ?case by simp
next
  case (Cons p ps)
  from Cons.prems(2) obtain c a1 cts'
    where s: "seal a p = (Inr c, a1)" "run_rec seal a1 ps = (Inr cts', a')" "cts = c # cts'"
    by (auto simp only: run_rec_Cons_Inr)
  from delivers [OF Cons.prems(1) s(1)] obtain b1
    where b1: "open_rec b c = (Inr p, b1)" "sync a1 b1" by blast
  from Cons.IH [OF b1(2) s(2)] obtain b'
    where "run_rec open_rec b1 cts' = (Inr ps, b')" "sync a' b'" by blast
  with b1 s show ?case by (auto simp only: run_rec_Cons_Inr)
qed

lemma stream_authentic:
  "sync a b \<Longrightarrow> run_rec open_rec b cts = (Inr ps, b') \<Longrightarrow>
     \<exists>a'. run_rec seal a ps = (Inr cts, a') \<and> sync a' b'"
proof (induction cts arbitrary: a b ps)
  case Nil
  then show ?case by auto
next
  case (Cons c cts)
  from Cons.prems(2) obtain p b1 ps'
    where s: "open_rec b c = (Inr p, b1)" "run_rec open_rec b1 cts = (Inr ps', b')" "ps = p # ps'"
    by (auto simp only: run_rec_Cons_Inr)
  from authentic [OF Cons.prems(1) s(1)] obtain a1
    where a1: "seal a p = (Inr c, a1)" "sync a1 b1" by blast
  from Cons.IH [OF a1(2) s(2)] obtain a'
    where "run_rec seal a1 ps' = (Inr cts, a')" "sync a' b'" by blast
  with a1 s show ?case by (auto simp only: run_rec_Cons_Inr)
qed

end

text \<open>Two sessions are in step from \<open>a\<close> to \<open>b\<close> when \<open>a\<close> transmits with the key and counter
  \<open>b\<close> receives with.\<close>

definition in_sync :: "crypto_lib \<Rightarrow> SessionKeys \<Rightarrow> SessionKeys \<Rightarrow> bool" where
  "in_sync lib a b \<longleftrightarrow> aead_laws lib \<and> tx a = rx b"

interpretation sess: record_channel
  "SessionKeys_seal lib" "SessionKeys_open lib" "in_sync lib" for lib
proof unfold_locales
  fix a b :: SessionKeys and p ct :: bytes and a' :: SessionKeys
  assume "in_sync lib a b" "SessionKeys_seal lib a p = (Inr ct, a')"
  then show "\<exists>b'. SessionKeys_open lib b ct = (Inr p, b') \<and> in_sync lib a' b'"
    by (auto simp: in_sync_def SessionKeys_seal_Inr_iff SessionKeys_open_Inr_iff
        Direction_seal_Inr_iff Direction_open_Inr_iff aes_decrypt_iff)
next
  fix a b :: SessionKeys and p ct :: bytes and b' :: SessionKeys
  assume "in_sync lib a b" "SessionKeys_open lib b ct = (Inr p, b')"
  then show "\<exists>a'. SessionKeys_seal lib a p = (Inr ct, a') \<and> in_sync lib a' b'"
    by (auto simp: in_sync_def SessionKeys_seal_Inr_iff SessionKeys_open_Inr_iff
        Direction_seal_Inr_iff Direction_open_Inr_iff aes_decrypt_iff)
qed

section \<open>Correctness of the record layer\<close>

lemma seal_run:
  assumes "run_rec (Direction_seal lib) d ps = (Inr cts, d')"
  shows "dir_key d' = dir_key d \<and> unat (dir_counter d') = unat (dir_counter d) + length ps \<and>
    (\<forall>i < length ps. Option.bind (aes_new lib (dir_key d))
       (\<lambda>c. aes_encrypt lib c (nonce_from_counter (dir_counter d + word_of_nat i)) (ps ! i))
         = Some (cts ! i))"
  using assms
proof (induction ps arbitrary: d cts)
  case Nil
  then show ?case by simp
next
  case (Cons p ps)
  let ?d1 = "d\<lparr>dir_counter := dir_counter d + 1\<rparr>"
  from Cons.prems obtain ct cts' c
    where max: "dir_counter d \<noteq> - 1"
      and enc: "aes_new lib (dir_key d) = Some c"
        "aes_encrypt lib c (nonce_from_counter (dir_counter d)) p = Some ct"
      and rest: "run_rec (Direction_seal lib) ?d1 ps = (Inr cts', d')" and cts: "cts = ct # cts'"
    by (auto simp: run_rec_Cons_Inr Direction_seal_Inr_iff simp del: run_rec.simps)
  note IH = Cons.IH [OF rest]
  have "Option.bind (aes_new lib (dir_key d))
       (\<lambda>c. aes_encrypt lib c (nonce_from_counter (dir_counter d + word_of_nat i)) ((p # ps) ! i))
         = Some (cts ! i)" if "i < length (p # ps)" for i
    using that IH enc cts by (cases i) (auto simp: add.assoc)
  with IH max show ?case by (simp add: unat_succ_not_max)
qed

text \<open>C8. Nonces are never reused: a direction that seals a list of records encrypts the
  \<open>i\<close>-th one under the nonce of its counter plus \<open>i\<close>, all these nonces are different, and the
  64-bit counter advances by exactly the number of records without wrapping around.\<close>

theorem seal_nonces_unique:
  assumes "run_rec (Direction_seal lib) d ps = (Inr cts, d')"
  shows "distinct (map (\<lambda>i. nonce_from_counter (dir_counter d + word_of_nat i)) [0..<length ps]) \<and>
    (\<forall>i < length ps. Option.bind (aes_new lib (dir_key d))
       (\<lambda>c. aes_encrypt lib c (nonce_from_counter (dir_counter d + word_of_nat i)) (ps ! i))
         = Some (cts ! i)) \<and>
    unat (dir_counter d') = unat (dir_counter d) + length ps"
proof -
  note run = seal_run [OF assms]
  have "unat (dir_counter d') < 2 ^ 64" using unsigned_less [of "dir_counter d'"] by simp
  with run have "length ps < 2 ^ 64" by simp
  then have "inj_on (word_of_nat :: nat \<Rightarrow> u64) {0..<length ps}"
    by (intro inj_onI) (simp add: word_of_nat_eq_iff take_bit_eq_mod)
  then have "distinct (map (\<lambda>i. nonce_from_counter (dir_counter d + word_of_nat i)) [0..<length ps])"
    by (auto simp: distinct_map inj_on_def)
  with run show ?thesis by blast
qed

definition toy_dir :: "u8 \<Rightarrow> Direction" where
  "toy_dir b = Direction_new (replicate 32 b)"

lemma toy_seal:
  "length (dir_key d) = 32 \<Longrightarrow> dir_counter d \<noteq> - 1 \<Longrightarrow> Direction_seal toy_lib d p =
     (Inr (toy_encrypt (dir_key d) (nonce_from_counter (dir_counter d)) p),
      d\<lparr>dir_counter := dir_counter d + 1\<rparr>)"
  by (simp add: Direction_seal_def toy_lib_def)

lemma toy_dir_simps [simp]: "length (dir_key (toy_dir b)) = 32" "dir_counter (toy_dir b) = 0"
  by (simp_all add: toy_dir_def Direction_new_def)

theorem seal_nonces_unique_witness:
  "\<exists>cts d'. run_rec (Direction_seal toy_lib) (toy_dir 7) [[1, 2], [3]] = (Inr cts, d') \<and>
     unat (dir_counter d') = 2 \<and> nonce_from_counter 0 \<noteq> nonce_from_counter 1"
proof -
  obtain cts d' where run: "run_rec (Direction_seal toy_lib) (toy_dir 7) [[1, 2], [3]] = (Inr cts, d')"
    by (simp add: toy_seal)
  from seal_nonces_unique [OF run] run show ?thesis by (auto simp: numeral_2_eq_2)
qed

text \<open>Lossless, ordered delivery: what one session seals, its in-step peer opens, record by
  record and in order, and the two stay in step.\<close>

lemma record_stream_delivered:
  assumes "in_sync lib a b" and "run_rec (SessionKeys_seal lib) a ps = (Inr cts, a')"
  shows "\<exists>b'. run_rec (SessionKeys_open lib) b cts = (Inr ps, b') \<and> in_sync lib a' b'"
  using assms by (rule sess.stream_delivered)

definition toy_session :: "u8 \<Rightarrow> u8 \<Rightarrow> SessionKeys" where
  "toy_session a b = \<lparr>tx = toy_dir a, rx = toy_dir b\<rparr>"

lemma toy_session_sync: "in_sync toy_lib (toy_session a b) (toy_session b a)"
  by (simp add: in_sync_def toy_aead toy_session_def)

lemma toy_session_seal:
  obtains cts k' where "run_rec (SessionKeys_seal toy_lib) (toy_session 1 2) [[1, 2], [3]] = (Inr cts, k')"
  by (simp add: SessionKeys_seal_def toy_session_def toy_seal)

lemma record_stream_delivered_example:
  "\<exists>cts k'. run_rec (SessionKeys_seal toy_lib) (toy_session 1 2) [[1, 2], [3]] = (Inr cts, k') \<and>
     (\<exists>b'. run_rec (SessionKeys_open toy_lib) (toy_session 2 1) cts = (Inr [[1, 2], [3]], b'))"
proof -
  obtain cts k' where s: "run_rec (SessionKeys_seal toy_lib) (toy_session 1 2) [[1, 2], [3]] = (Inr cts, k')"
    by (rule toy_session_seal)
  from record_stream_delivered [OF toy_session_sync s] s show ?thesis by blast
qed



section \<open>Key schedules and export\<close>

definition fresh_mirror :: "SessionKeys \<Rightarrow> SessionKeys \<Rightarrow> bool" where
  "fresh_mirror a b \<longleftrightarrow> tx a = rx b \<and> rx a = tx b \<and>
     dir_counter (tx a) = 0 \<and> dir_counter (rx a) = 0 \<and>
     length (dir_key (tx a)) = 32 \<and> length (dir_key (rx a)) = 32"

lemma fresh_mirror_sync:
  "aead_laws lib \<Longrightarrow> fresh_mirror a b \<Longrightarrow> in_sync lib a b \<and> in_sync lib b a"
  by (simp add: fresh_mirror_def in_sync_def)

lemma derive_mirror:
  assumes "hkdf_laws lib"
  shows "\<exists>i r. derive lib ikm s th True = Inr i \<and> derive lib ikm s th False = Inr r \<and>
    fresh_mirror i r"
proof -
  from hkdf_expand_ok [OF assms, of 64] obtain okm
    where "hkdf_expand lib ikm (HKDF_LABEL_PREFIX @ [s] @ th) 64 = Some okm" "length okm = 64"
    by auto
  then show ?thesis
    by (simp add: derive_def fresh_mirror_def Direction_new_def)
qed

lemma derive_fallback_mirror:
  assumes "hkdf_laws lib"
  shows "\<exists>i r. derive_fallback lib psk cn sn True = Inr i \<and>
    derive_fallback lib psk cn sn False = Inr r \<and> fresh_mirror i r"
  unfolding derive_fallback_def Let_def using assms by (rule derive_mirror)

lemma seal_succeeds:
  assumes "aead_laws lib" "length (dir_key (tx k)) = 32" "dir_counter (tx k) \<noteq> - 1"
    and "length p < 2 ^ 36 - 31"
  shows "\<exists>ct. SessionKeys_seal lib k p =
      (Inr ct, k\<lparr>tx := (tx k)\<lparr>dir_counter := dir_counter (tx k) + 1\<rparr>\<rparr>) \<and>
    length ct = length p + 16"
proof -
  from aes_new_ok [OF assms(1,2)] obtain c where "aes_new lib (dir_key (tx k)) = Some c" by blast
  with aes_encrypt_ok [OF assms(1,4), of c "nonce_from_counter (dir_counter (tx k))"] assms(3)
  show ?thesis by (auto simp: SessionKeys_seal_def Direction_seal_def)
qed

lemma export_ktls_some:
  assumes "hkdf_laws lib"
  shows "export_ktls lib k \<noteq> None"
proof -
  have "ktls_secret lib d \<noteq> None" for d
    using hkdf_expand_ok [OF assms, of 12] by (auto simp: ktls_secret_def split: option.split)
  from this [of "tx k"] this [of "rx k"] show ?thesis by (auto simp: export_ktls_def)
qed

lemma ktls_export_mirrored:
  assumes "hkdf_laws lib" and "fresh_mirror a b"
  shows "\<exists>ka kb. export_ktls lib a = Some ka \<and> export_ktls lib b = Some kb \<and>
    ktk_tx ka = ktk_rx kb \<and> ktk_rx ka = ktk_tx kb \<and>
    (\<forall>s \<in> {ktk_tx ka, ktk_rx ka}.
       length (kts_key s) = 32 \<and> length (kts_salt s) = 4 \<and> length (kts_iv s) = 8)"
proof -
  have ok: "\<exists>s. ktls_secret lib d = Some s \<and> length (kts_key s) = 32 \<and>
      length (kts_salt s) = 4 \<and> length (kts_iv s) = 8" if "length (dir_key d) = 32" for d
  proof -
    from hkdf_expand_ok [OF assms(1), of 12] obtain okm where
      "hkdf_expand lib (dir_key d) (ascii ''syntriass-overlay ktls salt+iv v1'') 12 = Some okm"
      "length okm = 12" by auto
    with that show ?thesis by (simp add: ktls_secret_def)
  qed
  from assms(2) ok [of "tx a"] ok [of "rx a"] show ?thesis
    by (auto simp: fresh_mirror_def export_ktls_def)
qed

end
