(* ===== verification/Identity.thy ===== *)
theory Identity
  imports Record_Layer
begin

text \<open>
  Long-term identities (\<open>IdentityMaterial\<close> of \<open>src/crypto/mod.rs\<close>): construction from seeds
  and pinned peer keys, signing, and the two verification steps of a handshake. Scrubbing of
  memory on drop is not represented.
\<close>

section \<open>Sizes\<close>

definition X25519_LEN :: nat where "X25519_LEN = 32"
definition MLDSA65_PUBLIC_LEN :: nat where "MLDSA65_PUBLIC_LEN = 1952"
definition MLDSA65_SIGNATURE_LEN :: nat where "MLDSA65_SIGNATURE_LEN = 3309"
definition MLDSA65_SEED_LEN :: nat where "MLDSA65_SEED_LEN = 32"
definition ED25519_PUBLIC_LEN :: nat where "ED25519_PUBLIC_LEN = 32"
definition ED25519_SIGNATURE_LEN :: nat where "ED25519_SIGNATURE_LEN = 64"
definition ED25519_SEED_LEN :: nat where "ED25519_SEED_LEN = 32"
definition IDENTITY_PUBLIC_LEN :: nat where
  "IDENTITY_PUBLIC_LEN = ED25519_PUBLIC_LEN + MLDSA65_PUBLIC_LEN"
definition IDENTITY_SIGNATURE_LEN :: nat where
  "IDENTITY_SIGNATURE_LEN = ED25519_SIGNATURE_LEN + MLDSA65_SIGNATURE_LEN"

lemmas len_defs = X25519_LEN_def MLDSA65_PUBLIC_LEN_def MLDSA65_SIGNATURE_LEN_def
  MLDSA65_SEED_LEN_def ED25519_PUBLIC_LEN_def ED25519_SIGNATURE_LEN_def ED25519_SEED_LEN_def
  IDENTITY_PUBLIC_LEN_def IDENTITY_SIGNATURE_LEN_def

section \<open>Identity material\<close>

record IdentityMaterial =
  own_ed25519 :: bytes
  own_mldsa65 :: bytes
  own_ed25519_public :: bytes
  own_mldsa65_public :: bytes
  peer_ed25519 :: bytes
  peer_mldsa65 :: bytes
  peer_ed25519_public :: bytes
  peer_mldsa65_public :: bytes

record IdentitySignatures =
  sig_ed25519 :: bytes
  sig_mldsa65 :: bytes

definition IdentityMaterial_from_bytes ::
  "crypto_lib \<Rightarrow> bytes \<Rightarrow> bytes \<Rightarrow> bytes \<Rightarrow> bytes \<Rightarrow> CryptoError + IdentityMaterial" where
  "IdentityMaterial_from_bytes lib own_ed25519_seed own_mldsa65_seed peer_ed_pub peer_ml_pub =
     (if length peer_ml_pub \<noteq> MLDSA65_PUBLIC_LEN then Inl BadIdentityConfig
      else let own_ed = ed_from_bytes lib own_ed25519_seed;
               own_ed_pub = ed_public lib own_ed in
      rbind (ok_or BadIdentityConfig (ml_seed_try_from lib own_mldsa65_seed)) (\<lambda>mldsa_seed.
      let own_ml = ml_from_seed lib mldsa_seed;
          own_ml_pub = ml_public lib own_ml in
      rbind (ok_or BadIdentityConfig (ed_vk_from_bytes lib peer_ed_pub)) (\<lambda>peer_ed.
      rbind (ok_or BadIdentityConfig (ml_evk_try_from lib peer_ml_pub)) (\<lambda>peer_ml_enc.
      Inr \<lparr>own_ed25519 = own_ed, own_mldsa65 = own_ml,
           own_ed25519_public = own_ed_pub, own_mldsa65_public = own_ml_pub,
           peer_ed25519 = peer_ed, peer_mldsa65 = ml_vk_decode lib peer_ml_enc,
           peer_ed25519_public = peer_ed_pub, peer_mldsa65_public = peer_ml_pub\<rparr>))))"

definition identity_sign ::
  "crypto_lib \<Rightarrow> IdentityMaterial \<Rightarrow> bytes \<Rightarrow> CryptoError + IdentitySignatures" where
  "identity_sign lib self transcript =
     rbind (ok_or Authentication (ed_try_sign lib (own_ed25519 self) transcript)) (\<lambda>ed_sig.
     rbind (ok_or Authentication (ml_try_sign lib (own_mldsa65 self) transcript)) (\<lambda>ml_sig.
     Inr \<lparr>sig_ed25519 = ed_sig, sig_mldsa65 = ml_sig\<rparr>))"

definition verify_peer_public_keys ::
  "IdentityMaterial \<Rightarrow> bytes \<Rightarrow> bytes \<Rightarrow> CryptoError + unit" where
  "verify_peer_public_keys self ed25519_public mldsa65_public =
     (if ed25519_public \<noteq> peer_ed25519_public self \<or> mldsa65_public \<noteq> peer_mldsa65_public self
      then Inl Authentication else Inr ())"

definition verify_peer_signatures ::
  "crypto_lib \<Rightarrow> IdentityMaterial \<Rightarrow> bytes \<Rightarrow> bytes \<Rightarrow> bytes \<Rightarrow> CryptoError + unit" where
  "verify_peer_signatures lib self transcript ed25519_signature mldsa65_signature =
     rbind (ok_or Authentication (ed_sig_try_from lib ed25519_signature)) (\<lambda>ed_sig.
     rbind (ensure (ed_verify_strict lib (peer_ed25519 self) transcript ed_sig) Authentication) (\<lambda>_.
     rbind (ok_or Authentication (ml_sig_try_from lib mldsa65_signature)) (\<lambda>ml_sig.
     ensure (ml_verify lib (peer_mldsa65 self) transcript ml_sig) Authentication)))"

definition derive_identity_public_keys ::
  "crypto_lib \<Rightarrow> bytes \<Rightarrow> bytes \<Rightarrow> CryptoError + bytes \<times> bytes" where
  "derive_identity_public_keys lib ed25519_seed mldsa65_seed =
     (let ed_pub = ed_public lib (ed_from_bytes lib ed25519_seed) in
      rbind (ok_or BadIdentityConfig (ml_seed_try_from lib mldsa65_seed)) (\<lambda>ml_seed.
      Inr (ed_pub, ml_public lib (ml_from_seed lib ml_seed))))"

section \<open>Well-formed identities and mutual trust\<close>

text \<open>\<open>identity_wf\<close> is what \<open>from_bytes\<close> establishes: the public halves belong to the signing
  keys, and the verification handles to the pinned peer bytes.\<close>

definition identity_wf :: "crypto_lib \<Rightarrow> IdentityMaterial \<Rightarrow> bool" where
  "identity_wf lib i \<longleftrightarrow>
     own_ed25519_public i = ed_public lib (own_ed25519 i) \<and>
     own_mldsa65_public i = ml_public lib (own_mldsa65 i) \<and>
     ed_vk_from_bytes lib (peer_ed25519_public i) = Some (peer_ed25519 i) \<and>
     length (peer_mldsa65_public i) = MLDSA65_PUBLIC_LEN \<and>
     (\<exists>e. ml_evk_try_from lib (peer_mldsa65_public i) = Some e \<and> peer_mldsa65 i = ml_vk_decode lib e)"

definition pins :: "IdentityMaterial \<Rightarrow> IdentityMaterial \<Rightarrow> bool" where
  "pins a b \<longleftrightarrow> peer_ed25519_public a = own_ed25519_public b \<and>
     peer_mldsa65_public a = own_mldsa65_public b"

definition mutual :: "crypto_lib \<Rightarrow> IdentityMaterial \<Rightarrow> IdentityMaterial \<Rightarrow> bool" where
  "mutual lib a b \<longleftrightarrow> crypto_laws lib \<and> identity_wf lib a \<and> identity_wf lib b \<and> pins a b \<and> pins b a"

lemma mutual_sym: "mutual lib a b \<Longrightarrow> mutual lib b a"
  by (auto simp: mutual_def)

lemma from_bytes_wf:
  "IdentityMaterial_from_bytes lib es ms pe pm = Inr i \<Longrightarrow> identity_wf lib i"
  by (auto simp: IdentityMaterial_from_bytes_def identity_wf_def Let_def result_iff split: if_splits)

lemma verify_peer_public_keys_iff [result_iff]:
  "verify_peer_public_keys i e m = Inr u \<longleftrightarrow>
     e = peer_ed25519_public i \<and> m = peer_mldsa65_public i"
  by (simp add: verify_peer_public_keys_def)

lemma verify_peer_signatures_iff [result_iff]:
  "verify_peer_signatures lib i t es ms = Inr u \<longleftrightarrow>
     (\<exists>e. ed_sig_try_from lib es = Some e \<and> ed_verify_strict lib (peer_ed25519 i) t e) \<and>
     (\<exists>m. ml_sig_try_from lib ms = Some m \<and> ml_verify lib (peer_mldsa65 i) t m)"
  by (auto simp: verify_peer_signatures_def result_iff)

text \<open>What a well-formed identity signs has the wire sizes, and every peer that pins it
  accepts the signatures.\<close>

lemma sign_verifies:
  assumes "mutual lib a b"
  obtains s where "identity_sign lib a t = Inr s" "length (sig_ed25519 s) = 64"
    "length (sig_mldsa65 s) = 3309"
    "verify_peer_signatures lib b t (sig_ed25519 s) (sig_mldsa65 s) = Inr ()"
proof -
  from assms have laws: "ed25519_laws lib" "mldsa65_laws lib"
    and wf: "identity_wf lib a" "identity_wf lib b" and pin: "pins b a"
    by (auto simp: mutual_def crypto_laws_def)
  from ed_sign_ok [OF laws(1), of "own_ed25519 a" t] obtain e where
    e: "ed_try_sign lib (own_ed25519 a) t = Some e" "length e = 64" "ed_sig_try_from lib e = Some e"
      "ed_verify_strict lib (peer_ed25519 b) t e"
    using wf pin by (auto simp: identity_wf_def pins_def)
  from ml_sign_ok [OF laws(2), of "own_mldsa65 a" t] obtain m where
    m: "ml_try_sign lib (own_mldsa65 a) t = Some m" "length m = 3309" "ml_sig_try_from lib m = Some m"
      "ml_verify lib (peer_mldsa65 b) t m"
    using wf pin by (auto simp: identity_wf_def pins_def)
  show thesis
    by (rule that [of "\<lparr>sig_ed25519 = e, sig_mldsa65 = m\<rparr>"])
      (use e m in \<open>auto simp: identity_sign_def verify_peer_signatures_def\<close>)
qed

lemma own_public_lengths:
  "crypto_laws lib \<Longrightarrow> identity_wf lib a \<Longrightarrow>
     length (own_ed25519_public a) = 32 \<and> length (own_mldsa65_public a) = 1952"
  by (simp add: identity_wf_def crypto_laws_def ed_public_length ml_public_length)

text \<open>An identity of the concrete library with own seeds made of \<open>a\<close>, pinning the identity
  whose seeds are made of \<open>b\<close>.\<close>

definition toy_id :: "u8 \<Rightarrow> u8 \<Rightarrow> IdentityMaterial" where
  "toy_id a b =
     \<lparr>own_ed25519 = replicate 32 a, own_mldsa65 = replicate 32 a,
      own_ed25519_public = replicate 32 a, own_mldsa65_public = pad 1952 (replicate 32 a),
      peer_ed25519 = replicate 32 b, peer_mldsa65 = pad 1952 (replicate 32 b),
      peer_ed25519_public = replicate 32 b, peer_mldsa65_public = pad 1952 (replicate 32 b)\<rparr>"

lemma toy_id_mutual: "mutual toy_lib (toy_id a b) (toy_id b a)"
proof -
  have "identity_wf toy_lib (toy_id x y)" for x y
    by (simp add: identity_wf_def toy_id_def toy_lib_def MLDSA65_PUBLIC_LEN_def)
  then show ?thesis by (simp add: mutual_def toy_crypto_laws pins_def toy_id_def)
qed

end
