(* ===== verification/Hybrid_Handshake.thy ===== *)
theory Hybrid_Handshake
  imports Identity
begin

text \<open>
  The hybrid X25519 + ML-KEM handshake: \<open>src/crypto/generic.rs\<close> (ClientHello, response,
  completion, generic over the ML-KEM parameter set) and its two instances \<open>nist768.rs\<close> and
  \<open>nist1024.rs\<close>, selected by \<open>CipherSuite\<close> of \<open>src/crypto/mod.rs\<close>. Randomness is an argument:
  \<open>xr\<close> the ephemeral X25519 secret, \<open>kr\<close> the ML-KEM randomness. The locale
  \<open>handshake_engine\<close> is the contract of the trait \<open>SovereignCryptoEngine\<close>.
\<close>

section \<open>Messages and transcript\<close>

definition CLIENT_AUTH_LABEL :: bytes where
  "CLIENT_AUTH_LABEL = ascii ''syntriass-overlay client identity v1''"

definition SERVER_AUTH_LABEL :: bytes where
  "SERVER_AUTH_LABEL = ascii ''syntriass-overlay server identity v1''"

definition KEY_TRANSCRIPT_LABEL :: bytes where
  "KEY_TRANSCRIPT_LABEL = ascii ''syntriass-overlay transcript hash v1''"

definition client_auth_message :: "u8 \<Rightarrow> bytes \<Rightarrow> bytes" where
  "client_auth_message suite_id client_unsigned = CLIENT_AUTH_LABEL @ [suite_id] @ client_unsigned"

definition server_auth_message :: "u8 \<Rightarrow> bytes \<Rightarrow> bytes \<Rightarrow> bytes" where
  "server_auth_message suite_id client_hello server_unsigned =
     SERVER_AUTH_LABEL @ [suite_id] @ client_hello @ server_unsigned"

definition transcript_hash :: "crypto_lib \<Rightarrow> u8 \<Rightarrow> bytes \<Rightarrow> bytes \<Rightarrow> bytes" where
  "transcript_hash lib suite_id client_hello server_hello =
     sha256 lib (KEY_TRANSCRIPT_LABEL @ [suite_id] @ client_hello @ server_hello)"

definition split_identity_fields ::
  "bytes \<Rightarrow> nat \<Rightarrow> CryptoError + (bytes \<times> bytes \<times> bytes \<times> bytes)" where
  "split_identity_fields body public_start =
     (let ed_pub_end = public_start + ED25519_PUBLIC_LEN;
          ml_pub_end = ed_pub_end + MLDSA65_PUBLIC_LEN;
          ed_sig_end = ml_pub_end + ED25519_SIGNATURE_LEN;
          ml_sig_end = ed_sig_end + MLDSA65_SIGNATURE_LEN
      in if length body \<noteq> ml_sig_end then Inl BadHelloLength
         else Inr (bslice public_start ed_pub_end body, bslice ed_pub_end ml_pub_end body,
                   bslice ml_pub_end ed_sig_end body, bslice ed_sig_end ml_sig_end body))"

section \<open>The generic handshake\<close>

record GenericInitiatorState =
  gis_suite_id :: u8
  gis_x_secret :: bytes
  gis_ml_decap :: bytes
  gis_client_hello :: bytes

definition client_hello ::
  "crypto_lib \<Rightarrow> kem \<Rightarrow> bytes \<Rightarrow> bytes \<Rightarrow> u8 \<Rightarrow> IdentityMaterial \<Rightarrow>
     CryptoError + (GenericInitiatorState \<times> bytes)" where
  "client_hello lib K xr kr suite_id identity =
     (let x_public = x25519_public lib xr;
          (ml_decap, ek_bytes) = kem_generate K kr;
          unsigned = x_public @ ek_bytes @ own_ed25519_public identity @ own_mldsa65_public identity;
          auth_msg = client_auth_message suite_id unsigned in
      rbind (identity_sign lib identity auth_msg) (\<lambda>signatures.
      let body = unsigned @ sig_ed25519 signatures @ sig_mldsa65 signatures in
      Inr (\<lparr>gis_suite_id = suite_id, gis_x_secret = xr, gis_ml_decap = ml_decap,
             gis_client_hello = body\<rparr>, body)))"

definition respond ::
  "crypto_lib \<Rightarrow> kem \<Rightarrow> bytes \<Rightarrow> bytes \<Rightarrow> u8 \<Rightarrow> nat \<Rightarrow> IdentityMaterial \<Rightarrow> bytes \<Rightarrow>
     CryptoError + (SessionKeys \<times> bytes)" where
  "respond lib K xr kr suite_id ek_len identity body =
     (let unsigned_len = X25519_LEN + ek_len + IDENTITY_PUBLIC_LEN;
          expected_len = unsigned_len + IDENTITY_SIGNATURE_LEN in
      if length body \<noteq> expected_len then Inl BadHelloLength else
      let unsigned = bslice 0 unsigned_len body in
      rbind (split_identity_fields body (X25519_LEN + ek_len))
        (\<lambda>(client_ed_pub, client_ml_pub, client_ed_sig, client_ml_sig).
      rbind (verify_peer_public_keys identity client_ed_pub client_ml_pub) (\<lambda>_.
      let auth_msg = client_auth_message suite_id unsigned in
      rbind (verify_peer_signatures lib identity auth_msg client_ed_sig client_ml_sig) (\<lambda>_.
      rbind (ok_or BadHelloLength (try_into_array 32 (bslice 0 X25519_LEN body))) (\<lambda>peer_x.
      let ek_slice = bslice X25519_LEN (X25519_LEN + ek_len) body in
      rbind (ok_or MlKemDecode (kem_ek_try_from K ek_slice)) (\<lambda>peer_ek.
      let server_x_public = x25519_public lib xr in
      rbind (ok_or MlKemDecode (kem_encapsulate K peer_ek kr)) (\<lambda>(ml_ct, ml_ss).
      let x_ss = x25519_dh lib xr peer_x;
          ikm = x_ss @ ml_ss;
          server_unsigned = server_x_public @ ml_ct @ own_ed25519_public identity
            @ own_mldsa65_public identity;
          server_auth = server_auth_message suite_id body server_unsigned in
      rbind (identity_sign lib identity server_auth) (\<lambda>signatures.
      let hello = server_unsigned @ sig_ed25519 signatures @ sig_mldsa65 signatures;
          th = transcript_hash lib suite_id body hello in
      rbind (derive lib ikm suite_id th False) (\<lambda>keys.
      Inr (keys, hello))))))))))"

definition finish ::
  "crypto_lib \<Rightarrow> kem \<Rightarrow> GenericInitiatorState \<Rightarrow> nat \<Rightarrow> IdentityMaterial \<Rightarrow> bytes \<Rightarrow>
     CryptoError + SessionKeys" where
  "finish lib K state ct_len identity body =
     (let unsigned_len = X25519_LEN + ct_len + IDENTITY_PUBLIC_LEN;
          expected_len = unsigned_len + IDENTITY_SIGNATURE_LEN in
      if length body \<noteq> expected_len then Inl BadHelloLength else
      let unsigned = bslice 0 unsigned_len body in
      rbind (split_identity_fields body (X25519_LEN + ct_len))
        (\<lambda>(server_ed_pub, server_ml_pub, server_ed_sig, server_ml_sig).
      rbind (verify_peer_public_keys identity server_ed_pub server_ml_pub) (\<lambda>_.
      let auth_msg = server_auth_message (gis_suite_id state) (gis_client_hello state) unsigned in
      rbind (verify_peer_signatures lib identity auth_msg server_ed_sig server_ml_sig) (\<lambda>_.
      rbind (ok_or BadHelloLength (try_into_array 32 (bslice 0 X25519_LEN body))) (\<lambda>peer_x.
      let ct_slice = bslice X25519_LEN (X25519_LEN + ct_len) body in
      rbind (ok_or MlKemDecode (kem_ct_try_from K ct_slice)) (\<lambda>ct.
      rbind (ok_or Decapsulate (kem_decapsulate K (gis_ml_decap state) ct)) (\<lambda>ml_ss.
      let x_ss = x25519_dh lib (gis_x_secret state) peer_x;
          ikm = x_ss @ ml_ss;
          th = transcript_hash lib (gis_suite_id state) (gis_client_hello state) body in
      derive lib ikm (gis_suite_id state) th True)))))))"

section \<open>Suites and engines\<close>

datatype CipherSuite = NistStandard768 | NistStandard1024

definition nist768_SUITE_ID :: u8 where "nist768_SUITE_ID = 0x01"
definition nist768_EK_LEN :: nat where "nist768_EK_LEN = 1184"
definition nist768_CT_LEN :: nat where "nist768_CT_LEN = 1088"
definition nist1024_SUITE_ID :: u8 where "nist1024_SUITE_ID = 0x02"
definition nist1024_EK_LEN :: nat where "nist1024_EK_LEN = 1568"
definition nist1024_CT_LEN :: nat where "nist1024_CT_LEN = 1568"

fun CipherSuite_id :: "CipherSuite \<Rightarrow> u8" where
  "CipherSuite_id NistStandard768 = nist768_SUITE_ID"
| "CipherSuite_id NistStandard1024 = nist1024_SUITE_ID"

definition CipherSuite_from_id :: "u8 \<Rightarrow> CipherSuite option" where
  "CipherSuite_from_id i =
     (if i = nist768_SUITE_ID then Some NistStandard768
      else if i = nist1024_SUITE_ID then Some NistStandard1024
      else None)"

text \<open>\<open>Box<dyn InitiatorState>\<close>: the engine that made the state is remembered by the wrapper.\<close>

datatype InitiatorState = Nist768Init GenericInitiatorState | Nist1024Init GenericInitiatorState

definition nist768_begin_initiator ::
  "crypto_lib \<Rightarrow> bytes \<Rightarrow> bytes \<Rightarrow> IdentityMaterial \<Rightarrow> CryptoError + (InitiatorState \<times> bytes)" where
  "nist768_begin_initiator lib xr kr identity =
     rbind (client_hello lib (ml_kem_768 lib) xr kr nist768_SUITE_ID identity) (\<lambda>(state, hello).
     Inr (Nist768Init state, hello))"

definition nist768_respond ::
  "crypto_lib \<Rightarrow> bytes \<Rightarrow> bytes \<Rightarrow> IdentityMaterial \<Rightarrow> bytes \<Rightarrow> CryptoError + (SessionKeys \<times> bytes)" where
  "nist768_respond lib xr kr identity hello =
     respond lib (ml_kem_768 lib) xr kr nist768_SUITE_ID nist768_EK_LEN identity hello"

definition nist768_finish ::
  "crypto_lib \<Rightarrow> GenericInitiatorState \<Rightarrow> IdentityMaterial \<Rightarrow> bytes \<Rightarrow> CryptoError + SessionKeys" where
  "nist768_finish lib s identity server_hello = finish lib (ml_kem_768 lib) s nist768_CT_LEN identity server_hello"

definition nist1024_begin_initiator ::
  "crypto_lib \<Rightarrow> bytes \<Rightarrow> bytes \<Rightarrow> IdentityMaterial \<Rightarrow> CryptoError + (InitiatorState \<times> bytes)" where
  "nist1024_begin_initiator lib xr kr identity =
     rbind (client_hello lib (ml_kem_1024 lib) xr kr nist1024_SUITE_ID identity) (\<lambda>(state, hello).
     Inr (Nist1024Init state, hello))"

definition nist1024_respond ::
  "crypto_lib \<Rightarrow> bytes \<Rightarrow> bytes \<Rightarrow> IdentityMaterial \<Rightarrow> bytes \<Rightarrow> CryptoError + (SessionKeys \<times> bytes)" where
  "nist1024_respond lib xr kr identity hello =
     respond lib (ml_kem_1024 lib) xr kr nist1024_SUITE_ID nist1024_EK_LEN identity hello"

definition nist1024_finish ::
  "crypto_lib \<Rightarrow> GenericInitiatorState \<Rightarrow> IdentityMaterial \<Rightarrow> bytes \<Rightarrow> CryptoError + SessionKeys" where
  "nist1024_finish lib s identity server_hello = finish lib (ml_kem_1024 lib) s nist1024_CT_LEN identity server_hello"

declare nist768_finish_def [simp] nist1024_finish_def [simp]

text \<open>Dynamic dispatch through \<open>CipherSuite::engine\<close> and \<open>InitiatorState::finish\<close>.\<close>

fun engine_suite_id :: "CipherSuite \<Rightarrow> u8" where
  "engine_suite_id NistStandard768 = nist768_SUITE_ID"
| "engine_suite_id NistStandard1024 = nist1024_SUITE_ID"

fun engine_begin_initiator ::
  "crypto_lib \<Rightarrow> CipherSuite \<Rightarrow> bytes \<Rightarrow> bytes \<Rightarrow> IdentityMaterial \<Rightarrow>
     CryptoError + (InitiatorState \<times> bytes)" where
  "engine_begin_initiator lib NistStandard768 xr kr i = nist768_begin_initiator lib xr kr i"
| "engine_begin_initiator lib NistStandard1024 xr kr i = nist1024_begin_initiator lib xr kr i"

fun engine_respond ::
  "crypto_lib \<Rightarrow> CipherSuite \<Rightarrow> bytes \<Rightarrow> bytes \<Rightarrow> IdentityMaterial \<Rightarrow> bytes \<Rightarrow>
     CryptoError + (SessionKeys \<times> bytes)" where
  "engine_respond lib NistStandard768 xr kr i hello = nist768_respond lib xr kr i hello"
| "engine_respond lib NistStandard1024 xr kr i hello = nist1024_respond lib xr kr i hello"

fun InitiatorState_finish ::
  "crypto_lib \<Rightarrow> InitiatorState \<Rightarrow> IdentityMaterial \<Rightarrow> bytes \<Rightarrow> CryptoError + SessionKeys" where
  "InitiatorState_finish lib (Nist768Init s) i hello = nist768_finish lib s i hello"
| "InitiatorState_finish lib (Nist1024Init s) i hello = nist1024_finish lib s i hello"

lemma engine_suite_id_eq: "CipherSuite_from_id (engine_suite_id suite) = Some suite"
  by (cases suite) (simp_all add: CipherSuite_from_id_def nist768_SUITE_ID_def nist1024_SUITE_ID_def)

section \<open>Layout of a hello\<close>

lemma hello_layout:
  assumes "length x = 32" "length k = n" "length e = 32" "length m = 1952"
    "length es = 64" "length ms = 3309"
  defines "body \<equiv> (x @ k @ e @ m) @ es @ ms"
  shows "split_identity_fields body (X25519_LEN + n) = Inr (e, m, es, ms)"
    and "bslice 0 X25519_LEN body = x"
    and "bslice X25519_LEN (X25519_LEN + n) body = k"
    and "bslice 0 (X25519_LEN + n + IDENTITY_PUBLIC_LEN) body = x @ k @ e @ m"
    and "length body = X25519_LEN + n + IDENTITY_PUBLIC_LEN + IDENTITY_SIGNATURE_LEN"
  using assms(1-6)
  by (simp_all add: body_def split_identity_fields_def Let_def len_defs bslice_def)

text \<open>Unfolded acceptance conditions of the two processing steps.\<close>

lemma respond_eq:
  assumes "length body = X25519_LEN + n + IDENTITY_PUBLIC_LEN + IDENTITY_SIGNATURE_LEN"
    and "split_identity_fields body (X25519_LEN + n) = Inr (e, m, es, ms)"
    and "verify_peer_public_keys i e m = Inr ()"
    and "verify_peer_signatures lib i
           (client_auth_message sid (bslice 0 (X25519_LEN + n + IDENTITY_PUBLIC_LEN) body)) es ms = Inr ()"
    and "kem_ek_try_from K (bslice X25519_LEN (X25519_LEN + n) body) = Some ek"
    and "kem_encapsulate K ek kr = Some (ct, ss)"
    and "identity_sign lib i (server_auth_message sid body
           (x25519_public lib xr @ ct @ own_ed25519_public i @ own_mldsa65_public i)) = Inr sg"
  defines "hello \<equiv> (x25519_public lib xr @ ct @ own_ed25519_public i @ own_mldsa65_public i)
             @ sig_ed25519 sg @ sig_mldsa65 sg"
  shows "respond lib K xr kr sid n i body =
    rbind (derive lib (x25519_dh lib xr (bslice 0 X25519_LEN body) @ ss) sid
      (transcript_hash lib sid body hello) False) (\<lambda>keys. Inr (keys, hello))"
proof -
  have "length (bslice 0 X25519_LEN body) = 32" using assms(1) by (simp add: len_defs)
  then show ?thesis
    using assms(1-7) by (simp add: respond_def Let_def try_into_array_def hello_def)
qed

lemma finish_eq:
  assumes "length body = X25519_LEN + n + IDENTITY_PUBLIC_LEN + IDENTITY_SIGNATURE_LEN"
    and "split_identity_fields body (X25519_LEN + n) = Inr (e, m, es, ms)"
    and "verify_peer_public_keys i e m = Inr ()"
    and "verify_peer_signatures lib i (server_auth_message (gis_suite_id st) (gis_client_hello st)
           (bslice 0 (X25519_LEN + n + IDENTITY_PUBLIC_LEN) body)) es ms = Inr ()"
    and "kem_ct_try_from K (bslice X25519_LEN (X25519_LEN + n) body) = Some ct"
    and "kem_decapsulate K (gis_ml_decap st) ct = Some ss"
  shows "finish lib K st n i body =
    derive lib (x25519_dh lib (gis_x_secret st) (bslice 0 X25519_LEN body) @ ss) (gis_suite_id st)
      (transcript_hash lib (gis_suite_id st) (gis_client_hello st) body) True"
proof -
  have "length (bslice 0 X25519_LEN body) = 32" using assms(1) by (simp add: len_defs)
  then show ?thesis
    using assms by (simp add: finish_def Let_def try_into_array_def)
qed

section \<open>Agreement\<close>

lemma generic_agreement:
  assumes trust: "mutual lib c s" and kem: "kem_laws K ek_len ct_len"
  shows "\<exists>st ch ks sh kc. client_hello lib K xr kr sid c = Inr (st, ch) \<and>
    respond lib K xr' kr' sid ek_len s ch = Inr (ks, sh) \<and>
    finish lib K st ct_len c sh = Inr kc \<and> fresh_mirror kc ks \<and>
    length ch = 5389 + ek_len \<and> length sh = 5389 + ct_len"
proof -
  from trust have laws: "hkdf_laws lib" "x25519_laws lib"
    and pub: "length (own_ed25519_public c) = 32" "length (own_mldsa65_public c) = 1952"
      "length (own_ed25519_public s) = 32" "length (own_mldsa65_public s) = 1952"
    and pin: "pins c s" "pins s c"
    using own_public_lengths [of lib c] own_public_lengths [of lib s]
    by (auto simp: mutual_def crypto_laws_def)
  from kem obtain dk ek ct ss where gen: "kem_generate K kr = (dk, ek)"
    and ek: "length ek = ek_len" "kem_ek_try_from K ek = Some ek"
    and enc: "kem_encapsulate K ek kr' = Some (ct, ss)" "length ct = ct_len"
    and ct: "kem_ct_try_from K ct = Some ct" "kem_decapsulate K dk ct = Some ss"
    by (rule kem_exchange)
  define U where "U = x25519_public lib xr @ ek @ own_ed25519_public c @ own_mldsa65_public c"
  define V where "V = x25519_public lib xr' @ ct @ own_ed25519_public s @ own_mldsa65_public s"
  obtain sc where sc: "identity_sign lib c (client_auth_message sid U) = Inr sc"
    "length (sig_ed25519 sc) = 64" "length (sig_mldsa65 sc) = 3309"
    "verify_peer_signatures lib s (client_auth_message sid U) (sig_ed25519 sc) (sig_mldsa65 sc) = Inr ()"
    using trust by (rule sign_verifies)
  define ch where "ch = U @ sig_ed25519 sc @ sig_mldsa65 sc"
  define st where "st = \<lparr>gis_suite_id = sid, gis_x_secret = xr, gis_ml_decap = dk, gis_client_hello = ch\<rparr>"
  have hello: "client_hello lib K xr kr sid c = Inr (st, ch)"
    using sc(1) by (simp add: client_hello_def gen U_def ch_def st_def Let_def)
  obtain ssg where ssg: "identity_sign lib s (server_auth_message sid ch V) = Inr ssg"
    "length (sig_ed25519 ssg) = 64" "length (sig_mldsa65 ssg) = 3309"
    "verify_peer_signatures lib c (server_auth_message sid ch V) (sig_ed25519 ssg) (sig_mldsa65 ssg) = Inr ()"
    using mutual_sym [OF trust] by (rule sign_verifies)
  define sh where "sh = V @ sig_ed25519 ssg @ sig_mldsa65 ssg"
  note chl = hello_layout [OF x25519_public_length [OF laws(2), of xr] ek(1) pub(1,2) sc(2,3),
      folded U_def, folded ch_def]
  note shl = hello_layout [OF x25519_public_length [OF laws(2), of xr'] enc(2) pub(3,4) ssg(2,3),
      folded V_def, folded sh_def]
  have vp: "verify_peer_public_keys s (own_ed25519_public c) (own_mldsa65_public c) = Inr ()"
    "verify_peer_public_keys c (own_ed25519_public s) (own_mldsa65_public s) = Inr ()"
    using pin by (simp_all add: verify_peer_public_keys_def pins_def)
  obtain kc ks where keys:
    "derive lib (x25519_dh lib xr' (x25519_public lib xr) @ ss) sid (transcript_hash lib sid ch sh) True = Inr kc"
    "derive lib (x25519_dh lib xr' (x25519_public lib xr) @ ss) sid (transcript_hash lib sid ch sh) False = Inr ks"
    "fresh_mirror kc ks"
    using derive_mirror [OF laws(1)] by blast
  have "respond lib K xr' kr' sid ek_len s ch = Inr (ks, sh)"
    using respond_eq [OF chl(5,1) vp(1), of lib sid K ek kr' ct ss xr' ssg] chl sc(4) ek enc ssg(1) keys
    by (simp add: V_def sh_def)
  moreover have "finish lib K st ct_len c sh = Inr kc"
    using finish_eq [OF shl(5,1) vp(2), of lib st K ct ss] shl ssg(4) ct keys
      x25519_agree [OF laws(2), of xr xr'] by (simp add: st_def)
  ultimately show ?thesis using hello keys(3) chl(5) shl(5) by (auto simp: len_defs)
qed

section \<open>The engine contract\<close>

text \<open>The trait \<open>SovereignCryptoEngine\<close>: between identities that trust each other, begin,
  respond and finish complete and give the two sides mirrored fresh sessions, with hellos of
  bounded size; and neither side completes unless the peer's hello passed its checks.\<close>

locale handshake_engine =
  fixes begin_i :: "'r \<Rightarrow> IdentityMaterial \<Rightarrow> CryptoError + ('s \<times> bytes)"
    and respond_to :: "'r \<Rightarrow> IdentityMaterial \<Rightarrow> bytes \<Rightarrow> CryptoError + (SessionKeys \<times> bytes)"
    and finish_with :: "'s \<Rightarrow> IdentityMaterial \<Rightarrow> bytes \<Rightarrow> CryptoError + SessionKeys"
    and trust :: "IdentityMaterial \<Rightarrow> IdentityMaterial \<Rightarrow> bool"
    and max_hello :: nat
  assumes completes: "trust c s \<Longrightarrow> \<exists>st ch ks sh kc. begin_i r c = Inr (st, ch) \<and>
      respond_to r' s ch = Inr (ks, sh) \<and> finish_with st c sh = Inr kc \<and> fresh_mirror kc ks \<and>
      0 < length ch \<and> length ch \<le> max_hello \<and> 0 < length sh \<and> length sh \<le> max_hello"
begin

lemma exchange:
  assumes "trust c s" and "begin_i r c = Inr (st, ch)" and "respond_to r' s ch = Inr (ks, sh)"
  obtains kc where "finish_with st c sh = Inr kc" "fresh_mirror kc ks"
  using completes [OF assms(1), of r r'] assms(2,3) by auto

lemma begin_ok:
  assumes "trust c s"
  obtains st ch where "begin_i r c = Inr (st, ch)" "0 < length ch" "length ch \<le> max_hello"
  using completes [OF assms, of r] by blast

lemma respond_ok:
  assumes "trust c s" and "begin_i r c = Inr (st, ch)"
  obtains ks sh where "respond_to r' s ch = Inr (ks, sh)" "0 < length sh" "length sh \<le> max_hello"
  using completes [OF assms(1), of r r'] assms(2) by auto

end

interpretation engine: handshake_engine
  "\<lambda>(xr, kr) i. engine_begin_initiator lib suite xr kr i"
  "\<lambda>(xr, kr) i hello. engine_respond lib suite xr kr i hello"
  "InitiatorState_finish lib" "mutual lib" 6957 for lib suite
proof unfold_locales
  fix c s :: IdentityMaterial and r r' :: "bytes \<times> bytes"
  assume m: "mutual lib c s"
  then have kem: "kem_laws (ml_kem_768 lib) 1184 1088" "kem_laws (ml_kem_1024 lib) 1568 1568"
    by (simp_all add: mutual_def crypto_laws_def)
  obtain xr kr xr' kr' where r: "r = (xr, kr)" "r' = (xr', kr')" by fastforce
  note defs = nist768_begin_initiator_def nist768_respond_def nist1024_begin_initiator_def
    nist1024_respond_def nist768_EK_LEN_def nist768_CT_LEN_def nist1024_EK_LEN_def nist1024_CT_LEN_def
  show "\<exists>st ch ks sh kc.
      (case r of (xr, kr) \<Rightarrow> \<lambda>i. engine_begin_initiator lib suite xr kr i) c = Inr (st, ch) \<and>
      (case r' of (xr, kr) \<Rightarrow> \<lambda>i hello. engine_respond lib suite xr kr i hello) s ch = Inr (ks, sh) \<and>
      InitiatorState_finish lib st c sh = Inr kc \<and> fresh_mirror kc ks \<and>
      0 < length ch \<and> length ch \<le> 6957 \<and> 0 < length sh \<and> length sh \<le> 6957"
  proof (cases suite)
    case NistStandard768
    from generic_agreement [OF m kem(1), of xr kr nist768_SUITE_ID xr' kr'] obtain st ch ks sh kc
      where "client_hello lib (ml_kem_768 lib) xr kr nist768_SUITE_ID c = Inr (st, ch)"
        "respond lib (ml_kem_768 lib) xr' kr' nist768_SUITE_ID 1184 s ch = Inr (ks, sh)"
        "finish lib (ml_kem_768 lib) st 1088 c sh = Inr kc" "fresh_mirror kc ks"
        "length ch = 5389 + 1184" "length sh = 5389 + 1088" by blast
    then show ?thesis unfolding r NistStandard768
      by (intro exI [of _ "Nist768Init st"] exI [of _ ch] exI [of _ ks] exI [of _ sh] exI [of _ kc])
        (simp add: defs)
  next
    case NistStandard1024
    from generic_agreement [OF m kem(2), of xr kr nist1024_SUITE_ID xr' kr'] obtain st ch ks sh kc
      where "client_hello lib (ml_kem_1024 lib) xr kr nist1024_SUITE_ID c = Inr (st, ch)"
        "respond lib (ml_kem_1024 lib) xr' kr' nist1024_SUITE_ID 1568 s ch = Inr (ks, sh)"
        "finish lib (ml_kem_1024 lib) st 1568 c sh = Inr kc" "fresh_mirror kc ks"
        "length ch = 5389 + 1568" "length sh = 5389 + 1568" by blast
    then show ?thesis unfolding r NistStandard1024
      by (intro exI [of _ "Nist1024Init st"] exI [of _ ch] exI [of _ ks] exI [of _ sh] exI [of _ kc])
        (simp add: defs)
  qed
qed

text \<open>C11. Key agreement: for either suite, any randomness and any two well-formed identities that
  pin each other, the ClientHello is answered, the answer is accepted, and the two sides hold
  mirrored sessions with fresh counters.\<close>

theorem handshake_agreement:
  assumes "mutual lib c s"
  shows "\<exists>st ch ks sh kc. engine_begin_initiator lib suite xr kr c = Inr (st, ch) \<and>
    engine_respond lib suite xr' kr' s ch = Inr (ks, sh) \<and>
    InitiatorState_finish lib st c sh = Inr kc \<and> fresh_mirror kc ks"
  using engine.completes [OF assms, of suite "(xr, kr)" "(xr', kr')"] by auto

theorem handshake_agreement_witness:
  "\<exists>st ch ks sh kc. engine_begin_initiator toy_lib NistStandard768 [1] [2] (toy_id 1 2) = Inr (st, ch) \<and>
    engine_respond toy_lib NistStandard768 [3] [4] (toy_id 2 1) ch = Inr (ks, sh) \<and>
    InitiatorState_finish toy_lib st (toy_id 1 2) sh = Inr kc \<and> fresh_mirror kc ks"
  by (rule handshake_agreement [OF toy_id_mutual])

lemma toy_exchange:
  obtains st ch ks sh kc where
    "engine_begin_initiator toy_lib suite [1] [2] (toy_id 1 2) = Inr (st, ch)"
    "engine_respond toy_lib suite [3] [4] (toy_id 2 1) ch = Inr (ks, sh)"
    "InitiatorState_finish toy_lib st (toy_id 1 2) sh = Inr kc"
  using engine.completes [OF toy_id_mutual [of 1 2], of suite "([1], [2])" "([3], [4])"] by auto

section \<open>Authentication\<close>

definition suite_ek_len :: "CipherSuite \<Rightarrow> nat" where
  "suite_ek_len s = (case s of NistStandard768 \<Rightarrow> nist768_EK_LEN | NistStandard1024 \<Rightarrow> nist1024_EK_LEN)"

definition suite_ct_len :: "CipherSuite \<Rightarrow> nat" where
  "suite_ct_len s = (case s of NistStandard768 \<Rightarrow> nist768_CT_LEN | NistStandard1024 \<Rightarrow> nist1024_CT_LEN)"

text \<open>The conditions under which a hello with a KEM part of \<open>n\<close> bytes is accepted from the pinned
  peer: exact length, the pinned public keys at their place, and both signatures valid for the
  message \<open>auth unsigned\<close>.\<close>

definition hello_authentic ::
  "crypto_lib \<Rightarrow> IdentityMaterial \<Rightarrow> (bytes \<Rightarrow> bytes) \<Rightarrow> nat \<Rightarrow> bytes \<Rightarrow> bool" where
  "hello_authentic lib i auth n body \<longleftrightarrow>
     (\<exists>x k es ms. body = (x @ k @ peer_ed25519_public i @ peer_mldsa65_public i) @ es @ ms \<and>
        length x = 32 \<and> length k = n \<and> length es = 64 \<and> length ms = 3309 \<and>
        length body = n + 5389 \<and>
        verify_peer_signatures lib i
          (auth (x @ k @ peer_ed25519_public i @ peer_mldsa65_public i)) es ms = Inr ())"

lemma split_identity_fields_iff:
  "split_identity_fields body (X25519_LEN + n) = Inr (e, m, es, ms) \<longleftrightarrow>
     (\<exists>x k. body = (x @ k @ e @ m) @ es @ ms \<and> length x = 32 \<and> length k = n \<and> length e = 32 \<and>
        length m = 1952 \<and> length es = 64 \<and> length ms = 3309)"
    (is "?L \<longleftrightarrow> ?R")
proof
  assume ?L
  then have len: "length body = n + 5389" and
    f: "e = bslice (32 + n) (64 + n) body" "m = bslice (64 + n) (2016 + n) body"
      "es = bslice (2016 + n) (2080 + n) body" "ms = bslice (2080 + n) (5389 + n) body"
    by (auto simp: split_identity_fields_def Let_def len_defs algebra_simps split: if_splits)
  have "body = bslice 0 32 body @ bslice 32 (32 + n) body @ e @ m @ es @ ms"
    unfolding f using len by (simp add: bslice_split bslice_full)
  with len f show ?R
    by (intro exI [of _ "bslice 0 32 body"] exI [of _ "bslice 32 (32 + n) body"]) simp
next
  assume ?R
  then show ?L using hello_layout(1) by blast
qed

lemma hello_authenticI:
  assumes "split_identity_fields body (X25519_LEN + n) = Inr (e, m, es, ms)"
    and "verify_peer_public_keys i e m = Inr ()"
    and "verify_peer_signatures lib i
      (auth (bslice 0 (X25519_LEN + n + IDENTITY_PUBLIC_LEN) body)) es ms = Inr ()"
  shows "hello_authentic lib i auth n body"
proof -
  from assms(1) obtain x k where b: "body = (x @ k @ e @ m) @ es @ ms" "length x = 32" "length k = n"
    "length e = 32" "length m = 1952" "length es = 64" "length ms = 3309"
    by (auto simp only: split_identity_fields_iff)
  from hello_layout(4) [OF b(2-7)] have "bslice 0 (X25519_LEN + n + IDENTITY_PUBLIC_LEN) body = x @ k @ e @ m"
    by (simp only: b(1))
  with assms(2,3) b show ?thesis
    unfolding hello_authentic_def
    by (intro exI [of _ x] exI [of _ k] exI [of _ es] exI [of _ ms]) (simp add: result_iff)
qed

lemma respond_authentic:
  assumes "respond lib K xr kr sid n i body = Inr (keys, hello)"
  shows "hello_authentic lib i (client_auth_message sid) n body"
  using assms
  by (auto simp: respond_def Let_def result_iff split: if_splits prod.splits
      intro!: hello_authenticI simp: verify_peer_public_keys_def verify_peer_signatures_def)

lemma finish_authentic:
  assumes "finish lib K st n i body = Inr keys"
  shows "hello_authentic lib i (server_auth_message (gis_suite_id st) (gis_client_hello st)) n body"
  using assms
  by (auto simp: finish_def Let_def result_iff split: if_splits prod.splits
      intro!: hello_authenticI simp: verify_peer_public_keys_def verify_peer_signatures_def)

lemma engine_respond_authentic:
  assumes "engine_respond lib suite xr kr i body = Inr (keys, hello)"
  shows "hello_authentic lib i (client_auth_message (CipherSuite_id suite)) (suite_ek_len suite) body"
  using assms respond_authentic
  by (cases suite) (auto simp: nist768_respond_def nist1024_respond_def suite_ek_len_def)



lemma engine_finish_authentic:
  assumes "engine_begin_initiator lib suite xr kr i = Inr (st, ch)"
    and "InitiatorState_finish lib st i' body = Inr keys"
  shows "hello_authentic lib i' (server_auth_message (CipherSuite_id suite) ch) (suite_ct_len suite) body"
proof (cases suite)
  case NistStandard768
  with assms(1) obtain g where "st = Nist768Init g" "gis_suite_id g = CipherSuite_id suite" "gis_client_hello g = ch"
    by (auto simp: nist768_begin_initiator_def client_hello_def Let_def result_iff split: prod.splits)
  with assms(2) NistStandard768 show ?thesis
    by (auto dest: finish_authentic simp: suite_ct_len_def)
next
  case NistStandard1024
  with assms(1) obtain g where "st = Nist1024Init g" "gis_suite_id g = CipherSuite_id suite" "gis_client_hello g = ch"
    by (auto simp: nist1024_begin_initiator_def client_hello_def Let_def result_iff split: prod.splits)
  with assms(2) NistStandard1024 show ?thesis
    by (auto dest: finish_authentic simp: suite_ct_len_def)
qed



lemma auth_labels:
  "length CLIENT_AUTH_LABEL = length SERVER_AUTH_LABEL" "CLIENT_AUTH_LABEL \<noteq> SERVER_AUTH_LABEL"
  by (simp_all add: CLIENT_AUTH_LABEL_def SERVER_AUTH_LABEL_def ascii_def of_char_def)

text \<open>Signed messages are unambiguous: a client's and a server's signed message never coincide
  (a signature cannot be replayed in the other role), and equal signed messages have equal suite
  and equal contents, where the hellos have their fixed sizes.\<close>

lemma auth_messages_unambiguous:
  "client_auth_message s u \<noteq> server_auth_message s' c v \<and>
   (client_auth_message s u = client_auth_message s' u' \<longleftrightarrow> s = s' \<and> u = u') \<and>
   (length c = length c' \<longrightarrow>
     (server_auth_message s c v = server_auth_message s' c' v' \<longleftrightarrow> s = s' \<and> c = c' \<and> v = v'))"
  using auth_labels by (simp add: client_auth_message_def server_auth_message_def)

lemma auth_messages_unambiguous_example:
  "length [1, 2 :: u8] = length [3, 4 :: u8] \<and>
     server_auth_message 1 [1, 2] [5] \<noteq> server_auth_message 1 [3, 4] [5]"
  using auth_messages_unambiguous [of 1 "[]" 1 "[1, 2]" "[5]" "[]" "[3, 4]" "[5]"] by simp

end
