(* ===== verification/Psk_Fallback.thy ===== *)
theory Psk_Fallback
  imports Hybrid_Handshake
begin

text \<open>
  The pre-shared-key fallback handshake of \<open>src/crypto/fallback.rs\<close>: two messages, a fresh
  nonce from each side, and a sealed confirmation that proves the responder holds the key.
  The nonces drawn from the operating system are arguments.
\<close>

definition FALLBACK_PSK_LEN :: nat where "FALLBACK_PSK_LEN = 32"
definition FALLBACK_NONCE_LEN :: nat where "FALLBACK_NONCE_LEN = 16"

definition FALLBACK_CONFIRM :: bytes where
  "FALLBACK_CONFIRM = ascii ''syntriass-overlay psk-fallback confirm v1''"

datatype FallbackError = Malformed | FallbackCrypto | DowngradeDetected

text \<open>\<open>impl From<CryptoError> for FallbackError\<close>\<close>

definition FallbackError_from :: "CryptoError \<Rightarrow> FallbackError" where
  "FallbackError_from e = FallbackCrypto"

definition derive_fallback_session ::
  "crypto_lib \<Rightarrow> bytes \<Rightarrow> bytes \<Rightarrow> bytes \<Rightarrow> bool \<Rightarrow> CryptoError + SessionKeys" where
  "derive_fallback_session lib psk client_nonce server_nonce is_initiator =
     derive_fallback lib psk client_nonce server_nonce is_initiator"

record FallbackInitiator =
  fi_psk :: bytes
  fi_client_nonce :: bytes

definition FallbackInitiator_begin :: "bytes \<Rightarrow> bytes \<Rightarrow> FallbackInitiator \<times> bytes" where
  "FallbackInitiator_begin nonce psk = (\<lparr>fi_psk = psk, fi_client_nonce = nonce\<rparr>, nonce)"

definition FallbackInitiator_finish ::
  "crypto_lib \<Rightarrow> FallbackInitiator \<Rightarrow> bytes \<Rightarrow> FallbackError + SessionKeys" where
  "FallbackInitiator_finish lib self finished =
     (if length finished \<le> FALLBACK_NONCE_LEN then Inl Malformed
      else let server_nonce = bslice 0 FALLBACK_NONCE_LEN finished;
               confirm_ct = drop FALLBACK_NONCE_LEN finished in
      rbind (map_err FallbackError_from
        (derive_fallback_session lib (fi_psk self) (fi_client_nonce self) server_nonce True)) (\<lambda>keys.
      case SessionKeys_open lib keys confirm_ct of
        (Inl e, keys') \<Rightarrow> Inl DowngradeDetected
      | (Inr opened, keys') \<Rightarrow>
          if opened \<noteq> FALLBACK_CONFIRM then Inl DowngradeDetected else Inr keys'))"

definition fallback_respond ::
  "crypto_lib \<Rightarrow> bytes \<Rightarrow> bytes \<Rightarrow> bytes \<Rightarrow> FallbackError + (SessionKeys \<times> bytes)" where
  "fallback_respond lib nonce psk hello =
     (if length hello \<noteq> FALLBACK_NONCE_LEN then Inl Malformed
      else let client_nonce = hello; server_nonce = nonce in
      rbind (map_err FallbackError_from
        (derive_fallback_session lib psk client_nonce server_nonce False)) (\<lambda>keys.
      case SessionKeys_seal lib keys FALLBACK_CONFIRM of
        (Inl e, keys') \<Rightarrow> Inl (FallbackError_from e)
      | (Inr confirm_ct, keys') \<Rightarrow> Inr (keys', server_nonce @ confirm_ct)))"

section \<open>Correctness\<close>

lemmas fallback_defs = FallbackInitiator_begin_def FallbackInitiator_finish_def fallback_respond_def
  derive_fallback_session_def FALLBACK_NONCE_LEN_def Let_def

lemma length_FALLBACK_CONFIRM: "length FALLBACK_CONFIRM < 2 ^ 36 - 31"
  by (simp add: FALLBACK_CONFIRM_def)

lemma fallback_sessions:
  assumes "crypto_laws lib"
  obtains i r ct where "derive_fallback lib psk cn sn True = Inr i"
    "derive_fallback lib psk cn sn False = Inr r" "fresh_mirror i r"
    "SessionKeys_seal lib r FALLBACK_CONFIRM =
       (Inr ct, r\<lparr>tx := (tx r)\<lparr>dir_counter := 1\<rparr>\<rparr>)" "length ct = length FALLBACK_CONFIRM + 16"
proof -
  from assms have laws: "aead_laws lib" "hkdf_laws lib" by (simp_all add: crypto_laws_def)
  from derive_fallback_mirror [OF laws(2), of psk cn sn] obtain i r
    where k: "derive_fallback lib psk cn sn True = Inr i" "derive_fallback lib psk cn sn False = Inr r"
      "fresh_mirror i r" by blast
  then have "length (dir_key (tx r)) = 32" "dir_counter (tx r) = 0" by (auto simp: fresh_mirror_def)
  with seal_succeeds [OF laws(1), of r FALLBACK_CONFIRM] length_FALLBACK_CONFIRM obtain ct where
    "SessionKeys_seal lib r FALLBACK_CONFIRM = (Inr ct, r\<lparr>tx := (tx r)\<lparr>dir_counter := 1\<rparr>\<rparr>)"
    "length ct = length FALLBACK_CONFIRM + 16" by auto
  with k show thesis by (rule that)
qed

lemma fallback_respond_prefix:
  "fallback_respond lib sn psk hello = Inr (ks, fin) \<Longrightarrow> \<exists>ct. fin = sn @ ct"
  by (auto simp: fallback_defs rbind_def map_err_def split: prod.split_asm sum.split_asm if_split_asm)

lemma fallback_respond_length:
  assumes "crypto_laws lib" and "fallback_respond lib sn psk hello = Inr (ks, fin)"
  shows "length fin = length sn + length FALLBACK_CONFIRM + 16"
proof -
  obtain i r ct where "derive_fallback lib psk hello sn False = Inr r"
    "SessionKeys_seal lib r FALLBACK_CONFIRM = (Inr ct, r\<lparr>tx := (tx r)\<lparr>dir_counter := 1\<rparr>\<rparr>)"
    "length ct = length FALLBACK_CONFIRM + 16"
    using assms(1) by (rule fallback_sessions)
  with assms(2) show ?thesis by (auto simp: fallback_defs split: if_split_asm)
qed

lemma fallback_completes:
  assumes "crypto_laws lib" and "length cn = 16" and "length sn = 16"
  shows "\<exists>st ks fin kc. FallbackInitiator_begin cn psk = (st, cn) \<and>
    fallback_respond lib sn psk cn = Inr (ks, fin) \<and>
    FallbackInitiator_finish lib st fin = Inr kc \<and>
    in_sync lib kc ks \<and> in_sync lib ks kc \<and>
    dir_counter (tx kc) = 0 \<and> dir_counter (tx ks) = 1"
proof -
  from assms(1) have laws: "aead_laws lib" by (simp add: crypto_laws_def)
  obtain i r ct where k: "derive_fallback lib psk cn sn True = Inr i"
    "derive_fallback lib psk cn sn False = Inr r" "fresh_mirror i r" and
    s: "SessionKeys_seal lib r FALLBACK_CONFIRM = (Inr ct, r\<lparr>tx := (tx r)\<lparr>dir_counter := 1\<rparr>\<rparr>)"
      "length ct = length FALLBACK_CONFIRM + 16"
    using assms(1) by (rule fallback_sessions)
  let ?r' = "r\<lparr>tx := (tx r)\<lparr>dir_counter := 1\<rparr>\<rparr>"
  from fresh_mirror_sync [OF laws k(3)] have "in_sync lib r i" by simp
  from sess.delivers [OF this s(1)] obtain kc
    where o: "SessionKeys_open lib i ct = (Inr FALLBACK_CONFIRM, kc)" "in_sync lib ?r' kc" by blast
  then have "in_sync lib kc ?r'" "dir_counter (tx kc) = 0"
    using k(3) laws by (auto simp: SessionKeys_open_Inr_iff fresh_mirror_def in_sync_def)
  moreover have "fallback_respond lib sn psk cn = Inr (?r', sn @ ct)"
    using k(2) s(1) assms(2) by (simp add: fallback_defs)
  moreover have "FallbackInitiator_finish lib \<lparr>fi_psk = psk, fi_client_nonce = cn\<rparr> (sn @ ct) = Inr kc"
    using k(1) o(1) s(2) assms(3) by (simp add: fallback_defs bslice_def FALLBACK_CONFIRM_def)
  ultimately show ?thesis using o(2) by (simp add: FallbackInitiator_begin_def)
qed

text \<open>C23. Downgrade detection: an initiator accepts a FallbackFinished exactly when it is what a
  responder holding the same key answers for some server nonce; every other message longer than
  a nonce is reported as a downgrade, and shorter ones as malformed.\<close>

theorem fallback_finish_decides:
  assumes "crypto_laws lib" and "length cn = 16"
  shows "(case FallbackInitiator_finish lib \<lparr>fi_psk = psk, fi_client_nonce = cn\<rparr> fin of
      Inr kc \<Rightarrow> \<exists>sn ks. length sn = 16 \<and> fallback_respond lib sn psk cn = Inr (ks, fin) \<and>
        in_sync lib kc ks \<and> in_sync lib ks kc
    | Inl Malformed \<Rightarrow> length fin \<le> 16
    | Inl FallbackCrypto \<Rightarrow> False
    | Inl DowngradeDetected \<Rightarrow> 16 < length fin \<and>
        (\<forall>sn ks. length sn = 16 \<longrightarrow> fallback_respond lib sn psk cn \<noteq> Inr (ks, fin)))"
proof (cases "length fin \<le> 16")
  case True
  then show ?thesis by (simp add: fallback_defs)
next
  case False
  from assms(1) have laws: "aead_laws lib" by (simp add: crypto_laws_def)
  define sn where "sn = bslice 0 16 fin"
  have fin: "fin = sn @ drop 16 fin" and sn: "length sn = 16" using False by (simp_all add: sn_def bslice_def)
  obtain i r ct where k: "derive_fallback lib psk cn sn True = Inr i"
    "derive_fallback lib psk cn sn False = Inr r" "fresh_mirror i r" and
    s: "SessionKeys_seal lib r FALLBACK_CONFIRM = (Inr ct, r\<lparr>tx := (tx r)\<lparr>dir_counter := 1\<rparr>\<rparr>)"
    using assms(1) by (rule fallback_sessions)
  let ?r' = "r\<lparr>tx := (tx r)\<lparr>dir_counter := 1\<rparr>\<rparr>"
  have resp: "fallback_respond lib sn psk cn = Inr (?r', sn @ ct)"
    using k(2) s assms(2) by (simp add: fallback_defs)
  have fresh: "in_sync lib r i" using fresh_mirror_sync [OF laws k(3)] by simp
  have finish: "FallbackInitiator_finish lib \<lparr>fi_psk = psk, fi_client_nonce = cn\<rparr> fin =
      (case SessionKeys_open lib i (drop 16 fin) of (Inl e, k') \<Rightarrow> Inl DowngradeDetected
       | (Inr p, k') \<Rightarrow> if p \<noteq> FALLBACK_CONFIRM then Inl DowngradeDetected else Inr k')"
    using False k(1) by (simp add: fallback_defs sn_def)
  show ?thesis
  proof (cases "drop 16 fin = ct")
    case True
    from sess.delivers [OF fresh s] obtain kc
      where o: "SessionKeys_open lib i ct = (Inr FALLBACK_CONFIRM, kc)" "in_sync lib ?r' kc" by blast
    then have "in_sync lib kc ?r'"
      using k(3) laws by (auto simp: SessionKeys_open_Inr_iff fresh_mirror_def in_sync_def)
    with o True finish resp fin sn show ?thesis by auto
  next
    case ne: False
    have "FallbackInitiator_finish lib \<lparr>fi_psk = psk, fi_client_nonce = cn\<rparr> fin = Inl DowngradeDetected"
      using finish sess.authentic [OF fresh, of "drop 16 fin" FALLBACK_CONFIRM] s ne
      by (auto split: prod.splits sum.splits)
    moreover have "fallback_respond lib sn' psk cn \<noteq> Inr (ks, fin)" if "length sn' = 16" for sn' ks
    proof
      assume r: "fallback_respond lib sn' psk cn = Inr (ks, fin)"
      then obtain ct' where "fin = sn' @ ct'" by (blast dest: fallback_respond_prefix)
      with that fin sn have "sn' = sn" "ct' = drop 16 fin" by (metis append_eq_append_conv)+
      with r resp fin ne show False by auto
    qed
    ultimately show ?thesis using False by simp
  qed
qed

theorem fallback_finish_decides_witness:
  "length (replicate 16 (5 :: u8)) = 16 \<and>
   FallbackInitiator_finish toy_lib \<lparr>fi_psk = replicate 32 9, fi_client_nonce = replicate 16 5\<rparr>
     (replicate 20 1) \<noteq> Inl Malformed"
  using fallback_finish_decides [OF toy_crypto_laws, of "replicate 16 5" "replicate 20 1" "replicate 32 9"]
  by auto

end
