(* ===== verification/Runtime_Config.thy ===== *)
theory Runtime_Config
  imports Rust_Text Psk_Fallback
begin

text \<open>
  Late-binding configuration of \<open>src/crypto/mod.rs\<close>: the policy and identity readers, hex
  decoding, the reloadable runtime configuration, and the two local signals of the fallback
  decision. The process environment and the two files are an argument, \<open>sources\<close>: a variable or
  a file that is absent, unreadable or not Unicode is \<open>None\<close>. The identity tool
  \<open>src/bin/syntriass-identity.rs\<close> prints the hex that the readers accept.
\<close>

unbundle bit_operations_syntax

record sources =
  env_var :: "string \<Rightarrow> rstr option"
  policy_toml :: "rstr option"
  identity_toml :: "rstr option"

section \<open>Policy\<close>

definition unquote :: "rstr \<Rightarrow> rstr" where
  "unquote value = trim (trim_matches 39 (trim_matches 34 (trim value)))"

text \<open>The loop of \<open>parse_policy_file\<close> over the lines.\<close>

fun parse_policy_lines :: "rstr list \<Rightarrow> string + rstr option" where
  "parse_policy_lines [] = Inr None"
| "parse_policy_lines (raw # rest) =
     (let line = trim raw in
      if line = [] \<or> hd line = 35 then parse_policy_lines rest
      else case split_once 61 line of
        None \<Rightarrow> Inl ''malformed SYNTRIASS policy line''
      | Some (key, value) \<Rightarrow>
          if eq_ignore_ascii_case (trim key) (lit ''suite'') then Inr (Some (unquote value))
          else parse_policy_lines rest)"

definition parse_policy_file :: "rstr \<Rightarrow> string + rstr option" where
  "parse_policy_file contents = parse_policy_lines (str_lines contents)"

definition parse_suite_token :: "rstr \<Rightarrow> string + CipherSuite" where
  "parse_suite_token tok =
     (let t = to_ascii_lowercase (trim tok) in
      if t \<in> {lit ''0x01'', lit ''1'', lit ''768'', lit ''nist768'', lit ''niststandard768''}
      then Inr NistStandard768
      else if t \<in> {lit ''0x02'', lit ''2'', lit ''1024'', lit ''nist1024'', lit ''niststandard1024''}
      then Inr NistStandard1024
      else Inl ''unrecognized SYNTRIASS suite policy value'')"

definition read_policy_from_sources :: "sources \<Rightarrow> string + CipherSuite" where
  "read_policy_from_sources src =
     (case env_var src ''SYNTRIASS_SUITE'' of
        Some val \<Rightarrow> parse_suite_token (trim val)
      | None \<Rightarrow>
          (case policy_toml src of
             Some contents \<Rightarrow>
               rbind (parse_policy_file contents) (\<lambda>r.
                 case r of Some tok \<Rightarrow> parse_suite_token tok | None \<Rightarrow> Inr NistStandard768)
           | None \<Rightarrow> Inr NistStandard768))"

section \<open>Hexadecimal\<close>

text \<open>\<open>hex_nibble\<close> on the bytes \<open>b'0'\<close>, \<open>b'9'\<close>, \<open>b'a'\<close>, \<open>b'f'\<close>, \<open>b'A'\<close>, \<open>b'F'\<close>
  (48, 57, 97, 102, 65, 70).\<close>

definition hex_nibble :: "u8 \<Rightarrow> u8 option" where
  "hex_nibble b =
     (if 48 \<le> b \<and> b \<le> 57 then Some (b - 48)
      else if 97 \<le> b \<and> b \<le> 102 then Some (b - 97 + 10)
      else if 65 \<le> b \<and> b \<le> 70 then Some (b - 65 + 10)
      else None)"

text \<open>The loop over \<open>chunks_exact(2)\<close>.\<close>

fun decode_hex_chunks :: "bytes \<Rightarrow> CryptoError + bytes" where
  "decode_hex_chunks (a # b # rest) =
     rbind (ok_or BadIdentityConfig (hex_nibble a)) (\<lambda>high.
     rbind (ok_or BadIdentityConfig (hex_nibble b)) (\<lambda>low.
     rbind (decode_hex_chunks rest) (\<lambda>out.
     Inr ((push_bit 4 high OR low) # out))))"
| "decode_hex_chunks _ = Inr []"

definition decode_hex_vec :: "rstr \<Rightarrow> nat \<Rightarrow> CryptoError + bytes" where
  "decode_hex_vec token expected_len =
     (let compact = filter (\<lambda>c. \<not> is_ascii_whitespace c) token;
          hex = (case strip_prefix (lit ''0x'') compact of
                   Some s \<Rightarrow> s
                 | None \<Rightarrow> (case strip_prefix (lit ''0X'') compact of Some s \<Rightarrow> s | None \<Rightarrow> compact))
      in if length (as_bytes hex) \<noteq> expected_len * 2 then Inl BadIdentityConfig
         else decode_hex_chunks (as_bytes hex))"

definition decode_hex_exact :: "nat \<Rightarrow> rstr \<Rightarrow> CryptoError + bytes" where
  "decode_hex_exact n token = decode_hex_vec token n"

text \<open>\<open>hex\<close> of the identity tool: two lower-case digits per byte (\<open>{b:02x}\<close>).\<close>

definition hex_digit :: "nat \<Rightarrow> nat" where
  "hex_digit n = (if n < 10 then 48 + n else 87 + n)"

fun hex :: "bytes \<Rightarrow> rstr" where
  "hex [] = []"
| "hex (b # bs) = hex_digit (unat b div 16) # hex_digit (unat b mod 16) # hex bs"

section \<open>Identity configuration\<close>

fun parse_policy_value_lines :: "rstr list \<Rightarrow> rstr \<Rightarrow> rstr option" where
  "parse_policy_value_lines [] wanted_key = None"
| "parse_policy_value_lines (raw # rest) wanted_key =
     (let line = trim raw in
      if line = [] \<or> hd line = 35 then parse_policy_value_lines rest wanted_key
      else case split_once 61 line of
        None \<Rightarrow> None
      | Some (key, value) \<Rightarrow>
          if eq_ignore_ascii_case (trim key) wanted_key then Some (unquote value)
          else parse_policy_value_lines rest wanted_key)"

definition parse_policy_value :: "rstr \<Rightarrow> rstr \<Rightarrow> rstr option" where
  "parse_policy_value contents wanted_key = parse_policy_value_lines (str_lines contents) wanted_key"

definition read_identity_hex_vec ::
  "sources \<Rightarrow> string \<Rightarrow> string \<Rightarrow> rstr option \<Rightarrow> nat \<Rightarrow> CryptoError + bytes" where
  "read_identity_hex_vec src env_key file_key file expected_len =
     rbind (ok_or BadIdentityConfig
       (case env_var src env_key of
          Some v \<Rightarrow> Some v
        | None \<Rightarrow> Option.bind file (\<lambda>contents. parse_policy_value contents (lit file_key))))
     (\<lambda>token. decode_hex_vec token expected_len)"

definition read_identity_hex ::
  "sources \<Rightarrow> nat \<Rightarrow> string \<Rightarrow> string \<Rightarrow> rstr option \<Rightarrow> CryptoError + bytes" where
  "read_identity_hex src n env_key file_key file =
     rbind (ok_or BadIdentityConfig
       (case env_var src env_key of
          Some v \<Rightarrow> Some v
        | None \<Rightarrow> Option.bind file (\<lambda>contents. parse_policy_value contents (lit file_key))))
     (\<lambda>token. decode_hex_exact n token)"

record CachedIdentityConfig =
  cic_own_ed25519_seed :: bytes
  cic_own_mldsa65_seed :: bytes
  cic_peer_ed25519_public :: bytes
  cic_peer_mldsa65_public :: bytes

definition read_identity_config_from_sources :: "sources \<Rightarrow> CryptoError + CachedIdentityConfig" where
  "read_identity_config_from_sources src =
     (let file = identity_toml src in
      rbind (read_identity_hex src ED25519_SEED_LEN
        ''SYNTRIASS_ED25519_SEED_HEX'' ''ed25519_seed'' file) (\<lambda>own_ed_seed.
      rbind (read_identity_hex src MLDSA65_SEED_LEN
        ''SYNTRIASS_MLDSA65_SEED_HEX'' ''mldsa65_seed'' file) (\<lambda>own_ml_seed.
      rbind (read_identity_hex src ED25519_PUBLIC_LEN
        ''SYNTRIASS_PEER_ED25519_PUB_HEX'' ''peer_ed25519_public'' file) (\<lambda>peer_ed_public.
      rbind (read_identity_hex_vec src
        ''SYNTRIASS_PEER_MLDSA65_PUB_HEX'' ''peer_mldsa65_public'' file MLDSA65_PUBLIC_LEN) (\<lambda>peer_ml_public.
      Inr \<lparr>cic_own_ed25519_seed = own_ed_seed, cic_own_mldsa65_seed = own_ml_seed,
           cic_peer_ed25519_public = peer_ed_public, cic_peer_mldsa65_public = peer_ml_public\<rparr>)))))"

definition to_material :: "crypto_lib \<Rightarrow> CachedIdentityConfig \<Rightarrow> CryptoError + IdentityMaterial" where
  "to_material lib self =
     IdentityMaterial_from_bytes lib (cic_own_ed25519_seed self) (cic_own_mldsa65_seed self)
       (cic_peer_ed25519_public self) (cic_peer_mldsa65_public self)"

section \<open>Runtime configuration\<close>

record RuntimeConfig =
  rc_policy :: "string + CipherSuite"
  rc_identity :: "CryptoError + IdentityMaterial"

datatype RuntimeConfigError = Poisoned

text \<open>The \<open>RwLock<RuntimeConfig>\<close>: its value, and whether a panicking writer poisoned it.\<close>

record config_lock =
  lock_poisoned :: bool
  lock_value :: RuntimeConfig

definition load_runtime_config :: "crypto_lib \<Rightarrow> sources \<Rightarrow> RuntimeConfig" where
  "load_runtime_config lib src =
     \<lparr>rc_policy = read_policy_from_sources src,
      rc_identity = rbind (read_identity_config_from_sources src) (to_material lib)\<rparr>"

definition reload_runtime_config ::
  "crypto_lib \<Rightarrow> sources \<Rightarrow> config_lock \<Rightarrow> (RuntimeConfigError + unit) \<times> config_lock" where
  "reload_runtime_config lib src l =
     (let next = load_runtime_config lib src in
      if lock_poisoned l then (Inl Poisoned, l) else (Inr (), l\<lparr>lock_value := next\<rparr>))"

definition resolve_policy :: "config_lock \<Rightarrow> string + CipherSuite" where
  "resolve_policy l =
     (if lock_poisoned l then Inl ''SYNTRIASS runtime config lock poisoned''
      else rc_policy (lock_value l))"

definition resolve_identity :: "config_lock \<Rightarrow> CryptoError + IdentityMaterial" where
  "resolve_identity l =
     (if lock_poisoned l then Inl BadIdentityConfig else rc_identity (lock_value l))"

definition resolve_fallback_psk :: "sources \<Rightarrow> bytes option" where
  "resolve_fallback_psk src =
     (case env_var src ''SYNTRIASS_FALLBACK_PSK_HEX'' of
        None \<Rightarrow> None
      | Some token \<Rightarrow>
          (case decode_hex_exact FALLBACK_PSK_LEN token of Inl e \<Rightarrow> None | Inr psk \<Rightarrow> Some psk))"

definition pqc_control_available :: "sources \<Rightarrow> bool" where
  "pqc_control_available src =
     (case env_var src ''SYNTRIASS_PQC_DEGRADED'' of
        Some v \<Rightarrow>
          (let v = to_ascii_lowercase (trim v)
           in \<not> (v = lit ''1'' \<or> v = lit ''true'' \<or> v = lit ''yes'' \<or> v = lit ''on''))
      | None \<Rightarrow> True)"

section \<open>The identity tool\<close>

text \<open>\<open>decode_hex_exact\<close> of \<open>src/bin/syntriass-identity.rs\<close>: the same decoder with messages as
  errors.\<close>

definition SEED_LEN :: nat where "SEED_LEN = 32"

definition tool_hex_nibble :: "u8 \<Rightarrow> u8 option" where
  "tool_hex_nibble b =
     (if 48 \<le> b \<and> b \<le> 57 then Some (b - 48)
      else if 97 \<le> b \<and> b \<le> 102 then Some (b - 97 + 10)
      else if 65 \<le> b \<and> b \<le> 70 then Some (b - 65 + 10)
      else None)"

fun tool_hex_chunks :: "bytes \<Rightarrow> string + bytes" where
  "tool_hex_chunks (a # b # rest) =
     rbind (ok_or ''non-hex digit'' (tool_hex_nibble a)) (\<lambda>high.
     rbind (ok_or ''non-hex digit'' (tool_hex_nibble b)) (\<lambda>low.
     rbind (tool_hex_chunks rest) (\<lambda>out.
     Inr ((push_bit 4 high OR low) # out))))"
| "tool_hex_chunks _ = Inr []"

definition tool_decode_hex_exact :: "nat \<Rightarrow> rstr \<Rightarrow> string + bytes" where
  "tool_decode_hex_exact n token =
     (let compact = filter (\<lambda>c. \<not> is_ascii_whitespace c) token;
          hex = (case strip_prefix (lit ''0x'') compact of
                   Some s \<Rightarrow> s
                 | None \<Rightarrow> (case strip_prefix (lit ''0X'') compact of Some s \<Rightarrow> s | None \<Rightarrow> compact))
      in if length (as_bytes hex) \<noteq> n * 2 then Inl ''wrong length''
         else tool_hex_chunks (as_bytes hex))"

text \<open>\<open>main\<close>: the exit status and the lines printed to standard output (left, an exit with
  status 2 and the message on standard error). A seed of 32 bytes is always accepted by
  \<open>Seed::try_from\<close>; the \<open>expect\<close> there is the panic \<open>None\<close>.\<close>

definition tool_main :: "crypto_lib \<Rightarrow> rstr list \<Rightarrow> (string + (rstr \<times> rstr)) option" where
  "tool_main lib args =
     (if length args \<noteq> 3
      then Some (Inl ''usage: syntriass-identity <ed25519-seed-hex> <mldsa65-seed-hex>'')
      else case tool_decode_hex_exact SEED_LEN (args ! 1) of
        Inl msg \<Rightarrow> Some (Inl (''invalid ed25519 seed: '' @ msg))
      | Inr ed_seed \<Rightarrow>
          (case tool_decode_hex_exact SEED_LEN (args ! 2) of
             Inl msg \<Rightarrow> Some (Inl (''invalid mldsa65 seed: '' @ msg))
           | Inr ml_seed \<Rightarrow>
               (case ml_seed_try_from lib ml_seed of
                  None \<Rightarrow> None
                | Some seed \<Rightarrow>
                    Some (Inr (lit ''ed25519_public='' @ hex (ed_public lib (ed_from_bytes lib ed_seed)),
                               lit ''mldsa65_public='' @ hex (ml_public lib (ml_from_seed lib seed)))))))"

section \<open>Hex round trip\<close>

lemma hex_digit_range: "n < 16 \<Longrightarrow> hex_digit n \<in> {48..57} \<union> {97..102}"
  by (auto simp: hex_digit_def)

lemma byte_high_nibble: "unat (b :: u8) div 16 < 16"
proof -
  have "unat b < 2 ^ 8" using unsigned_less [of b, where 'a = nat] by simp
  then show ?thesis by simp
qed

lemma set_hex: "set (hex bs) \<subseteq> {48..57} \<union> {97..102}"
proof (induction bs)
  case Nil
  then show ?case by simp
next
  case (Cons b bs)
  from Cons hex_digit_range [OF byte_high_nibble [of b]] hex_digit_range [of "unat b mod 16"]
  show ?case by simp
qed

lemma hex_nibble_digit:
  assumes "n < 16"
  shows "hex_nibble (word_of_nat (hex_digit n)) = Some (word_of_nat n)"
proof -
  consider "n < 10" | "10 \<le> n" by linarith
  then show ?thesis
  proof cases
    case 1
    then have "n \<in> {0, 1, 2, 3, 4, 5, 6, 7, 8, 9}" by auto
    then show ?thesis by (auto simp: hex_digit_def hex_nibble_def)
  next
    case 2
    with assms have "n \<in> {10, 11, 12, 13, 14, 15}" by auto
    then show ?thesis by (auto simp: hex_digit_def hex_nibble_def)
  qed
qed

lemma nibbles_join: "push_bit 4 (word_of_nat (unat b div 16)) OR word_of_nat (unat b mod 16) = (b :: u8)"
proof -
  have "unat b div 16 = unat (drop_bit 4 b)"
    by (simp add: drop_bit_eq_div unat_div_distrib)
  then have "word_of_nat (unat b div 16) = drop_bit 4 b"
    by (simp only: of_nat_unat ucast_id)
  moreover have "unat b mod 16 = unat (take_bit 4 b)"
    by (simp add: take_bit_eq_mod unat_mod_distrib)
  then have "word_of_nat (unat b mod 16) = take_bit 4 b"
    by (simp only: of_nat_unat ucast_id)
  moreover have "push_bit 4 (drop_bit 4 b) OR take_bit 4 b = b"
    by (rule bit_word_eqI) (auto simp: bit_simps)
  ultimately show ?thesis by simp
qed

lemma decode_hex_chunks_hex: "decode_hex_chunks (map word_of_nat (hex bs)) = Inr bs"
proof (induction bs)
  case Nil
  then show ?case by simp
next
  case (Cons b bs)
  then show ?case by (simp add: hex_nibble_digit nibbles_join byte_high_nibble)
qed

lemma length_hex [simp]: "length (hex bs) = 2 * length bs"
  by (induction bs) auto

lemma hex_no_prefix: "strip_prefix (lit ''0x'') (hex bs) = None" "strip_prefix (lit ''0X'') (hex bs) = None"
proof -
  have "strip_prefix [48, c] (hex bs) = None" if "c \<notin> {48..57} \<union> {97..102}" for c
    using that set_hex [of bs] by (cases bs) auto
  then show "strip_prefix (lit ''0x'') (hex bs) = None" "strip_prefix (lit ''0X'') (hex bs) = None"
    by (simp_all add: lit_def of_char_def)
qed

lemma decode_hex_vec_hex: "decode_hex_vec (hex bs) (length bs) = Inr bs"
proof -
  have clean: "filter (\<lambda>c. \<not> is_ascii_whitespace c) (hex bs) = hex bs"
    using set_hex [of bs] by (auto simp: filter_id_conv is_ascii_whitespace_def)
  have "as_bytes (hex bs) = map word_of_nat (hex bs)"
    using set_hex [of bs] by (intro as_bytes_ascii) auto
  with clean show ?thesis
    by (simp add: decode_hex_vec_def hex_no_prefix decode_hex_chunks_hex)
qed

lemma tool_hex_nibble_eq: "tool_hex_nibble = hex_nibble"
  by (rule ext) (simp add: tool_hex_nibble_def hex_nibble_def)

lemma decoded_length: "decode_hex_chunks s = Inr bs \<Longrightarrow> length bs = length s div 2"
  by (induction s arbitrary: bs rule: decode_hex_chunks.induct) (auto simp: result_iff)

lemma decode_hex_vec_length: "decode_hex_vec token n = Inr bs \<Longrightarrow> length bs = n"
  by (auto simp: decode_hex_vec_def Let_def dest!: decoded_length split: option.split_asm if_split_asm)

lemma tool_hex_chunks_iff: "tool_hex_chunks s = Inr r \<longleftrightarrow> decode_hex_chunks s = Inr r"
  by (induction s arbitrary: r rule: tool_hex_chunks.induct) (auto simp: result_iff tool_hex_nibble_eq)

lemma tool_decode_hex_exact_iff: "tool_decode_hex_exact n t = Inr r \<longleftrightarrow> decode_hex_exact n t = Inr r"
  by (simp add: tool_decode_hex_exact_def decode_hex_exact_def decode_hex_vec_def Let_def tool_hex_chunks_iff)

section \<open>Provisioning\<close>

lemma tool_main_Inr:
  assumes "tool_main lib [n, ed, ml] = Some (Inr (l1, l2))"
  obtains es ms seed where "decode_hex_exact 32 ed = Inr es" "decode_hex_exact 32 ml = Inr ms"
    "ml_seed_try_from lib ms = Some seed"
    "l1 = lit ''ed25519_public='' @ hex (ed_public lib (ed_from_bytes lib es))"
    "l2 = lit ''mldsa65_public='' @ hex (ml_public lib (ml_from_seed lib seed))"
  using assms
  by (auto simp: tool_main_def SEED_LEN_def simp flip: tool_decode_hex_exact_iff split: sum.split_asm option.split_asm)

text \<open>A node configured through the environment with the seeds \<open>ed\<close>, \<open>ml\<close> and the peer keys
  \<open>ped\<close>, \<open>pml\<close>.\<close>

definition env_identity :: "sources \<Rightarrow> rstr \<Rightarrow> rstr \<Rightarrow> rstr \<Rightarrow> rstr \<Rightarrow> bool" where
  "env_identity src ed ml ped pml \<longleftrightarrow>
     env_var src ''SYNTRIASS_ED25519_SEED_HEX'' = Some ed \<and>
     env_var src ''SYNTRIASS_MLDSA65_SEED_HEX'' = Some ml \<and>
     env_var src ''SYNTRIASS_PEER_ED25519_PUB_HEX'' = Some ped \<and>
     env_var src ''SYNTRIASS_PEER_MLDSA65_PUB_HEX'' = Some pml"

lemma env_identity_loads:
  assumes "crypto_laws lib" and "env_identity src ed ml (hex (ed_public lib psk)) (hex (ml_public lib pml))"
    and "decode_hex_exact 32 ed = Inr es" "decode_hex_exact 32 ml = Inr ms" "ml_seed_try_from lib ms = Some seed"
  shows "\<exists>i. rc_identity (load_runtime_config lib src) = Inr i \<and> identity_wf lib i \<and>
     own_ed25519_public i = ed_public lib (ed_from_bytes lib es) \<and>
     own_mldsa65_public i = ml_public lib (ml_from_seed lib seed) \<and>
     peer_ed25519_public i = ed_public lib psk \<and> peer_mldsa65_public i = ml_public lib pml"
proof -
  from assms(1) have laws: "ed25519_laws lib" "mldsa65_laws lib" by (simp_all add: crypto_laws_def)
  have pub: "decode_hex_vec (hex (ed_public lib psk)) 32 = Inr (ed_public lib psk)"
    "decode_hex_vec (hex (ml_public lib pml)) 1952 = Inr (ml_public lib pml)"
    using decode_hex_vec_hex [of "ed_public lib psk"] decode_hex_vec_hex [of "ml_public lib pml"]
    by (simp_all add: ed_public_length [OF laws(1)] ml_public_length [OF laws(2)])
  from ed_public_decodes [OF laws(1)] obtain vk where vk: "ed_vk_from_bytes lib (ed_public lib psk) = Some vk" ..
  from ml_public_decodes [OF laws(2)] obtain e where e: "ml_evk_try_from lib (ml_public lib pml) = Some e" ..
  have "read_identity_config_from_sources src = Inr \<lparr>cic_own_ed25519_seed = es, cic_own_mldsa65_seed = ms,
      cic_peer_ed25519_public = ed_public lib psk, cic_peer_mldsa65_public = ml_public lib pml\<rparr>"
    using assms(2-4) pub
    by (simp add: read_identity_config_from_sources_def read_identity_hex_def read_identity_hex_vec_def
        env_identity_def len_defs decode_hex_exact_def)
  then show ?thesis using vk e assms(5)
    by (simp add: load_runtime_config_def to_material_def IdentityMaterial_from_bytes_def Let_def
        identity_wf_def ml_public_length [OF laws(2)] MLDSA65_PUBLIC_LEN_def)
qed

text \<open>C35. Provisioning: two nodes whose environments hold their own hexadecimal seeds, and as
  peer keys what the identity tool printed for the other node's seeds, both load an identity, and
  the two identities pin each other (which is what the handshake needs to complete).\<close>

theorem provisioning_mutual:
  assumes "crypto_laws lib"
    and "tool_main lib [na, eda, mla] =
      Some (Inr (lit ''ed25519_public='' @ peda, lit ''mldsa65_public='' @ pmla))"
    and "tool_main lib [nb, edb, mlb] =
      Some (Inr (lit ''ed25519_public='' @ pedb, lit ''mldsa65_public='' @ pmlb))"
    and "env_identity sa eda mla pedb pmlb" and "env_identity sb edb mlb peda pmla"
  shows "\<exists>a b. rc_identity (load_runtime_config lib sa) = Inr a \<and>
     rc_identity (load_runtime_config lib sb) = Inr b \<and> mutual lib a b"
proof -
  from tool_main_Inr [OF assms(2)] obtain es ms seed where
    a: "decode_hex_exact 32 eda = Inr es" "decode_hex_exact 32 mla = Inr ms" "ml_seed_try_from lib ms = Some seed"
      "peda = hex (ed_public lib (ed_from_bytes lib es))" "pmla = hex (ml_public lib (ml_from_seed lib seed))"
    by (metis same_append_eq)
  from tool_main_Inr [OF assms(3)] obtain es' ms' seed' where
    b: "decode_hex_exact 32 edb = Inr es'" "decode_hex_exact 32 mlb = Inr ms'" "ml_seed_try_from lib ms' = Some seed'"
      "pedb = hex (ed_public lib (ed_from_bytes lib es'))" "pmlb = hex (ml_public lib (ml_from_seed lib seed'))"
    by (metis same_append_eq)
  from env_identity_loads [OF assms(1) assms(4) [unfolded b(4,5)] a(1-3)]
    env_identity_loads [OF assms(1) assms(5) [unfolded a(4,5)] b(1-3)] assms(1)
  show ?thesis by (auto simp: mutual_def pins_def)
qed

lemma toy_tool:
  "tool_main toy_lib [[], hex (replicate 32 a), hex (replicate 32 a)] =
     Some (Inr (lit ''ed25519_public='' @ hex (pad 32 (replicate 32 a)),
                lit ''mldsa65_public='' @ hex (pad 1952 (pad 32 (replicate 32 a)))))"
proof -
  have "tool_decode_hex_exact 32 (hex (replicate 32 a)) = Inr (replicate 32 a)"
    using decode_hex_vec_hex [of "replicate 32 a"]
    by (simp add: tool_decode_hex_exact_iff decode_hex_exact_def)
  then show ?thesis by (simp add: tool_main_def SEED_LEN_def toy_lib_def)
qed

definition toy_sources :: "u8 \<Rightarrow> u8 \<Rightarrow> sources" where
  "toy_sources a b =
     \<lparr>env_var = (\<lambda>k. if k = ''SYNTRIASS_ED25519_SEED_HEX'' \<or> k = ''SYNTRIASS_MLDSA65_SEED_HEX''
         then Some (hex (replicate 32 a))
         else if k = ''SYNTRIASS_PEER_ED25519_PUB_HEX'' then Some (hex (pad 32 (replicate 32 b)))
         else if k = ''SYNTRIASS_PEER_MLDSA65_PUB_HEX'' then Some (hex (pad 1952 (pad 32 (replicate 32 b))))
         else None),
      policy_toml = None, identity_toml = None\<rparr>"

theorem provisioning_mutual_witness:
  "\<exists>a b. rc_identity (load_runtime_config toy_lib (toy_sources 1 2)) = Inr a \<and>
     rc_identity (load_runtime_config toy_lib (toy_sources 2 1)) = Inr b \<and> mutual toy_lib a b"
  by (rule provisioning_mutual [OF toy_crypto_laws toy_tool [of 1] toy_tool [of 2]])
    (simp_all add: env_identity_def toy_sources_def)

section \<open>Policy selection\<close>

text \<open>The names of a suite in a policy.\<close>

definition suite_names :: "CipherSuite \<Rightarrow> rstr set" where
  "suite_names s = (case s of
     NistStandard768 \<Rightarrow> {lit ''0x01'', lit ''1'', lit ''768'', lit ''nist768'', lit ''niststandard768''}
   | NistStandard1024 \<Rightarrow> {lit ''0x02'', lit ''2'', lit ''1024'', lit ''nist1024'', lit ''niststandard1024''})"

lemma parse_suite_token_iff [result_iff]:
  "parse_suite_token t = Inr s \<longleftrightarrow> to_ascii_lowercase (trim t) \<in> suite_names s"
  by (cases s) (auto simp: parse_suite_token_def suite_names_def Let_def lit_def)

text \<open>The policy value a node has: the environment variable, else the \<open>suite\<close> line of the policy
  file; \<open>Inr None\<close> when neither names one.\<close>

definition policy_value :: "sources \<Rightarrow> string + rstr option" where
  "policy_value src = (case env_var src ''SYNTRIASS_SUITE'' of
      Some v \<Rightarrow> Inr (Some v)
    | None \<Rightarrow> (case policy_toml src of None \<Rightarrow> Inr None | Some c \<Rightarrow> parse_policy_file c))"

text \<open>The suite is never guessed: it is selected exactly when the configured policy value
  is, up to case and surrounding blanks, one of that suite's names, or when no value is
  configured at all and the suite is the default. A malformed file or an unknown value selects
  nothing.\<close>

lemma policy_never_guessed:
  "read_policy_from_sources src = Inr s \<longleftrightarrow>
     (\<exists>tok. policy_value src = Inr (Some tok) \<and> to_ascii_lowercase (trim tok) \<in> suite_names s) \<or>
     (policy_value src = Inr None \<and> s = NistStandard768)"
  by (auto simp: read_policy_from_sources_def policy_value_def result_iff rbind_def
      split: option.splits sum.splits)

lemma trim_id: "s = [] \<or> (\<not> is_whitespace (hd s) \<and> \<not> is_whitespace (last s)) \<Longrightarrow> trim s = s"
  unfolding trim_def by (rule strip_both_id)

text \<open>A line that the policy reader skips: blank, a comment, or another key.\<close>

definition skipped_line :: "rstr \<Rightarrow> bool" where
  "skipped_line l \<longleftrightarrow> 10 \<notin> set l \<and> (l = [] \<or> last l \<noteq> 13) \<and>
     (trim l = [] \<or> hd (trim l) = 35 \<or>
      (\<exists>k v. split_once 61 (trim l) = Some (k, v) \<and> \<not> eq_ignore_ascii_case (trim k) (lit ''suite'')))"

lemma parse_policy_lines_skip:
  "\<forall>l \<in> set pre. skipped_line l \<Longrightarrow> parse_policy_lines (pre @ rest) = parse_policy_lines rest"
  by (induction pre) (auto simp: skipped_line_def Let_def)

lemma str_lines_skip:
  "\<forall>l \<in> set pre. skipped_line l \<Longrightarrow>
     str_lines (concat (map (\<lambda>l. l @ [10]) pre) @ rest) = pre @ str_lines rest"
  by (induction pre) (auto simp: skipped_line_def str_lines_Cons)

definition plain_value :: "rstr \<Rightarrow> bool" where
  "plain_value t \<longleftrightarrow> t \<noteq> [] \<and> 10 \<notin> set t \<and>
     (\<forall>c \<in> {hd t, last t}. \<not> is_whitespace c \<and> c \<noteq> 34 \<and> c \<noteq> 39)"

lemma trim_quotes:
  assumes "plain_value t"
  shows "trim_matches 34 (34 # t @ [34]) = t"
proof -
  have "dropWhile (\<lambda>x. x = 34) (t @ [34]) = t @ [34]" "dropWhile (\<lambda>x. x = 34) (rev t) = rev t"
    using assms by (auto simp: plain_value_def dropWhile_eq_self_iff hd_rev)
  then show ?thesis by (simp add: trim_matches_def strip_both_def)
qed

lemma unquote_quoted: "plain_value t \<Longrightarrow> unquote (32 # 34 # t @ [34]) = t"
proof -
  assume t: "plain_value t"
  have ws: "is_whitespace 32" "\<not> is_whitespace 34" by (simp_all add: is_whitespace_def)
  have "trim (32 # 34 # t @ [34]) = 34 # t @ [34]"
    using ws by (simp add: trim_def strip_both_def)
  moreover have "trim_matches 39 t = t" unfolding trim_matches_def
    by (rule strip_both_id) (use t in \<open>auto simp: plain_value_def\<close>)
  moreover have "trim t = t" by (rule trim_id) (use t in \<open>auto simp: plain_value_def\<close>)
  ultimately show ?thesis using trim_quotes [OF t] by (simp add: unquote_def)
qed

lemma suite_line:
  assumes "plain_value t"
  shows "parse_policy_lines ((lit ''suite = '' @ 34 # t @ [34]) # rest) = Inr (Some t)"
proof -
  let ?l = "lit ''suite = '' @ 34 # t @ [34]"
  have l: "?l = lit ''suite '' @ 61 # 32 # 34 # t @ [34]" by (simp add: lit_def)
  have key: "trim (lit ''suite '') = lit ''suite''"
    "eq_ignore_ascii_case (lit ''suite'') (lit ''suite'')" "61 \<notin> set (lit ''suite '')" by code_simp+
  have "trim ?l = ?l" by (rule trim_id) (simp add: lit_def is_whitespace_def)
  moreover have "hd ?l \<noteq> 35" by (simp add: lit_def)
  moreover have "split_once 61 ?l = Some (lit ''suite '', 32 # 34 # t @ [34])"
    unfolding l by (rule split_once_append) (rule key(3))
  ultimately show ?thesis using key unquote_quoted [OF assms] by simp
qed

text \<open>The policy file: after any number of blank lines, comments and lines for other keys,
  the first \<open>suite = "value"\<close> line decides, and nothing after it is read (not even malformed
  lines).\<close>

lemma policy_file_first_line:
  assumes "\<forall>l \<in> set pre. skipped_line l" and "plain_value t"
  shows "parse_policy_file (concat (map (\<lambda>l. l @ [10]) pre) @ lit ''suite = '' @ [34] @ t @ [34, 10] @ rest)
     = Inr (Some t)"
proof -
  let ?l = "lit ''suite = '' @ 34 # t @ [34]"
  have "10 \<notin> set ?l" using assms(2) by (simp add: lit_def plain_value_def)
  then have "str_lines (?l @ 10 # rest) = ?l # str_lines rest" by (intro str_lines_Cons) simp_all
  then have "parse_policy_file (concat (map (\<lambda>l. l @ [10]) pre) @ (?l @ 10 # rest)) = Inr (Some t)"
    by (simp only: parse_policy_file_def str_lines_skip [OF assms(1)] parse_policy_lines_skip [OF assms(1)]
        suite_line [OF assms(2)])
  then show ?thesis by simp
qed

lemma policy_file_example:
  "parse_policy_file (lit ''# policy'' @ [10] @ lit ''suite = '' @ [34] @ lit ''nist1024'' @ [34, 10] @ lit ''junk'')
     = Inr (Some (lit ''nist1024''))"
proof -
  have "skipped_line (lit ''# policy'')" "plain_value (lit ''nist1024'')"
    by (simp_all add: skipped_line_def plain_value_def lit_def trim_def strip_both_def is_whitespace_def)
  then show ?thesis
    using policy_file_first_line [of "[lit ''# policy'']" "lit ''nist1024''" "lit ''junk''"] by simp
qed

section \<open>Loading and reloading\<close>

lemma loaded_identity_wf:
  "rc_identity (load_runtime_config lib src) = Inr i \<Longrightarrow> identity_wf lib i"
  by (auto simp: load_runtime_config_def to_material_def result_iff dest: from_bytes_wf)

end
