(* ===== verification/Config_Readers.thy ===== *)
theory Config_Readers
  imports Runtime_Config
begin

text \<open>
  The readers of configuration values against reference definitions: the two hexadecimal decoders
  (\<open>src/crypto/mod.rs\<close> and \<open>src/bin/syntriass-identity.rs\<close>) against the printer of the identity tool,
  and the two readers of \<open>key = value\<close> files against each other.
\<close>

section \<open>Hexadecimal digits\<close>

text \<open>The digits of a token: blanks and one prefix removed.\<close>

definition hex_payload :: "rstr \<Rightarrow> rstr" where
  "hex_payload token =
     (let compact = filter (\<lambda>c. \<not> is_ascii_whitespace c) token in
      case strip_prefix (lit ''0x'') compact of
        Some s \<Rightarrow> s
      | None \<Rightarrow> (case strip_prefix (lit ''0X'') compact of Some s \<Rightarrow> s | None \<Rightarrow> compact))"

definition lower_byte :: "u8 \<Rightarrow> u8" where
  "lower_byte b = (if 65 \<le> b \<and> b \<le> 90 then b + 32 else b)"

lemma u8_exhaust: "list_all P (map word_of_nat [0..<256]) \<Longrightarrow> P (b :: u8)"
proof -
  assume all: "list_all P (map word_of_nat [0..<256])"
  have "unat b \<in> set [0..<256]" using unsigned_less [of b, where 'a = nat] by simp
  then have "word_of_nat (unat b) \<in> set (map word_of_nat [0..<256] :: u8 list)" unfolding set_map by (rule imageI)
  then show ?thesis using all by (auto simp: list_all_iff)
qed

lemma hex_nibble_table:
  "case hex_nibble b of
     Some h \<Rightarrow> h < 16 \<and> lower_byte b = word_of_nat (hex_digit (unat h)) \<and> b < 128
   | None \<Rightarrow> hex_nibble (lower_byte b) = None"
  by (rule u8_exhaust) code_simp

lemma hex_nibble_some:
  assumes "hex_nibble b = Some h"
  shows "h < 16 \<and> lower_byte b = word_of_nat (hex_digit (unat h)) \<and> b < 128"
  using hex_nibble_table [of b] assms by simp

lemma hex_nibble_lower: "hex_nibble (lower_byte b) = hex_nibble b"
proof (cases "hex_nibble b")
  case (Some h)
  then have h: "unat h < 16" "lower_byte b = word_of_nat (hex_digit (unat h))"
    using hex_nibble_some [OF Some] by (simp_all add: word_less_nat_alt)
  then show ?thesis using Some hex_nibble_digit [OF h(1)] by simp
qed (use hex_nibble_table [of b] in simp)

lemma hex_nibble_iff:
  "hex_nibble b = Some h \<longleftrightarrow> h < 16 \<and> lower_byte b = word_of_nat (hex_digit (unat h))"
proof
  assume a: "h < 16 \<and> lower_byte b = word_of_nat (hex_digit (unat h))"
  then have "unat h < 16" by (simp add: word_less_nat_alt)
  from hex_nibble_digit [OF this] a show "hex_nibble b = Some h" by (simp flip: hex_nibble_lower [of b])
qed (use hex_nibble_some in blast)

section \<open>The decoder and the printer\<close>

lemma join_nibbles:
  assumes "h < 16" "l < (16 :: u8)"
  shows "unat (push_bit 4 h OR l) div 16 = unat h \<and> unat (push_bit 4 h OR l) mod 16 = unat l"
proof -
  have d: "unat h < 16" "unat l < 16" using assms by (simp_all add: word_less_nat_alt)
  define b :: u8 where "b = word_of_nat (16 * unat h + unat l)"
  have u: "unat b = 16 * unat h + unat l" using d by (simp only: b_def unat_of_nat) simp
  have "push_bit 4 h OR l = b" using nibbles_join [of b] u d by simp
  then show ?thesis using u d by simp
qed

lemma decode_hex_chunks_iff:
  "even (length s) \<Longrightarrow> decode_hex_chunks s = Inr bs \<longleftrightarrow> map lower_byte s = map word_of_nat (hex bs)"
proof (induction s arbitrary: bs rule: decode_hex_chunks.induct)
  case (1 a b rest)
  show ?case
  proof
    assume "decode_hex_chunks (a # b # rest) = Inr bs"
    then obtain h l out where h: "hex_nibble a = Some h" "hex_nibble b = Some l"
      "decode_hex_chunks rest = Inr out" "bs = (push_bit 4 h OR l) # out"
      by (auto simp: result_iff)
    then show "map lower_byte (a # b # rest) = map word_of_nat (hex bs)"
      using 1(1) [of out] 1(2) hex_nibble_some [of a h] hex_nibble_some [of b l] join_nibbles [of h l] by auto
  next
    assume m: "map lower_byte (a # b # rest) = map word_of_nat (hex bs)"
    then obtain x out where bs: "bs = x # out" by (cases bs) auto
    have x: "unat x div 16 < 16" "unat x mod 16 < 16" using byte_high_nibble by simp_all
    have "hex_nibble a = Some (word_of_nat (unat x div 16))" "hex_nibble b = Some (word_of_nat (unat x mod 16))"
      using m bs hex_nibble_digit [OF x(1)] hex_nibble_digit [OF x(2)]
      by (simp_all flip: hex_nibble_lower [of a] hex_nibble_lower [of b])
    moreover have "decode_hex_chunks rest = Inr out" using m bs 1 by simp
    ultimately show "decode_hex_chunks (a # b # rest) = Inr bs"
      using bs nibbles_join [of x] by (simp add: ok_or_def rbind_def)
  qed
next
  case "2_1"
  then show ?case by (cases bs) auto
qed auto

lemma utf8_last_high: "0x80 \<le> c \<Longrightarrow> \<exists>b \<in> set (utf8_char c). 128 \<le> b"
proof -
  assume "0x80 \<le> c"
  then have "word_of_nat (0x80 + c mod 64) \<in> set (utf8_char c)" by (simp add: utf8_char_def)
  moreover have "c mod 64 < 64" by simp
  then have "unat (word_of_nat (0x80 + c mod 64) :: u8) = 0x80 + c mod 64" by (simp only: unat_of_nat) simp
  then have "(128 :: u8) \<le> word_of_nat (0x80 + c mod 64)" by (simp add: word_le_nat_alt)
  ultimately show ?thesis by blast
qed

lemma lower_byte_ascii:
  "c < 0x80 \<Longrightarrow> lower_byte (word_of_nat c) = word_of_nat (if 65 \<le> c \<and> c \<le> 90 then c + 32 else c)"
  by (auto simp: lower_byte_def word_le_nat_alt unat_of_nat)

lemma decoded_high: "decode_hex_chunks s = Inr bs \<Longrightarrow> even (length s) \<Longrightarrow> \<forall>b \<in> set s. b < 128"
  by (induction s arbitrary: bs rule: decode_hex_chunks.induct) (auto simp: result_iff dest!: hex_nibble_some)

lemma word_of_nat_ascii_inj:
  "\<lbrakk>map word_of_nat xs = (map word_of_nat ys :: bytes); \<forall>x \<in> set xs. x < 256; \<forall>y \<in> set ys. y < 256\<rbrakk> \<Longrightarrow> xs = ys"
  by (rule map_inj_on [where f = "word_of_nat :: nat \<Rightarrow> u8"])
    (auto intro!: inj_onI simp: word_of_nat_eq_iff take_bit_nat_eq_self)

lemma length_lowercase [simp]: "length (to_ascii_lowercase s) = length s"
  by (simp add: to_ascii_lowercase_def)

lemma hex_ascii: "\<forall>c \<in> set (hex bs). c < 0x80"
  using set_hex [of bs] by auto

lemma decode_reference:
  "length (as_bytes s) = 2 * n \<and> decode_hex_chunks (as_bytes s) = Inr bs \<longleftrightarrow>
   length bs = n \<and> to_ascii_lowercase s = hex bs"
proof
  assume a: "length (as_bytes s) = 2 * n \<and> decode_hex_chunks (as_bytes s) = Inr bs"
  then have e: "even (length (as_bytes s))" by simp
  have "c < 0x80" if "c \<in> set s" for c
  proof (rule ccontr)
    assume "\<not> c < 0x80"
    with that utf8_last_high [of c] have "\<exists>b \<in> set (as_bytes s). 128 \<le> b" by (auto simp: as_bytes_def)
    with decoded_high [OF conjunct2 [OF a] e] show False by (auto simp: linorder_not_less)
  qed
  then have s: "as_bytes s = map word_of_nat s" "\<forall>c \<in> set s. c < 0x80" by (simp_all add: as_bytes_ascii)
  have "map lower_byte (map word_of_nat s) = (map word_of_nat (to_ascii_lowercase s) :: bytes)"
    using s(2) by (simp add: to_ascii_lowercase_def lower_byte_ascii)
  then have "map word_of_nat (to_ascii_lowercase s) = (map word_of_nat (hex bs) :: bytes)"
    using a e s(1) decode_hex_chunks_iff by metis
  then have "to_ascii_lowercase s = hex bs"
    by (rule word_of_nat_ascii_inj) (use s(2) hex_ascii [of bs] in \<open>fastforce simp: to_ascii_lowercase_def\<close>)+
  moreover from arg_cong [OF this, of length] have "length s = 2 * length bs" by simp
  ultimately show "length bs = n \<and> to_ascii_lowercase s = hex bs" using a s(1) by simp
next
  assume a: "length bs = n \<and> to_ascii_lowercase s = hex bs"
  then have len: "length s = 2 * n" using length_lowercase [of s] length_hex [of bs] by simp
  have "c < 0x80" if "c \<in> set s" for c
  proof -
    have "(if 65 \<le> c \<and> c \<le> 90 then c + 32 else c) \<in> set (hex bs)"
      using that a by (auto simp: to_ascii_lowercase_def simp flip: a [THEN conjunct2])
    then show ?thesis using hex_ascii [of bs] by (auto split: if_split_asm)
  qed
  then have s: "as_bytes s = map word_of_nat s" "\<forall>c \<in> set s. c < 0x80" by (simp_all add: as_bytes_ascii)
  have "map lower_byte (as_bytes s) = map word_of_nat (to_ascii_lowercase s)"
    using s by (simp add: to_ascii_lowercase_def lower_byte_ascii)
  then show "length (as_bytes s) = 2 * n \<and> decode_hex_chunks (as_bytes s) = Inr bs"
    using a s(1) len decode_hex_chunks_iff [of "as_bytes s" bs] by simp
qed

lemma parse_lines_agree:
  "parse_policy_value_lines ls (lit ''suite'') = (case parse_policy_lines ls of Inr v \<Rightarrow> v | Inl _ \<Rightarrow> None)"
  by (induction ls) (auto simp: Let_def split: option.split)

section \<open>Properties\<close>

text \<open>C39. The readers of configuration values agree. The overlay's hexadecimal decoder accepts a token
  exactly when its digits, blanks and an optional prefix aside, are up to case what the identity tool
  prints for the result, which has the expected length; the tool's own decoder accepts the same tokens
  with the same results; and the reader of identity values, asked for the suite, finds what the reader
  of the policy file finds, a malformed file counting as nothing found.\<close>

theorem config_readers_agree:
  "(decode_hex_exact n token = Inr bs \<longleftrightarrow> length bs = n \<and> to_ascii_lowercase (hex_payload token) = hex bs)
   \<and> (tool_decode_hex_exact n token = Inr bs \<longleftrightarrow> decode_hex_exact n token = Inr bs)
   \<and> parse_policy_value contents (lit ''suite'') = (case parse_policy_file contents of Inr v \<Rightarrow> v | Inl _ \<Rightarrow> None)"
  using decode_reference [of "hex_payload token" n bs]
  by (auto simp: tool_decode_hex_exact_iff decode_hex_exact_def decode_hex_vec_def hex_payload_def Let_def
      parse_policy_value_def parse_policy_file_def parse_lines_agree mult.commute)

end
