(* ===== verification/Benchmarks.thy ===== *)
theory Benchmarks
  imports Complex_Main Hybrid_Handshake
begin

text \<open>
  The benchmark harness (\<open>src/benchmarks.rs\<close>) and the micro-benchmark (\<open>examples/crypto_ops.rs\<close>): the
  exchanges they run, the statistics over the measured times, and the sizes and verdicts they print.
  The clock, the random inputs and the results of socket calls are arguments; floating-point numbers
  are reals, with one extra value for the result on no samples. A panic is \<open>None\<close>.
\<close>

section \<open>Identities\<close>

record Ids =
  ids_client :: IdentityMaterial
  ids_server :: IdentityMaterial

definition node_public :: "crypto_lib \<Rightarrow> bytes \<Rightarrow> bytes \<Rightarrow> (bytes \<times> bytes) option" where
  "node_public lib ed ml =
     (case ml_seed_try_from lib ml of
        None \<Rightarrow> None
      | Some seed \<Rightarrow> Some (ed_public lib (ed_from_bytes lib ed), ml_public lib (ml_from_seed lib seed)))"

definition build_identities :: "crypto_lib \<Rightarrow> Ids option" where
  "build_identities lib =
     (let client_ed = replicate ED25519_SEED_LEN 0x11; client_ml = replicate MLDSA65_SEED_LEN 0x22;
          server_ed = replicate ED25519_SEED_LEN 0x33; server_ml = replicate MLDSA65_SEED_LEN 0x44 in
      case (node_public lib client_ed client_ml, node_public lib server_ed server_ml) of
        (Some (client_ed_pub, client_ml_pub), Some (server_ed_pub, server_ml_pub)) \<Rightarrow>
          (case (IdentityMaterial_from_bytes lib client_ed client_ml server_ed_pub server_ml_pub,
                 IdentityMaterial_from_bytes lib server_ed server_ml client_ed_pub client_ml_pub) of
             (Inr client, Inr server) \<Rightarrow> Some \<lparr>ids_client = client, ids_server = server\<rparr>
           | _ \<Rightarrow> None)
      | _ \<Rightarrow> None)"

definition identities :: "crypto_lib \<Rightarrow> (IdentityMaterial \<times> IdentityMaterial) option" where
  "identities lib =
     (let client_ed = replicate ED25519_SEED_LEN 0x11; client_ml = replicate MLDSA65_SEED_LEN 0x22;
          server_ed = replicate ED25519_SEED_LEN 0x33; server_ml = replicate MLDSA65_SEED_LEN 0x44 in
      case (node_public lib client_ed client_ml, node_public lib server_ed server_ml) of
        (Some (c_ed_pub, c_ml_pub), Some (s_ed_pub, s_ml_pub)) \<Rightarrow>
          (case (IdentityMaterial_from_bytes lib client_ed client_ml s_ed_pub s_ml_pub,
                 IdentityMaterial_from_bytes lib server_ed server_ml c_ed_pub c_ml_pub) of
             (Inr client, Inr server) \<Rightarrow> Some (client, server)
           | _ \<Rightarrow> None)
      | _ \<Rightarrow> None)"

section \<open>Percentiles\<close>

datatype f64 = NaN | Num real

text \<open>An index beyond the samples panics, as slice indexing does.\<close>

definition sample :: "real list \<Rightarrow> nat \<Rightarrow> real option" where
  "sample xs i = (if i < length xs then Some (xs ! i) else None)"

definition percentile :: "real list \<Rightarrow> real \<Rightarrow> f64 option" where
  "percentile xs p =
     (if xs = [] then Some NaN
      else let rank = p / 100 * (real (length xs) - 1); lo = nat \<lfloor>rank\<rfloor>; hi = nat \<lceil>rank\<rceil> in
        if lo = hi then map_option Num (sample xs lo)
        else case (sample xs lo, sample xs hi) of
          (Some a, Some b) \<Rightarrow> Some (Num (a * (1 - (rank - real lo)) + b * (rank - real lo)))
        | _ \<Rightarrow> None)"

record percentiles =
  p50 :: f64
  p99 :: f64
  pmax :: f64
  pn :: nat

definition report :: "real list \<Rightarrow> percentiles option" where
  "report ms =
     (let s = sort ms in
      case (percentile s 50, percentile s 99, percentile s 100) of
        (Some a, Some b, Some c) \<Rightarrow> Some \<lparr>p50 = a, p99 = b, pmax = c, pn = length s\<rparr>
      | _ \<Rightarrow> None)"

section \<open>In-band handshakes\<close>

type_synonym rand = "(bytes \<times> bytes) \<times> (bytes \<times> bytes)"

definition inband ::
  "crypto_lib \<Rightarrow> CipherSuite \<Rightarrow> Ids \<Rightarrow> rand \<Rightarrow> (SessionKeys \<times> SessionKeys \<times> bytes \<times> bytes) option" where
  "inband lib suite ids r =
     (case engine_begin_initiator lib suite (fst (fst r)) (snd (fst r)) (ids_client ids) of
        Inl _ \<Rightarrow> None
      | Inr (state, ch) \<Rightarrow>
          (case engine_respond lib suite (fst (snd r)) (snd (snd r)) (ids_server ids) ch of
             Inl _ \<Rightarrow> None
           | Inr (sk, sh) \<Rightarrow>
               (case InitiatorState_finish lib state (ids_client ids) sh of
                  Inl _ \<Rightarrow> None
                | Inr ck \<Rightarrow> Some (ck, sk, ch, sh))))"

definition run_inband :: "crypto_lib \<Rightarrow> CipherSuite \<Rightarrow> Ids \<Rightarrow> rand \<Rightarrow> unit option" where
  "run_inband lib suite ids r = map_option (\<lambda>_. ()) (inband lib suite ids r)"

definition suites :: "CipherSuite list" where
  "suites = [NistStandard768, NistStandard1024]"

text \<open>The thirty warm-up rounds and the three hundred measured ones; \<open>elapsed\<close> gives the times.\<close>

definition handshake_latency ::
  "crypto_lib \<Rightarrow> (CipherSuite \<Rightarrow> nat \<Rightarrow> rand) \<Rightarrow> (CipherSuite \<Rightarrow> nat \<Rightarrow> real) \<Rightarrow> percentiles list option" where
  "handshake_latency lib rnd elapsed =
     Option.bind (build_identities lib) (\<lambda>ids.
     those (map (\<lambda>suite.
       if list_all (\<lambda>i. run_inband lib suite ids (rnd suite i) \<noteq> None) [0..<30 + 300]
       then report (map (elapsed suite) [0..<300]) else None) suites))"

definition FRAME_OVERHEAD :: nat where "FRAME_OVERHEAD = 4 + 1 + 1"

record envelope =
  env_client_hello :: nat
  env_server_hello :: nat
  env_total :: nat
  env_pass :: bool

definition handshake_size :: "crypto_lib \<Rightarrow> (CipherSuite \<Rightarrow> rand) \<Rightarrow> envelope list option" where
  "handshake_size lib rnd =
     Option.bind (build_identities lib) (\<lambda>ids.
     those (map (\<lambda>suite.
       map_option (\<lambda>(ck, sk, ch, sh).
         let total = length ch + length sh + 2 * FRAME_OVERHEAD in
         \<lparr>env_client_hello = length ch + FRAME_OVERHEAD, env_server_hello = length sh + FRAME_OVERHEAD,
          env_total = total, env_pass = (total \<le> 2048)\<rparr>)
       (inband lib suite ids (rnd suite))) suites))"

section \<open>The projection without signatures\<close>

definition kem_exchange_size :: "crypto_lib \<Rightarrow> kem \<Rightarrow> rand \<Rightarrow> nat option" where
  "kem_exchange_size lib K r =
     (let i_xpub = x25519_public lib (fst (fst r)); (decap, ek) = kem_generate K (snd (fst r));
          r_xpub = x25519_public lib (fst (snd r)) in
      case kem_encapsulate K ek (snd (snd r)) of
        None \<Rightarrow> None
      | Some (ct, ss_r) \<Rightarrow>
          (let r_shared = x25519_dh lib (fst (snd r)) i_xpub in
           case kem_decapsulate K decap ct of
             None \<Rightarrow> None
           | Some ss_i \<Rightarrow>
               (let i_shared = x25519_dh lib (fst (fst r)) r_xpub;
                    ch = X25519_LEN + length ek; sh = X25519_LEN + length ct in
                Some (ch + sh))))"

text \<open>The size of the last round is reported.\<close>

definition kem_only_one ::
  "crypto_lib \<Rightarrow> kem \<Rightarrow> (nat \<Rightarrow> rand) \<Rightarrow> (nat \<Rightarrow> real) \<Rightarrow> (percentiles \<times> nat \<times> string) option" where
  "kem_only_one lib K rnd elapsed =
     Option.bind (those (map (\<lambda>i. kem_exchange_size lib K (rnd i)) [0..<30 + 300])) (\<lambda>wires.
     Option.bind (report (map elapsed [0..<300])) (\<lambda>stats.
     let total = last wires + 2 * FRAME_OVERHEAD in
     Some (stats, total, if total \<le> 2048 then ''PASS <=2KB'' else ''MISS'')))"

definition kem_only_projection ::
  "crypto_lib \<Rightarrow> (CipherSuite \<Rightarrow> nat \<Rightarrow> rand) \<Rightarrow> (CipherSuite \<Rightarrow> nat \<Rightarrow> real) \<Rightarrow>
     (percentiles \<times> nat \<times> string) list option" where
  "kem_only_projection lib rnd elapsed =
     those [kem_only_one lib (ml_kem_768 lib) (rnd NistStandard768) (elapsed NistStandard768),
            kem_only_one lib (ml_kem_1024 lib) (rnd NistStandard1024) (elapsed NistStandard1024)]"

section \<open>Throughput\<close>

definition THROUGHPUT_TOTAL :: nat where "THROUGHPUT_TOTAL = 256 * 1024 * 1024"
definition CHUNK :: nat where "CHUNK = 256 * 1024"

text \<open>\<open>ok sent\<close> tells whether the write of the chunk at that offset succeeds.\<close>

function send_loop :: "(nat \<Rightarrow> bool) \<Rightarrow> nat \<Rightarrow> nat option" where
  "send_loop ok sent =
     (if sent < THROUGHPUT_TOTAL then if ok sent then send_loop ok (sent + CHUNK) else None else Some sent)"
  by pat_completeness auto
termination
  by (relation "measure (\<lambda>(ok, sent). THROUGHPUT_TOTAL - sent)") (auto simp: CHUNK_def)

declare send_loop.simps [simp del]

text \<open>The server adds up the results of its reads until end of file or an error.\<close>

fun server_loop :: "(int + nat) list \<Rightarrow> nat \<Rightarrow> nat" where
  "server_loop [] got = got"
| "server_loop (r # rs) got =
     (case r of Inl _ \<Rightarrow> got | Inr n \<Rightarrow> if n = 0 then got else server_loop rs (got + n))"

fun aead_loop :: "crypto_lib \<Rightarrow> bytes \<Rightarrow> nat \<Rightarrow> SessionKeys \<Rightarrow> SessionKeys \<Rightarrow> nat \<Rightarrow> nat option" where
  "aead_loop lib record 0 ck sk n = Some n"
| "aead_loop lib record (Suc k) ck sk n =
     (case SessionKeys_seal lib ck record of
        (Inl _, _) \<Rightarrow> None
      | (Inr ct, ck') \<Rightarrow>
          (case SessionKeys_open lib sk ct of
             (Inl _, _) \<Rightarrow> None
           | (Inr _, sk') \<Rightarrow> aead_loop lib record k ck' sk' (n + length record)))"

definition aead_ceiling :: "crypto_lib \<Rightarrow> rand \<Rightarrow> nat option" where
  "aead_ceiling lib r =
     Option.bind (build_identities lib) (\<lambda>ids.
     Option.bind (inband lib NistStandard768 ids r) (\<lambda>(ck, sk, ch, sh).
     aead_loop lib (replicate (16 * 1024) 0xA5) 8192 ck sk 0))"

definition socket_throughput ::
  "crypto_lib \<Rightarrow> rand \<Rightarrow> (nat \<Rightarrow> bool) \<Rightarrow> (int + nat) list \<Rightarrow> (nat \<times> nat) option" where
  "socket_throughput lib r ok reads =
     Option.bind (send_loop ok 0) (\<lambda>sent.
     let got = server_loop reads 0 in
     Option.bind (aead_ceiling lib r) (\<lambda>n. Some (got div 1048576, n div 1048576)))"

text \<open>The four measurements in the order of the report. The random draws and the clock are given by the
  number of the section, the suite and the round.\<close>

definition run_all ::
  "crypto_lib \<Rightarrow> (nat \<Rightarrow> CipherSuite \<Rightarrow> nat \<Rightarrow> rand) \<Rightarrow> (nat \<Rightarrow> CipherSuite \<Rightarrow> nat \<Rightarrow> real) \<Rightarrow>
     (nat \<Rightarrow> bool) \<Rightarrow> (int + nat) list \<Rightarrow>
     (percentiles list \<times> (percentiles \<times> nat \<times> string) list \<times> envelope list \<times> (nat \<times> nat)) option" where
  "run_all lib rnd elapsed ok reads =
     Option.bind (handshake_latency lib (rnd 1) (elapsed 1)) (\<lambda>latency.
     Option.bind (kem_only_projection lib (rnd 2) (elapsed 2)) (\<lambda>projection.
     Option.bind (handshake_size lib (\<lambda>suite. rnd 3 suite 0)) (\<lambda>size.
     Option.bind (socket_throughput lib (rnd 4 NistStandard768 0) ok reads) (\<lambda>throughput.
     Some (latency, projection, size, throughput)))))"

section \<open>The micro-benchmark\<close>

definition FAST_ITERS :: nat where "FAST_ITERS = 5000"
definition SLOW_ITERS :: nat where "SLOW_ITERS = 1000"
definition WARMUP :: nat where "WARMUP = 50"

record Stat =
  st_median :: real
  st_p95 :: real
  st_max :: real

text \<open>\<open>elapsed\<close> gives the times of the measured rounds; the warm-up rounds are not timed.\<close>

definition bench :: "nat \<Rightarrow> (nat \<Rightarrow> real) \<Rightarrow> Stat option" where
  "bench iters elapsed =
     (let s = sort (map elapsed [0..<iters]) in
      case (sample s (iters div 2), sample s (nat \<lfloor>real iters * 0.95\<rfloor>), if s = [] then None else Some (last s)) of
        (Some a, Some b, Some c) \<Rightarrow> Some \<lparr>st_median = a, st_p95 = b, st_max = c\<rparr>
      | _ \<Rightarrow> None)"

definition med :: "real list \<Rightarrow> real option" where
  "med v = (let w = sort (drop WARMUP v) in if length v < WARMUP then None else sample w (length w div 2))"

text \<open>One suite: the three phases timed round by round, and the sum with three identity loads.\<close>

definition suite_sum ::
  "crypto_lib \<Rightarrow> CipherSuite \<Rightarrow> (nat \<Rightarrow> rand) \<Rightarrow> (nat \<Rightarrow> real \<times> real \<times> real) \<Rightarrow> real \<Rightarrow>
     (real \<times> real \<times> real \<times> real \<times> real) option" where
  "suite_sum lib suite rnd clock one_load_median =
     Option.bind (identities lib) (\<lambda>(client, server).
     if list_all (\<lambda>i. inband lib suite \<lparr>ids_client = client, ids_server = server\<rparr> (rnd i) \<noteq> None)
          [0..<WARMUP + SLOW_ITERS]
     then
       (let rounds = map clock [0..<WARMUP + SLOW_ITERS] in
        Option.bind (med (map fst rounds)) (\<lambda>bm.
        Option.bind (med (map (fst \<circ> snd) rounds)) (\<lambda>rm.
        Option.bind (med (map (snd \<circ> snd) rounds)) (\<lambda>fm.
        let loads = one_load_median * 3 in Some (bm, rm, fm, loads, bm + rm + fm + loads)))))
     else None)"

definition reconcile :: "real \<Rightarrow> real \<Rightarrow> real \<times> real" where
  "reconcile crypto_sum wire = (100 * crypto_sum / wire, wire - crypto_sum)"

section \<open>Order statistics\<close>

declare upt_rec_numeral [simp del]

lemma rank_in_range:
  assumes "xs \<noteq> []" "0 \<le> p" "p \<le> 100"
  shows "0 \<le> p / 100 * (real (length xs) - 1)" "p / 100 * (real (length xs) - 1) \<le> real (length xs) - 1"
proof -
  have n: "0 \<le> real (length xs) - 1" using assms(1) by (cases xs) simp_all
  then show "0 \<le> p / 100 * (real (length xs) - 1)" using assms(2) by simp
  show "p / 100 * (real (length xs) - 1) \<le> real (length xs) - 1"
    using mult_right_mono [of "p / 100" 1, OF _ n] assms(3) by simp
qed

text \<open>The value at a fractional rank: the samples joined by straight lines.\<close>

definition interpolate :: "real list \<Rightarrow> real \<Rightarrow> real" where
  "interpolate xs r = (let i = nat \<lfloor>r\<rfloor>; f = r - real i in
     if f = 0 then xs ! i else xs ! i * (1 - f) + xs ! (i + 1) * f)"

lemma percentile_interpolates:
  assumes "xs \<noteq> []" "0 \<le> p" "p \<le> 100"
  shows "percentile xs p = Some (Num (interpolate xs (p / 100 * (real (length xs) - 1))))"
proof -
  define r where "r = p / 100 * (real (length xs) - 1)"
  have r: "0 \<le> r" "r \<le> real (length xs) - 1" using rank_in_range [OF assms] by (simp_all add: r_def)
  define i where "i = nat \<lfloor>r\<rfloor>"
  have i: "real i \<le> r" "r < real i + 1" using r(1) by (simp_all add: i_def)
  have len: "i < length xs" using i(1) r(2) by linarith
  have p: "percentile xs p =
      (if i = nat \<lceil>r\<rceil> then map_option Num (sample xs i)
       else case (sample xs i, sample xs (nat \<lceil>r\<rceil>)) of
         (Some a, Some b) \<Rightarrow> Some (Num (a * (1 - (r - real i)) + b * (r - real i)))
       | _ \<Rightarrow> None)"
    using assms(1) by (simp only: percentile_def Let_def if_False i_def r_def)
  show ?thesis unfolding p r_def [symmetric]
  proof (cases "r = real i")
    case True
    then have "nat \<lceil>r\<rceil> = i" by simp
    then show "(if i = nat \<lceil>r\<rceil> then map_option Num (sample xs i)
       else case (sample xs i, sample xs (nat \<lceil>r\<rceil>)) of
         (Some a, Some b) \<Rightarrow> Some (Num (a * (1 - (r - real i)) + b * (r - real i)))
       | _ \<Rightarrow> None) = Some (Num (interpolate xs r))"
      using True len by (simp add: interpolate_def sample_def Let_def)
  next
    case False
    then have "\<lceil>r\<rceil> = int i + 1" using i by linarith
    then have hi: "nat \<lceil>r\<rceil> = i + 1" by simp
    have "i + 1 < length xs" using False i(1) r(2) by linarith
    then show "(if i = nat \<lceil>r\<rceil> then map_option Num (sample xs i)
       else case (sample xs i, sample xs (nat \<lceil>r\<rceil>)) of
         (Some a, Some b) \<Rightarrow> Some (Num (a * (1 - (r - real i)) + b * (r - real i)))
       | _ \<Rightarrow> None) = Some (Num (interpolate xs r))"
      using False len hi by (simp add: interpolate_def sample_def Let_def flip: i_def)
  qed
qed

lemma interpolate_between:
  assumes "sorted xs" "0 \<le> r" "r \<le> real (length xs) - 1" "i = nat \<lfloor>r\<rfloor>"
  shows "xs ! i \<le> interpolate xs r" "real i < r \<Longrightarrow> interpolate xs r \<le> xs ! (i + 1)"
    "real i < r \<Longrightarrow> i + 1 < length xs" "i < length xs"
proof -
  have i: "real i \<le> r" "r < real i + 1" using assms(2,4) by simp_all
  show len: "i < length xs" using i(1) assms(3) by linarith
  show nxt: "i + 1 < length xs" if "real i < r" using that assms(3) by linarith
  have le: "xs ! i \<le> xs ! (i + 1)" if "real i < r"
    using sorted_nth_mono [OF assms(1), of i "i + 1"] nxt [OF that] by simp
  have low: "xs ! i \<le> xs ! i * (1 - f) + xs ! (i + 1) * f" if "real i < r" "0 \<le> f" for f
    using mult_right_mono [OF le [OF that(1)] that(2)] by (simp add: algebra_simps)
  have up: "xs ! i * (1 - f) + xs ! (i + 1) * f \<le> xs ! (i + 1)" if "real i < r" "f \<le> 1" for f
    using mult_right_mono [OF le [OF that(1)], of "1 - f"] that(2) by (simp add: algebra_simps)
  show "xs ! i \<le> interpolate xs r"
    using low [of "r - real i"] i by (auto simp: interpolate_def Let_def simp flip: assms(4))
  show "interpolate xs r \<le> xs ! (i + 1)" if "real i < r"
    using up [OF that, of "r - real i"] that i by (auto simp: interpolate_def Let_def simp flip: assms(4))
qed

lemma interpolate_mono:
  assumes "sorted xs" "0 \<le> r" "r \<le> s" "s \<le> real (length xs) - 1"
  shows "interpolate xs r \<le> interpolate xs s"
proof -
  define i j where "i = nat \<lfloor>r\<rfloor>" and "j = nat \<lfloor>s\<rfloor>"
  have r: "r \<le> real (length xs) - 1" and s: "0 \<le> s" using assms by linarith+
  have i: "real i \<le> r" "r < real i + 1" and j: "real j \<le> s" "s < real j + 1"
    using assms(2) s by (simp_all add: i_def j_def)
  note bi = interpolate_between [OF assms(1,2) r i_def] and bj = interpolate_between [OF assms(1) s assms(4) j_def]
  have "i \<le> j" unfolding i_def j_def using assms(3) by (simp add: floor_mono nat_mono)
  show ?thesis
  proof (cases "i = j")
    case True
    have "xs ! i \<le> xs ! (i + 1)" if "real i < s"
      using sorted_nth_mono [OF assms(1), of i "i + 1"] bj(3) that True by simp
    then have "xs ! i * (1 - (r - real i)) + xs ! (i + 1) * (r - real i) \<le>
        xs ! i * (1 - (s - real i)) + xs ! (i + 1) * (s - real i)" if "real i < s"
      using mult_right_mono [of "xs ! i" "xs ! (i + 1)" "s - r"] that assms(3) by (simp add: algebra_simps)
    moreover have "interpolate xs r = xs ! i" if "\<not> real i < r" using that i by (simp add: interpolate_def Let_def flip: i_def)
    moreover have "real i < r \<Longrightarrow> real i < s" using assms(3) by linarith
    ultimately show ?thesis
      using bj(1) True i j by (cases "real i < r") (auto simp: interpolate_def Let_def simp flip: i_def j_def)
  next
    case False
    with \<open>i \<le> j\<close> have "i + 1 \<le> j" by simp
    then have "interpolate xs r \<le> xs ! j"
    proof (cases "real i < r")
      case True
      then show ?thesis using bi(2) sorted_nth_mono [OF assms(1) \<open>i + 1 \<le> j\<close> bj(4)] by linarith
    next
      case False
      then show ?thesis using i sorted_nth_mono [OF assms(1) \<open>i \<le> j\<close> bj(4)]
        by (simp add: interpolate_def Let_def flip: i_def)
    qed
    then show ?thesis using bj(1) by linarith
  qed
qed

section \<open>Runs without a panic\<close>

text \<open>\<open>Seed::try_from\<close> accepts 32 bytes.\<close>

definition seed_laws :: "crypto_lib \<Rightarrow> bool" where
  "seed_laws lib \<longleftrightarrow> (\<forall>s. length s = 32 \<longrightarrow> ml_seed_try_from lib s \<noteq> None)"

lemma build_identities_mutual:
  assumes "crypto_laws lib" "seed_laws lib"
  obtains ids where "build_identities lib = Some ids" "mutual lib (ids_client ids) (ids_server ids)"
    "identities lib = Some (ids_client ids, ids_server ids)"
proof -
  let ?ce = "replicate 32 0x11 :: bytes" and ?cm = "replicate 32 0x22 :: bytes"
  let ?se = "replicate 32 0x33 :: bytes" and ?sm = "replicate 32 0x44 :: bytes"
  obtain cs ss where seeds: "ml_seed_try_from lib ?cm = Some cs" "ml_seed_try_from lib ?sm = Some ss"
    using assms(2) by (fastforce simp: seed_laws_def)
  let ?cep = "ed_public lib (ed_from_bytes lib ?ce)" and ?cmp = "ml_public lib (ml_from_seed lib cs)"
  let ?sep = "ed_public lib (ed_from_bytes lib ?se)" and ?smp = "ml_public lib (ml_from_seed lib ss)"
  have laws: "ed25519_laws lib" "mldsa65_laws lib" using assms(1) by (simp_all add: crypto_laws_def)
  have ok: "\<exists>i. IdentityMaterial_from_bytes lib e m (ed_public lib x) (ml_public lib y) = Inr i \<and>
      own_ed25519_public i = ed_public lib (ed_from_bytes lib e) \<and> own_mldsa65_public i = ml_public lib (ml_from_seed lib z) \<and>
      peer_ed25519_public i = ed_public lib x \<and> peer_mldsa65_public i = ml_public lib y"
    if "ml_seed_try_from lib m = Some z" for e m x y z
  proof -
    obtain vk evk where "ed_vk_from_bytes lib (ed_public lib x) = Some vk" "ml_evk_try_from lib (ml_public lib y) = Some evk"
      "length (ml_public lib y) = 1952" using laws unfolding ed25519_laws_def mldsa65_laws_def by blast
    then show ?thesis using that by (simp add: IdentityMaterial_from_bytes_def MLDSA65_PUBLIC_LEN_def Let_def ok_or_def)
  qed
  from ok [OF seeds(1), of ?ce "ed_from_bytes lib ?se" "ml_from_seed lib ss"] obtain c where
    c: "IdentityMaterial_from_bytes lib ?ce ?cm ?sep ?smp = Inr c" "own_ed25519_public c = ?cep"
      "own_mldsa65_public c = ?cmp" "peer_ed25519_public c = ?sep" "peer_mldsa65_public c = ?smp" by blast
  from ok [OF seeds(2), of ?se "ed_from_bytes lib ?ce" "ml_from_seed lib cs"] obtain s where
    s: "IdentityMaterial_from_bytes lib ?se ?sm ?cep ?cmp = Inr s" "own_ed25519_public s = ?sep"
      "own_mldsa65_public s = ?smp" "peer_ed25519_public s = ?cep" "peer_mldsa65_public s = ?cmp" by blast
  have "mutual lib c s"
    using assms(1) c s from_bytes_wf [OF c(1)] from_bytes_wf [OF s(1)] by (simp add: mutual_def pins_def)
  then show ?thesis
    using that [of "\<lparr>ids_client = c, ids_server = s\<rparr>"] c(1) s(1) seeds
    by (simp add: build_identities_def identities_def node_public_def ED25519_SEED_LEN_def MLDSA65_SEED_LEN_def Let_def)
qed

lemma inband_ok:
  assumes "mutual lib (ids_client ids) (ids_server ids)"
  obtains ck sk ch sh where "inband lib suite ids r = Some (ck, sk, ch, sh)" "fresh_mirror ck sk"
    "length ch = suite_ek_len suite + 5389" "length sh = suite_ct_len suite + 5389"
proof -
  from engine.completes [OF assms, of suite "fst r" "snd r"] obtain st ch sk sh ck where
    e: "engine_begin_initiator lib suite (fst (fst r)) (snd (fst r)) (ids_client ids) = Inr (st, ch)"
      "engine_respond lib suite (fst (snd r)) (snd (snd r)) (ids_server ids) ch = Inr (sk, sh)"
      "InitiatorState_finish lib st (ids_client ids) sh = Inr ck" "fresh_mirror ck sk"
    by (auto simp: case_prod_unfold)
  moreover have "length ch = suite_ek_len suite + 5389"
    using engine_respond_authentic [OF e(2)] by (auto simp: hello_authentic_def)
  moreover have "length sh = suite_ct_len suite + 5389"
    using engine_finish_authentic [OF e(1,3)] by (auto simp: hello_authentic_def)
  ultimately show ?thesis using that by (simp add: inband_def)
qed

text \<open>A summary of samples is well ordered: smallest sample, median, 99th percentile, largest sample.\<close>

definition summarises :: "percentiles \<Rightarrow> real list \<Rightarrow> bool" where
  "summarises s ms \<longleftrightarrow> (\<exists>a b. p50 s = Num a \<and> p99 s = Num b \<and> pmax s = Num (Max (set ms)) \<and> pn s = length ms \<and>
     Min (set ms) \<le> a \<and> a \<le> b \<and> b \<le> Max (set ms))"

lemma sorted_ends:
  assumes "sorted s" "s \<noteq> []"
  shows "s ! 0 = Min (set s)" "s ! (length s - 1) = Max (set s)"
proof -
  show "s ! 0 = Min (set s)"
    by (rule Min_eqI [symmetric]) (use assms in \<open>auto simp: in_set_conv_nth intro: sorted_nth_mono\<close>)
  show "s ! (length s - 1) = Max (set s)"
  proof (rule Max_eqI [symmetric])
    show "s ! (length s - 1) \<in> set s" using assms(2) by (intro nth_mem) simp
  qed (use assms in \<open>auto simp: in_set_conv_nth intro!: sorted_nth_mono\<close>)
qed

lemma interpolate_nat: "interpolate xs (real i) = xs ! i"
  by (simp add: interpolate_def)

lemma interpolate_ends:
  assumes "ms \<noteq> []"
  shows "interpolate (sort ms) 0 = Min (set ms)" "interpolate (sort ms) (real (length ms) - 1) = Max (set ms)"
proof -
  have n: "real (length ms) - 1 = real (length ms - 1)" using assms by (simp add: of_nat_diff Suc_leI)
  have ne: "sort ms \<noteq> []" using assms by (metis length_0_conv length_sort)
  show "interpolate (sort ms) 0 = Min (set ms)" using sorted_ends(1) [OF _ ne] interpolate_nat [of "sort ms" 0] by simp
  show "interpolate (sort ms) (real (length ms) - 1) = Max (set ms)"
    unfolding n interpolate_nat using sorted_ends(2) [OF _ ne] by simp
qed

lemma report_ok:
  assumes "ms \<noteq> []"
  obtains st where "report ms = Some st" "summarises st ms"
proof -
  let ?s = "sort ms" and ?n = "real (length ms) - 1"
  have s: "?s \<noteq> []" "length ?s = length ms" using assms by (metis length_0_conv length_sort, simp)
  have n: "0 \<le> ?n" using assms by (cases ms) simp_all
  have v: "percentile ?s p = Some (Num (interpolate ?s (p / 100 * ?n)))" if "0 \<le> p" "p \<le> 100" for p
    using percentile_interpolates [OF s(1) that] by simp
  have m: "interpolate ?s (p / 100 * ?n) \<le> interpolate ?s (q / 100 * ?n)" if "0 \<le> p" "p \<le> q" "q \<le> 100" for p q
    by (rule interpolate_mono)
      (use that n mult_right_mono [of "p / 100" "q / 100" ?n] mult_right_mono [of "q / 100" 1 ?n] in simp_all)
  define st where "st = \<lparr>p50 = Num (interpolate ?s (50 / 100 * ?n)), p99 = Num (interpolate ?s (99 / 100 * ?n)),
    pmax = Num (interpolate ?s (100 / 100 * ?n)), pn = length ms\<rparr>"
  have "report ms = Some st" by (simp add: report_def v Let_def st_def)
  moreover have "summarises st ms"
    using m [of 0 50] m [of 50 99] m [of 99 100] interpolate_ends [OF assms] by (simp add: summarises_def st_def)
  ultimately show ?thesis using that by blast
qed

lemma those_map_Some: "(\<And>x. x \<in> set xs \<Longrightarrow> f x = Some (g x)) \<Longrightarrow> those (map f xs) = Some (map g xs)"
  by (induction xs) auto

lemma kem_exchange_size_ok:
  assumes "kem_laws K ek_len ct_len"
  shows "kem_exchange_size lib K r = Some (64 + ek_len + ct_len)"
proof -
  obtain dk ek ct ss where "kem_generate K (snd (fst r)) = (dk, ek)" "length ek = ek_len"
    "kem_encapsulate K ek (snd (snd r)) = Some (ct, ss)" "length ct = ct_len" "kem_decapsulate K dk ct = Some ss"
    by (rule kem_exchange [OF assms])
  then show ?thesis by (simp add: kem_exchange_size_def Let_def X25519_LEN_def)
qed

lemma kem_only_one_ok:
  assumes "kem_laws K ek_len ct_len"
  obtains st where "summarises st (map elapsed [0..<300])"
    "kem_only_one lib K rnd elapsed =
       Some (st, 76 + ek_len + ct_len, if 76 + ek_len + ct_len \<le> 2048 then ''PASS <=2KB'' else ''MISS'')"
proof -
  have w: "those (map (\<lambda>i. kem_exchange_size lib K (rnd i)) [0..<30 + 300]) = Some (map (\<lambda>_. 64 + ek_len + ct_len) [0..<30 + 300])"
    by (rule those_map_Some) (simp add: kem_exchange_size_ok [OF assms])
  have l: "last (map (\<lambda>_. 64 + ek_len + ct_len) [0..<30 + 300]) = 64 + ek_len + ct_len" by (simp add: last_map)
  obtain st where st: "report (map elapsed [0..<300]) = Some st" "summarises st (map elapsed [0..<300])"
    by (rule report_ok [of "map elapsed [0..<300]"]) simp
  show ?thesis by (rule that [OF st(2)]) (simp only: kem_only_one_def w st(1) Option.bind.simps Let_def l, simp add: FRAME_OVERHEAD_def)
qed

lemma aead_loop_ok:
  assumes "in_sync lib ck sk" "length (dir_key (tx ck)) = 32" "unat (dir_counter (tx ck)) + k < 2 ^ 64 - 1"
    "length record < 2 ^ 36 - 31"
  shows "aead_loop lib record k ck sk n = Some (n + k * length record)"
  using assms
proof (induction k arbitrary: ck sk n)
  case (Suc k)
  have laws: "aead_laws lib" using Suc.prems(1) by (simp add: in_sync_def)
  have c: "dir_counter (tx ck) \<noteq> - 1"
  proof
    assume m: "dir_counter (tx ck) = - 1"
    have "unat (- 1 :: u64) = 2 ^ 64 - 1" by (simp add: unsigned_minus_1_eq_mask mask_eq_exp_minus_1)
    with m Suc.prems(3) show False by simp
  qed
  obtain ci ct where "aes_new lib (dir_key (tx ck)) = Some ci"
    "aes_encrypt lib ci (nonce_from_counter (dir_counter (tx ck))) record = Some ct"
    using aes_new_ok [OF laws Suc.prems(2)] aes_encrypt_ok [OF laws Suc.prems(4)] by blast
  then have seal: "SessionKeys_seal lib ck record = (Inr ct, ck\<lparr>tx := (tx ck)\<lparr>dir_counter := dir_counter (tx ck) + 1\<rparr>\<rparr>)"
    using c by (auto simp: SessionKeys_seal_Inr_iff Direction_seal_Inr_iff)
  let ?ck = "ck\<lparr>tx := (tx ck)\<lparr>dir_counter := dir_counter (tx ck) + 1\<rparr>\<rparr>"
  from sess.delivers [OF Suc.prems(1) seal] obtain sk' where
    o: "SessionKeys_open lib sk ct = (Inr record, sk')" "in_sync lib ?ck sk'" by blast
  have "unat (dir_counter (tx ck) + 1) = unat (dir_counter (tx ck)) + 1"
    using Suc.prems(3) by (simp add: unat_word_ariths)
  then have "aead_loop lib record k ?ck sk' (n + length record) = Some (n + length record + k * length record)"
    by (intro Suc.IH o(2)) (use Suc.prems in simp_all)
  then show ?case using seal o(1) by simp
qed simp

lemma send_loop_ok: "(\<And>i. i < THROUGHPUT_TOTAL \<Longrightarrow> ok i) \<Longrightarrow> k * CHUNK \<le> THROUGHPUT_TOTAL \<Longrightarrow>
    send_loop ok (THROUGHPUT_TOTAL - k * CHUNK) = Some THROUGHPUT_TOTAL"
proof (induction k)
  case 0
  then show ?case by (subst send_loop.simps) simp
next
  case (Suc k)
  then have "send_loop ok (THROUGHPUT_TOTAL - k * CHUNK) = Some THROUGHPUT_TOTAL" by simp
  moreover have "THROUGHPUT_TOTAL - Suc k * CHUNK + CHUNK = THROUGHPUT_TOTAL - k * CHUNK"
    "THROUGHPUT_TOTAL - Suc k * CHUNK < THROUGHPUT_TOTAL"
    using Suc.prems(2) by (simp_all add: CHUNK_def)
  ultimately show ?case using Suc.prems(1) by (subst send_loop.simps) simp
qed

lemma server_loop_counts: "0 \<notin> set ns \<Longrightarrow> server_loop (map Inr ns @ [Inr 0]) got = got + sum_list ns"
  by (induction ns arbitrary: got) auto

lemma aead_ceiling_ok:
  assumes "crypto_laws lib" "seed_laws lib"
  shows "aead_ceiling lib r = Some (8192 * 16384)"
proof -
  obtain ids where ids: "build_identities lib = Some ids" "mutual lib (ids_client ids) (ids_server ids)"
    using build_identities_mutual [OF assms] by blast
  obtain ck sk ch sh where h: "inband lib NistStandard768 ids r = Some (ck, sk, ch, sh)" "fresh_mirror ck sk"
    using inband_ok [OF ids(2)] by metis
  have laws: "aead_laws lib" using assms(1) by (simp add: crypto_laws_def)
  have k: "in_sync lib ck sk" "length (dir_key (tx ck)) = 32" "unat (dir_counter (tx ck)) = 0"
    using fresh_mirror_sync [OF laws h(2)] h(2) by (auto simp: fresh_mirror_def)
  have "aead_loop lib (replicate (16 * 1024) 0xA5) 8192 ck sk 0 = Some (0 + 8192 * length (replicate (16 * 1024) (0xA5 :: u8)))"
    by (rule aead_loop_ok [OF k(1,2)]) (simp_all only: k(3) length_replicate, simp_all)
  then show ?thesis using ids(1) h(1) by (simp only: aead_ceiling_def Option.bind.simps prod.case length_replicate) simp
qed

lemma handshake_size_ok:
  assumes "crypto_laws lib" "seed_laws lib"
  shows "handshake_size lib rnd = Some
    [\<lparr>env_client_hello = 6579, env_server_hello = 6483, env_total = 13062, env_pass = False\<rparr>,
     \<lparr>env_client_hello = 6963, env_server_hello = 6963, env_total = 13926, env_pass = False\<rparr>]"
proof -
  obtain ids where ids: "build_identities lib = Some ids" "mutual lib (ids_client ids) (ids_server ids)"
    using build_identities_mutual [OF assms] by blast
  obtain ck sk ch sh where a: "inband lib NistStandard768 ids (rnd NistStandard768) = Some (ck, sk, ch, sh)"
    "length ch = 6573" "length sh = 6477"
    by (rule inband_ok [OF ids(2), where suite = NistStandard768 and r = "rnd NistStandard768"])
      (simp add: suite_ek_len_def suite_ct_len_def nist768_EK_LEN_def nist768_CT_LEN_def)
  obtain ck' sk' ch' sh' where b: "inband lib NistStandard1024 ids (rnd NistStandard1024) = Some (ck', sk', ch', sh')"
    "length ch' = 6957" "length sh' = 6957"
    by (rule inband_ok [OF ids(2), where suite = NistStandard1024 and r = "rnd NistStandard1024"])
      (simp add: suite_ek_len_def suite_ct_len_def nist1024_EK_LEN_def nist1024_CT_LEN_def)
  show ?thesis using ids(1) a b by (simp add: handshake_size_def suites_def FRAME_OVERHEAD_def Let_def)
qed

lemma handshake_latency_ok:
  assumes "crypto_laws lib" "seed_laws lib"
  obtains a b where "handshake_latency lib rnd elapsed = Some [a, b]"
    "summarises a (map (elapsed NistStandard768) [0..<300])" "summarises b (map (elapsed NistStandard1024) [0..<300])"
proof -
  obtain ids where ids: "build_identities lib = Some ids" "mutual lib (ids_client ids) (ids_server ids)"
    using build_identities_mutual [OF assms] by blast
  have "run_inband lib suite ids r \<noteq> None" for suite r
    by (rule inband_ok [OF ids(2), of suite r]) (simp add: run_inband_def)
  then have run: "list_all (\<lambda>i. run_inband lib suite ids (rnd suite i) \<noteq> None) [0..<30 + 300]" for suite
    by (simp add: list_all_iff)
  obtain a where a: "report (map (elapsed NistStandard768) [0..<300]) = Some a"
    "summarises a (map (elapsed NistStandard768) [0..<300])"
    by (rule report_ok [of "map (elapsed NistStandard768) [0..<300]"]) simp
  obtain b where b: "report (map (elapsed NistStandard1024) [0..<300]) = Some b"
    "summarises b (map (elapsed NistStandard1024) [0..<300])"
    by (rule report_ok [of "map (elapsed NistStandard1024) [0..<300]"]) simp
  have "handshake_latency lib rnd elapsed = Some [a, b]"
    by (simp only: handshake_latency_def suites_def list.map ids(1) Option.bind.simps run if_True a(1) b(1) those.simps option.case) simp
  then show ?thesis using that a(2) b(2) by blast
qed

text \<open>The micro-benchmark's statistics exist and are in order, and a suite's sum is that of its parts.\<close>

lemma bench_ok:
  assumes "0 < iters"
  obtains st where "bench iters elapsed = Some st" "st_median st \<le> st_p95 st" "st_p95 st \<le> st_max st"
    "st_max st = Max (set (map elapsed [0..<iters]))"
proof -
  define s where "s = sort (map elapsed [0..<iters])"
  define k where "k = nat \<lfloor>real iters * 0.95\<rfloor>"
  have s: "length s = iters" "sorted s" "s \<noteq> []" using assms by (auto simp: s_def simp flip: length_0_conv)
  have "real (iters div 2) \<le> real iters / 2" by (simp add: of_nat_div_le_of_nat field_simps flip: of_nat_mult)
  also have "\<dots> \<le> real iters * 0.95" by simp
  finally have "real (iters div 2) \<le> real iters * 0.95" .
  then have k: "iters div 2 \<le> k" by (simp add: k_def le_nat_floor)
  have "real k \<le> real iters * 0.95" unfolding k_def by (rule of_nat_floor) simp
  also have "\<dots> < real iters" using assms by simp
  finally have k': "k < iters" by simp
  define st where "st = \<lparr>st_median = s ! (iters div 2), st_p95 = s ! k, st_max = last s\<rparr>"
  have "bench iters elapsed = Some st"
    unfolding bench_def Let_def s_def [symmetric] k_def [symmetric] using s k' k by (simp add: sample_def st_def)
  moreover have "s ! k \<le> s ! (iters - 1)" using k' s(1) by (intro sorted_nth_mono [OF s(2)]) simp_all
  then have "st_p95 st \<le> st_max st" using s by (simp add: st_def last_conv_nth)
  moreover have "st_median st \<le> st_p95 st" using sorted_nth_mono [OF s(2) k] k' s(1) by (simp add: st_def)
  moreover have "st_max st = Max (set s)" using sorted_ends(2) [OF s(2,3)] s(3) by (simp add: st_def last_conv_nth)
  ultimately show ?thesis using that by (simp add: s_def)
qed

lemma med_ok: "WARMUP < length v \<Longrightarrow> \<exists>x \<in> set (drop WARMUP v). med v = Some x"
proof -
  assume l: "WARMUP < length v"
  let ?w = "sort (drop WARMUP v)"
  have "length ?w div 2 < length ?w" using l by simp
  then have "med v = Some (?w ! (length ?w div 2))" "?w ! (length ?w div 2) \<in> set ?w"
    using l by (simp add: med_def sample_def Let_def, intro nth_mem)
  then show ?thesis by simp
qed

lemma suite_sum_ok:
  assumes "crypto_laws lib" "seed_laws lib"
  shows "\<exists>bm rm fm. suite_sum lib suite rnd clock load = Some (bm, rm, fm, load * 3, bm + rm + fm + load * 3)"
proof -
  let ?rounds = "map clock [0..<WARMUP + SLOW_ITERS]"
  obtain ids :: Ids where ids: "mutual lib (ids_client ids) (ids_server ids)" "identities lib = Some (ids_client ids, ids_server ids)"
    using build_identities_mutual [OF assms] by metis
  let ?ids = "\<lparr>ids_client = ids_client ids, ids_server = ids_server ids\<rparr>"
  have "inband lib suite ?ids r \<noteq> None" for r
    by (rule inband_ok [of lib ?ids suite r]) (use ids(1) in simp_all)
  then have run: "list_all (\<lambda>i. inband lib suite ?ids (rnd i) \<noteq> None) [0..<WARMUP + SLOW_ITERS]"
    by (simp only: list_all_iff) simp
  have m: "\<exists>x. med (map f ?rounds) = Some x" for f :: "real \<times> real \<times> real \<Rightarrow> real"
    using med_ok [of "map f ?rounds"] by (auto simp: SLOW_ITERS_def)
  obtain bm where "med (map fst ?rounds) = Some bm" using m by blast
  moreover obtain rm where "med (map (fst \<circ> snd) ?rounds) = Some rm" using m by blast
  moreover obtain fm where "med (map (snd \<circ> snd) ?rounds) = Some fm" using m by blast
  ultimately show ?thesis
    by (simp only: suite_sum_def ids(2) run Option.bind.simps prod.case if_True Let_def) blast
qed

section \<open>Properties\<close>



end
