(* ===== verification/Crypto_Ops.thy ===== *)
theory Crypto_Ops
  imports Benchmarks "HOL-Library.Monad_Syntax"
begin

text \<open>
  The rest of the micro-benchmark \<open>examples/crypto_ops.rs\<close>: its single-operation measurements, section by
  section as \<open>main\<close> runs them, and the tables it prints. Random draws and measured times are arguments, an
  \<open>unwrap\<close> of a failure is \<open>None\<close>; a printed line is the list of its columns.
\<close>

unbundle bit_operations_syntax

section \<open>Measurements\<close>

definition AUTH_MSG_LEN :: nat where "AUTH_MSG_LEN = 4096"

definition msg :: bytes where "msg = replicate AUTH_MSG_LEN 0xa5"

text \<open>A closure with an \<open>unwrap\<close>: every warm-up and every timed round must succeed.\<close>

definition bench_ok_rounds :: "nat \<Rightarrow> (nat \<Rightarrow> bool) \<Rightarrow> (nat \<Rightarrow> real) \<Rightarrow> Stat option" where
  "bench_ok_rounds iters succeeds elapsed =
     (if list_all succeeds [0..<WARMUP + iters] then bench iters elapsed else None)"

text \<open>The columns of a line: name, rounds, median, and the 95th percentile and maximum where measured.\<close>

record line =
  ln_name :: string
  ln_iters :: nat
  ln_median :: real
  ln_spread :: "(real \<times> real) option"

definition row :: "string \<Rightarrow> nat \<Rightarrow> Stat \<Rightarrow> line" where
  "row name n st = \<lparr>ln_name = name, ln_iters = n, ln_median = st_median st, ln_spread = Some (st_p95 st, st_max st)\<rparr>"

type_synonym clock = "string \<Rightarrow> nat \<Rightarrow> real"

definition x25519_rows :: "clock \<Rightarrow> line list option" where
  "x25519_rows clk = do {
     x_keygen \<leftarrow> bench FAST_ITERS (clk ''X25519 keygen'');
     x_keygen_dh \<leftarrow> bench FAST_ITERS (clk ''X25519 keygen+DH'');
     let x_dh_median = max (st_median x_keygen_dh - st_median x_keygen) 0;
     Some [row ''X25519 keygen'' FAST_ITERS x_keygen, row ''X25519 keygen+DH'' FAST_ITERS x_keygen_dh,
       \<lparr>ln_name = ''X25519 DH (derived)'', ln_iters = FAST_ITERS, ln_median = x_dh_median, ln_spread = None\<rparr>]
   }"

text \<open>Both ML-KEM sections; \<open>rnd\<close> gives the draws in order.\<close>

definition kem_rows :: "string \<Rightarrow> kem \<Rightarrow> (nat \<Rightarrow> bytes) \<Rightarrow> clock \<Rightarrow> line list option" where
  "kem_rows name K rnd clk = do {
     let (dk, ek) = kem_generate K (rnd 0);
     (ct, _) \<leftarrow> kem_encapsulate K ek (rnd 1);
     keygen \<leftarrow> bench SLOW_ITERS (clk (name @ '' keygen''));
     encaps \<leftarrow> bench_ok_rounds SLOW_ITERS (\<lambda>i. kem_encapsulate K ek (rnd (2 + i)) \<noteq> None) (clk (name @ '' encaps''));
     decaps \<leftarrow> bench_ok_rounds SLOW_ITERS (\<lambda>i. kem_decapsulate K dk ct \<noteq> None) (clk (name @ '' decaps''));
     Some [row (name @ '' keygen'') SLOW_ITERS keygen, row (name @ '' encaps'') SLOW_ITERS encaps,
       row (name @ '' decaps'') SLOW_ITERS decaps]
   }"

definition ed25519_rows :: "crypto_lib \<Rightarrow> clock \<Rightarrow> line list option" where
  "ed25519_rows lib clk = do {
     let ed_sk = ed_from_bytes lib (replicate 32 0x11);
     ed_sig \<leftarrow> ed_try_sign lib ed_sk msg;
     ed_sign \<leftarrow> bench_ok_rounds FAST_ITERS (\<lambda>i. ed_try_sign lib ed_sk msg \<noteq> None) (clk ''Ed25519 sign'');
     ed_verify \<leftarrow> bench FAST_ITERS (clk ''Ed25519 verify'');
     Some [row ''Ed25519 sign'' FAST_ITERS ed_sign, row ''Ed25519 verify'' FAST_ITERS ed_verify]
   }"

text \<open>The message of the \<open>n\<close>-th signature: before each, the byte at the counter's place is inverted.\<close>

fun sign_msg :: "nat \<Rightarrow> bytes" where
  "sign_msg 0 = msg"
| "sign_msg (Suc ctr) =
     (let m = sign_msg ctr; i = ctr mod AUTH_MSG_LEN in m[i := m ! i XOR 0xff])"

definition mldsa_rows :: "crypto_lib \<Rightarrow> clock \<Rightarrow> line list option" where
  "mldsa_rows lib clk = do {
     ml_seed \<leftarrow> ml_seed_try_from lib (replicate MLDSA65_SEED_LEN 0x22);
     let ml_sk = ml_from_seed lib ml_seed;
     ml_sig \<leftarrow> ml_try_sign lib ml_sk msg;
     mldsa_keygen \<leftarrow> bench SLOW_ITERS (clk ''ML-DSA-65 keygen(seed)'');
     mldsa_sign \<leftarrow> bench_ok_rounds SLOW_ITERS (\<lambda>i. ml_try_sign lib ml_sk (sign_msg (Suc i)) \<noteq> None) (clk ''ML-DSA-65 sign'');
     mldsa_verify \<leftarrow> bench SLOW_ITERS (clk ''ML-DSA-65 verify'');
     Some [row ''ML-DSA-65 keygen(seed)'' SLOW_ITERS mldsa_keygen, row ''ML-DSA-65 sign'' SLOW_ITERS mldsa_sign,
       row ''ML-DSA-65 verify'' SLOW_ITERS mldsa_verify]
   }"

definition id_load :: "crypto_lib \<Rightarrow> clock \<Rightarrow> Stat option" where
  "id_load lib clk = do {
     let peer_ed_pub = ed_public lib (ed_from_bytes lib (replicate ED25519_SEED_LEN 0x33));
     peer_seed \<leftarrow> ml_seed_try_from lib (replicate MLDSA65_SEED_LEN 0x44);
     let peer_ml_pub = ml_public lib (ml_from_seed lib peer_seed);
     bench_ok_rounds SLOW_ITERS
       (\<lambda>i. \<exists>m. IdentityMaterial_from_bytes lib (replicate ED25519_SEED_LEN 0x11) (replicate MLDSA65_SEED_LEN 0x22)
          peer_ed_pub peer_ml_pub = Inr m)
       (clk ''identity load (from_bytes)'')
   }"

section \<open>The tables\<close>

text \<open>A suite's line: label, the three phases, the loads, their sum and the wire time it is compared with.\<close>

definition suite_rows ::
  "crypto_lib \<Rightarrow> (CipherSuite \<Rightarrow> nat \<Rightarrow> rand) \<Rightarrow> (CipherSuite \<Rightarrow> nat \<Rightarrow> real \<times> real \<times> real) \<Rightarrow> real \<Rightarrow>
     (string \<times> (real \<times> real \<times> real \<times> real \<times> real) \<times> real) list option" where
  "suite_rows lib rnd clk one_load_median =
     those (map (\<lambda>(label, suite, wire_ms).
         map_option (\<lambda>t. (label, t, wire_ms)) (suite_sum lib suite (rnd suite) (clk suite) one_load_median))
       [(''0x01 (ML-KEM-768)'', NistStandard768, 1.37), (''0x02 (ML-KEM-1024)'', NistStandard1024, 1.49)])"

record tables =
  tb_lines :: "line list"
  tb_load :: real
  tb_suites :: "(string \<times> (real \<times> real \<times> real \<times> real \<times> real) \<times> real) list"
  tb_reconciliation :: "(string \<times> real \<times> real) list" \<comment> \<open>label, share of the wire time, gap\<close>

definition crypto_ops_main ::
  "crypto_lib \<Rightarrow> (string \<Rightarrow> nat \<Rightarrow> bytes) \<Rightarrow> clock \<Rightarrow> (CipherSuite \<Rightarrow> nat \<Rightarrow> rand) \<Rightarrow>
     (CipherSuite \<Rightarrow> nat \<Rightarrow> real \<times> real \<times> real) \<Rightarrow> tables option" where
  "crypto_ops_main lib draws clk rnd phases = do {
     x \<leftarrow> x25519_rows clk;
     k768 \<leftarrow> kem_rows ''ML-KEM-768'' (ml_kem_768 lib) (draws ''ML-KEM-768'') clk;
     k1024 \<leftarrow> kem_rows ''ML-KEM-1024'' (ml_kem_1024 lib) (draws ''ML-KEM-1024'') clk;
     ed \<leftarrow> ed25519_rows lib clk;
     ml \<leftarrow> mldsa_rows lib clk;
     load \<leftarrow> id_load lib clk;
     let one_load_median = st_median load;
     suite_sums \<leftarrow> suite_rows lib rnd phases one_load_median;
     Some \<lparr>tb_lines = x @ k768 @ k1024 @ ed @ ml @ [row ''identity load (from_bytes)'' SLOW_ITERS load],
       tb_load = one_load_median, tb_suites = suite_sums,
       tb_reconciliation = map (\<lambda>(label, (bm, rm, fm, loads, crypto_sum), wire). (label, reconcile crypto_sum wire)) suite_sums\<rparr>
   }"

section \<open>What the tables show\<close>

definition line_ok :: "line \<Rightarrow> bool" where
  "line_ok l \<longleftrightarrow> (case ln_spread l of None \<Rightarrow> 0 \<le> ln_median l | Some (p, m) \<Rightarrow> ln_median l \<le> p \<and> p \<le> m)"

lemma iters_pos: "0 < FAST_ITERS" "0 < SLOW_ITERS"
  by (simp_all add: FAST_ITERS_def SLOW_ITERS_def)

lemma bench_line: "0 < n \<Longrightarrow> \<exists>st. bench n elapsed = Some st \<and> (\<forall>name. line_ok (row name n st))"
  by (erule bench_ok [of n elapsed]) (auto simp: line_ok_def row_def)

lemma rounds_line:
  "0 < n \<Longrightarrow> (\<And>i. succeeds i) \<Longrightarrow> \<exists>st. bench_ok_rounds n succeeds elapsed = Some st \<and> (\<forall>name. line_ok (row name n st))"
  using bench_line [of n elapsed] by (simp add: bench_ok_rounds_def list_all_iff)

lemmas fast_line = bench_line [OF iters_pos(1)]
lemmas slow_line = bench_line [OF iters_pos(2)]

lemma x25519_ok: "\<exists>ls. x25519_rows clk = Some ls \<and> list_all line_ok ls \<and>
    map ln_name ls = [''X25519 keygen'', ''X25519 keygen+DH'', ''X25519 DH (derived)'']"
  using fast_line [of "clk ''X25519 keygen''"] fast_line [of "clk ''X25519 keygen+DH''"]
  by (auto simp: x25519_rows_def line_ok_def row_def)

lemma kem_rows_ok:
  assumes "kem_laws K ek_len ct_len"
  shows "\<exists>ls. kem_rows name K rnd clk = Some ls \<and> list_all line_ok ls \<and>
    map ln_name ls = [name @ '' keygen'', name @ '' encaps'', name @ '' decaps'']"
proof -
  obtain dk ek where g: "kem_generate K (rnd 0) = (dk, ek)" by fastforce
  have e: "\<exists>ct ss. kem_encapsulate K ek r = Some (ct, ss) \<and> kem_decapsulate K dk ct = Some ss" for r
    using assms g unfolding kem_laws_def by (metis fst_conv snd_conv)
  then obtain ct ss where ct: "kem_encapsulate K ek (rnd 1) = Some (ct, ss)" "kem_decapsulate K dk ct = Some ss" by blast
  have all: "kem_encapsulate K ek (rnd (2 + i)) \<noteq> None" for i using e [of "rnd (2 + i)"] by auto
  have dec: "kem_decapsulate K dk ct \<noteq> None" using ct(2) by simp
  obtain b where b: "bench_ok_rounds SLOW_ITERS (\<lambda>i. kem_encapsulate K ek (rnd (2 + i)) \<noteq> None) (clk (name @ '' encaps'')) = Some b"
      "\<forall>n. line_ok (row n SLOW_ITERS b)"
    using rounds_line [OF iters_pos(2), of "\<lambda>i. kem_encapsulate K ek (rnd (2 + i)) \<noteq> None"] all by blast
  obtain c where c: "bench_ok_rounds SLOW_ITERS (\<lambda>i. kem_decapsulate K dk ct \<noteq> None) (clk (name @ '' decaps'')) = Some c"
      "\<forall>n. line_ok (row n SLOW_ITERS c)"
    using rounds_line [OF iters_pos(2), of "\<lambda>i. kem_decapsulate K dk ct \<noteq> None"] dec by blast
  obtain a where a: "bench SLOW_ITERS (clk (name @ '' keygen'')) = Some a" "\<forall>n. line_ok (row n SLOW_ITERS a)"
    using slow_line [of "clk (name @ '' keygen'')"] by blast
  show ?thesis using g ct(1) a b c by (simp add: kem_rows_def row_def)
qed

lemma ed25519_ok:
  assumes "ed25519_laws lib"
  shows "\<exists>ls. ed25519_rows lib clk = Some ls \<and> list_all line_ok ls \<and> map ln_name ls = [''Ed25519 sign'', ''Ed25519 verify'']"
proof -
  have s: "\<exists>sg. ed_try_sign lib sk m = Some sg" for sk m using assms unfolding ed25519_laws_def by blast
  obtain sg where sg: "ed_try_sign lib (ed_from_bytes lib (replicate 32 0x11)) msg = Some sg" using s by blast
  then obtain a where a: "bench_ok_rounds FAST_ITERS (\<lambda>i. ed_try_sign lib (ed_from_bytes lib (replicate 32 0x11)) msg \<noteq> None)
      (clk ''Ed25519 sign'') = Some a" "\<forall>n. line_ok (row n FAST_ITERS a)"
    using rounds_line [OF iters_pos(1), of "\<lambda>i. ed_try_sign lib (ed_from_bytes lib (replicate 32 0x11)) msg \<noteq> None"] by blast
  obtain b where b: "bench FAST_ITERS (clk ''Ed25519 verify'') = Some b" "\<forall>n. line_ok (row n FAST_ITERS b)"
    using fast_line [of "clk ''Ed25519 verify''"] by blast
  show ?thesis using a b sg by (simp add: ed25519_rows_def row_def)
qed

lemma mldsa_ok:
  assumes "mldsa65_laws lib" "seed_laws lib"
  shows "\<exists>ls. mldsa_rows lib clk = Some ls \<and> list_all line_ok ls \<and>
    map ln_name ls = [''ML-DSA-65 keygen(seed)'', ''ML-DSA-65 sign'', ''ML-DSA-65 verify'']"
proof -
  have s: "ml_try_sign lib sk m \<noteq> None" for sk m using assms(1) unfolding mldsa65_laws_def by (metis option.distinct(1))
  obtain seed where seed: "ml_seed_try_from lib (replicate MLDSA65_SEED_LEN 0x22) = Some seed"
    using assms(2) by (fastforce simp: seed_laws_def MLDSA65_SEED_LEN_def)
  let ?sk = "ml_from_seed lib seed"
  obtain sg where sg: "ml_try_sign lib ?sk msg = Some sg" using s by blast
  obtain b where b: "bench_ok_rounds SLOW_ITERS (\<lambda>i. ml_try_sign lib ?sk (sign_msg (Suc i)) \<noteq> None) (clk ''ML-DSA-65 sign'') = Some b"
      "\<forall>n. line_ok (row n SLOW_ITERS b)"
    using rounds_line [OF iters_pos(2), of "\<lambda>i. ml_try_sign lib ?sk (sign_msg (Suc i)) \<noteq> None"] s by blast
  obtain a where a: "bench SLOW_ITERS (clk ''ML-DSA-65 keygen(seed)'') = Some a" "\<forall>n. line_ok (row n SLOW_ITERS a)"
    using slow_line [of "clk ''ML-DSA-65 keygen(seed)''"] by blast
  obtain c where c: "bench SLOW_ITERS (clk ''ML-DSA-65 verify'') = Some c" "\<forall>n. line_ok (row n SLOW_ITERS c)"
    using slow_line [of "clk ''ML-DSA-65 verify''"] by blast
  show ?thesis using a b c sg seed by (simp add: mldsa_rows_def row_def del: sign_msg.simps)
qed

lemma id_load_ok:
  assumes "crypto_laws lib" "seed_laws lib"
  shows "\<exists>st. id_load lib clk = Some st \<and> line_ok (row name SLOW_ITERS st)"
proof -
  obtain ids :: Ids where "identities lib = Some (ids_client ids, ids_server ids)"
    using build_identities_mutual [OF assms] by metis
  then obtain seed m where seed: "ml_seed_try_from lib (replicate MLDSA65_SEED_LEN 0x44) = Some seed"
    and m: "IdentityMaterial_from_bytes lib (replicate ED25519_SEED_LEN 0x11) (replicate MLDSA65_SEED_LEN 0x22)
      (ed_public lib (ed_from_bytes lib (replicate ED25519_SEED_LEN 0x33))) (ml_public lib (ml_from_seed lib seed)) = Inr m"
    by (auto simp: identities_def node_public_def Let_def split: option.split_asm sum.split_asm)
  show ?thesis using seed m
    rounds_line [OF iters_pos(2), of "\<lambda>i. \<exists>m. IdentityMaterial_from_bytes lib (replicate ED25519_SEED_LEN 0x11)
      (replicate MLDSA65_SEED_LEN 0x22) (ed_public lib (ed_from_bytes lib (replicate ED25519_SEED_LEN 0x33)))
      (ml_public lib (ml_from_seed lib seed)) = Inr m" "clk ''identity load (from_bytes)''"]
    by (auto simp: id_load_def)
qed

lemma sign_msg_byte:
  "n \<le> AUTH_MSG_LEN \<Longrightarrow> length (sign_msg n) = AUTH_MSG_LEN \<and>
     (\<forall>k < AUTH_MSG_LEN. sign_msg n ! k = (if k < n then 0x5a else 0xa5))"
proof (induction n)
  case 0
  then show ?case by (simp add: msg_def)
next
  case (Suc n)
  then show ?case by (auto simp: Let_def nth_list_update less_Suc_eq)
qed

lemma messages_differ: "inj_on sign_msg {1..WARMUP + SLOW_ITERS}"
proof (rule linorder_inj_onI)
  fix i j assume "i < j" "i \<in> {1..WARMUP + SLOW_ITERS}" "j \<in> {1..WARMUP + SLOW_ITERS}"
  then have "i < AUTH_MSG_LEN" "j \<le> AUTH_MSG_LEN" "i < j" by (auto simp: WARMUP_def SLOW_ITERS_def AUTH_MSG_LEN_def)
  then have "sign_msg i ! i = 0xa5" "sign_msg j ! i = 0x5a" using sign_msg_byte [of i] sign_msg_byte [of j] by simp_all
  then show "sign_msg i \<noteq> sign_msg j" by auto
qed auto

text \<open>The micro-benchmark completes and its tables are consistent. With working cryptography no
  measurement panics, whatever is drawn and however long it takes; the fifteen lines come in the printed
  order, each with median, 95th percentile and maximum in order, and the derived time is not negative;
  each suite's sum is that of its three phases and three identity loads, and the reconciliation compares
  it with the stated wire times. The ML-DSA signatures of all 1050 rounds are over different messages.\<close>

lemma crypto_ops_reports:
  assumes "crypto_laws lib" and "seed_laws lib"
  shows "\<exists>t b r f b' r' f'. crypto_ops_main lib draws clk rnd phases = Some t \<and>
    map ln_name (tb_lines t) = [''X25519 keygen'', ''X25519 keygen+DH'', ''X25519 DH (derived)'',
      ''ML-KEM-768 keygen'', ''ML-KEM-768 encaps'', ''ML-KEM-768 decaps'',
      ''ML-KEM-1024 keygen'', ''ML-KEM-1024 encaps'', ''ML-KEM-1024 decaps'', ''Ed25519 sign'', ''Ed25519 verify'',
      ''ML-DSA-65 keygen(seed)'', ''ML-DSA-65 sign'', ''ML-DSA-65 verify'', ''identity load (from_bytes)''] \<and>
    list_all line_ok (tb_lines t) \<and>
    tb_suites t = [(''0x01 (ML-KEM-768)'', (b, r, f, tb_load t * 3, b + r + f + tb_load t * 3), 1.37),
      (''0x02 (ML-KEM-1024)'', (b', r', f', tb_load t * 3, b' + r' + f' + tb_load t * 3), 1.49)] \<and>
    tb_reconciliation t = map (\<lambda>(l, (_, _, _, _, s), w). (l, 100 * s / w, w - s)) (tb_suites t) \<and>
    inj_on sign_msg {1..WARMUP + SLOW_ITERS}"
proof -
  have laws: "kem_laws (ml_kem_768 lib) 1184 1088" "kem_laws (ml_kem_1024 lib) 1568 1568" "ed25519_laws lib" "mldsa65_laws lib"
    using assms(1) by (simp_all add: crypto_laws_def)
  obtain x where x: "x25519_rows clk = Some x" "list_all line_ok x"
    "map ln_name x = [''X25519 keygen'', ''X25519 keygen+DH'', ''X25519 DH (derived)'']" using x25519_ok [of clk] by (elim exE conjE) (rule that)
  obtain k where k: "kem_rows ''ML-KEM-768'' (ml_kem_768 lib) (draws ''ML-KEM-768'') clk = Some k" "list_all line_ok k"
    "map ln_name k = [''ML-KEM-768 keygen'', ''ML-KEM-768 encaps'', ''ML-KEM-768 decaps'']"
    using kem_rows_ok [OF laws(1), of "''ML-KEM-768''" "draws ''ML-KEM-768''" clk] by (elim exE conjE) (rule that, simp_all)
  obtain k' where k': "kem_rows ''ML-KEM-1024'' (ml_kem_1024 lib) (draws ''ML-KEM-1024'') clk = Some k'" "list_all line_ok k'"
    "map ln_name k' = [''ML-KEM-1024 keygen'', ''ML-KEM-1024 encaps'', ''ML-KEM-1024 decaps'']"
    using kem_rows_ok [OF laws(2), of "''ML-KEM-1024''" "draws ''ML-KEM-1024''" clk] by (elim exE conjE) (rule that, simp_all)
  obtain e where e: "ed25519_rows lib clk = Some e" "list_all line_ok e" "map ln_name e = [''Ed25519 sign'', ''Ed25519 verify'']"
    using ed25519_ok [OF laws(3), of clk] by (elim exE conjE) (rule that)
  obtain m where m: "mldsa_rows lib clk = Some m" "list_all line_ok m"
    "map ln_name m = [''ML-DSA-65 keygen(seed)'', ''ML-DSA-65 sign'', ''ML-DSA-65 verify'']"
    using mldsa_ok [OF laws(4) assms(2), of clk] by (elim exE conjE) (rule that)
  obtain l where l: "id_load lib clk = Some l" "line_ok (row ''identity load (from_bytes)'' SLOW_ITERS l)"
    using id_load_ok [OF assms] by blast
  obtain b r f where s: "suite_sum lib NistStandard768 (rnd NistStandard768) (phases NistStandard768) (st_median l) =
      Some (b, r, f, st_median l * 3, b + r + f + st_median l * 3)" using suite_sum_ok [OF assms] by blast
  obtain b' r' f' where s': "suite_sum lib NistStandard1024 (rnd NistStandard1024) (phases NistStandard1024) (st_median l) =
      Some (b', r', f', st_median l * 3, b' + r' + f' + st_median l * 3)" using suite_sum_ok [OF assms] by blast
  define sums' where "sums' = [(''0x01 (ML-KEM-768)'', (b, r, f, st_median l * 3, b + r + f + st_median l * 3), 1.37),
      (''0x02 (ML-KEM-1024)'', (b', r', f', st_median l * 3, b' + r' + f' + st_median l * 3), 1.49 :: real)]"
  define t where "t = \<lparr>tb_lines = x @ k @ k' @ e @ m @ [row ''identity load (from_bytes)'' SLOW_ITERS l],
    tb_load = st_median l, tb_suites = sums',
    tb_reconciliation = map (\<lambda>(label, (bm, rm, fm, loads, crypto_sum), wire). (label, reconcile crypto_sum wire)) sums'\<rparr>"
  have "suite_rows lib rnd phases (st_median l) = Some sums'"
    by (simp only: suite_rows_def list.map prod.case s s' option.map those.simps option.case sums'_def)
  then have main: "crypto_ops_main lib draws clk rnd phases = Some t"
    by (simp only: crypto_ops_main_def x(1) k(1) k'(1) e(1) m(1) l(1) Option.bind.simps Let_def t_def)
  have names: "map ln_name (tb_lines t) = map ln_name x @ map ln_name k @ map ln_name k' @ map ln_name e @ map ln_name m @
      [''identity load (from_bytes)'']" by (simp add: t_def row_def)
  show ?thesis
  proof (intro exI conjI)
    show "crypto_ops_main lib draws clk rnd phases = Some t" by (fact main)
    show "list_all line_ok (tb_lines t)" using x(2) k(2) k'(2) e(2) m(2) l(2) by (simp add: t_def)
    show "map ln_name (tb_lines t) = [''X25519 keygen'', ''X25519 keygen+DH'', ''X25519 DH (derived)'',
      ''ML-KEM-768 keygen'', ''ML-KEM-768 encaps'', ''ML-KEM-768 decaps'',
      ''ML-KEM-1024 keygen'', ''ML-KEM-1024 encaps'', ''ML-KEM-1024 decaps'', ''Ed25519 sign'', ''Ed25519 verify'',
      ''ML-DSA-65 keygen(seed)'', ''ML-DSA-65 sign'', ''ML-DSA-65 verify'', ''identity load (from_bytes)'']"
      unfolding names x(3) k(3) k'(3) e(3) m(3) by (simp only: append_Cons append_Nil)
    show "tb_suites t = [(''0x01 (ML-KEM-768)'', (b, r, f, tb_load t * 3, b + r + f + tb_load t * 3), 1.37),
      (''0x02 (ML-KEM-1024)'', (b', r', f', tb_load t * 3, b' + r' + f' + tb_load t * 3), 1.49)]"
      by (simp only: t_def sums'_def tables.simps)
    show "tb_reconciliation t = map (\<lambda>(l, (_, _, _, _, s), w). (l, 100 * s / w, w - s)) (tb_suites t)"
      by (simp only: t_def tables.simps reconcile_def)
  qed (rule messages_differ)
qed

lemma crypto_ops_reports_example:
  "\<exists>t. crypto_ops_main toy_lib (\<lambda>_ _. [1]) (\<lambda>_ i. real i) (\<lambda>_ _. (([1], [2]), ([3], [4]))) (\<lambda>_ _. (1, 2, 3)) = Some t \<and>
     length (tb_lines t) = 15 \<and> list_all line_ok (tb_lines t)"
proof -
  have seeds: "seed_laws toy_lib" by (simp add: seed_laws_def toy_lib_def)
  from crypto_ops_reports [OF toy_crypto_laws seeds, of "\<lambda>_ _. [1]" "\<lambda>_ i. real i" "\<lambda>_ _. (([1], [2]), ([3], [4]))" "\<lambda>_ _. (1, 2, 3)"]
  show ?thesis
  proof (elim exE conjE)
    fix t
    assume t: "crypto_ops_main toy_lib (\<lambda>_ _. [1]) (\<lambda>_ i. real i) (\<lambda>_ _. (([1], [2]), ([3], [4]))) (\<lambda>_ _. (1, 2, 3)) = Some t"
      "list_all line_ok (tb_lines t)"
    assume "map ln_name (tb_lines t) = [''X25519 keygen'', ''X25519 keygen+DH'', ''X25519 DH (derived)'',
      ''ML-KEM-768 keygen'', ''ML-KEM-768 encaps'', ''ML-KEM-768 decaps'',
      ''ML-KEM-1024 keygen'', ''ML-KEM-1024 encaps'', ''ML-KEM-1024 decaps'', ''Ed25519 sign'', ''Ed25519 verify'',
      ''ML-DSA-65 keygen(seed)'', ''ML-DSA-65 sign'', ''ML-DSA-65 verify'', ''identity load (from_bytes)'']"
    from arg_cong [OF this, of length] have "length (tb_lines t) = 15" by simp
    with t show ?thesis by blast
  qed
qed

end
