(* ===== verification/Wire_Frame.thy ===== *)
theory Wire_Frame
  imports Overlay_Prelude
begin

text \<open>
  The length-prefixed frames of \<open>src/interceptor.rs\<close>: constants, \<open>frame\<close>, \<open>try_pop_frame\<close>.
  A frame is a four-byte big-endian body length, the suite id, the frame type and the payload.
  The interface \<open>framing\<close> collects what the byte-stream layers promise to their clients; the
  record path and the socket handshake both provide it.
\<close>

section \<open>Constants\<close>

definition MAX_WIRE_RX_BUFFER :: nat where "MAX_WIRE_RX_BUFFER = 16 * 1024 * 1024"
definition MAX_WRITE_BACKLOG :: nat where "MAX_WRITE_BACKLOG = 16 * 1024 * 1024"
definition MAX_PLAIN_RX_BUFFER :: nat where "MAX_PLAIN_RX_BUFFER = 16 * 1024 * 1024"

definition HDR_LEN :: nat where "HDR_LEN = 4"
definition TYPE_CLIENT_HELLO :: u8 where "TYPE_CLIENT_HELLO = 1"
definition TYPE_SERVER_HELLO :: u8 where "TYPE_SERVER_HELLO = 2"
definition TYPE_DATA :: u8 where "TYPE_DATA = 3"
definition TYPE_FALLBACK_HELLO :: u8 where "TYPE_FALLBACK_HELLO = 4"
definition TYPE_FALLBACK_FINISHED :: u8 where "TYPE_FALLBACK_FINISHED = 5"
definition FALLBACK_WIRE_ID :: u8 where "FALLBACK_WIRE_ID = 0xFE"
definition MAX_FRAME_BODY :: nat where "MAX_FRAME_BODY = MAX_WIRE_RX_BUFFER - HDR_LEN"
definition MAX_RECORD_PLAINTEXT :: nat where "MAX_RECORD_PLAINTEXT = 64 * 1024"
definition MAX_IOV_COPY :: nat where "MAX_IOV_COPY = 16 * 1024 * 1024"

lemmas wire_consts = MAX_WIRE_RX_BUFFER_def MAX_WRITE_BACKLOG_def MAX_PLAIN_RX_BUFFER_def
  HDR_LEN_def MAX_FRAME_BODY_def MAX_RECORD_PLAINTEXT_def MAX_IOV_COPY_def

lemmas frame_types = TYPE_CLIENT_HELLO_def TYPE_SERVER_HELLO_def TYPE_DATA_def
  TYPE_FALLBACK_HELLO_def TYPE_FALLBACK_FINISHED_def

section \<open>Frames\<close>

text \<open>\<open>checked_add\<close> on a 64-bit \<open>usize\<close> and the body limit are the two errors.\<close>

definition frame :: "u8 \<Rightarrow> u8 \<Rightarrow> bytes \<Rightarrow> unit + bytes" where
  "frame suite_id tag payload =
     (let body_len = 2 + length payload in
      if body_len \<ge> 2 ^ 64 then Inl ()
      else if body_len > MAX_FRAME_BODY then Inl ()
      else Inr (u32_to_be (word_of_nat body_len) @ [suite_id, tag] @ payload))"

record ParsedFrame =
  pf_suite_id :: u8
  pf_tag :: u8
  pf_payload :: bytes

text \<open>The buffer after the call is the second component: the frame's bytes are drained only when
  a whole frame is there.\<close>

definition try_pop_frame :: "bytes \<Rightarrow> (unit + ParsedFrame option) \<times> bytes" where
  "try_pop_frame rx_wire =
     (if length rx_wire < HDR_LEN then (Inr None, rx_wire)
      else let body_len = unat (u32_from_be (take HDR_LEN rx_wire)) in
        if \<not> (2 \<le> body_len \<and> body_len \<le> MAX_FRAME_BODY) then (Inl (), rx_wire)
        else if length rx_wire < HDR_LEN + body_len then (Inr None, rx_wire)
        else (Inr (Some \<lparr>pf_suite_id = rx_wire ! HDR_LEN, pf_tag = rx_wire ! (HDR_LEN + 1),
                        pf_payload = bslice (HDR_LEN + 2) (HDR_LEN + body_len) rx_wire\<rparr>),
              drop (HDR_LEN + body_len) rx_wire))"

section \<open>The framing interface\<close>

text \<open>\<open>enc\<close> serialises a message; \<open>dec\<close> takes one message off the front of a byte stream.\<close>

locale framing =
  fixes enc :: "'m \<Rightarrow> 'e + bytes" and dec :: "bytes \<Rightarrow> ('m \<times> bytes) option"
  assumes dec_enc: "enc m = Inr f \<Longrightarrow> dec (f @ rest) = Some (m, rest)"
    and dec_only_enc: "dec s = Some (m, rest) \<Longrightarrow> \<exists>f. enc m = Inr f \<and> s = f @ rest"

text \<open>Taking messages one after the other.\<close>

inductive decodes :: "(bytes \<Rightarrow> ('m \<times> bytes) option) \<Rightarrow> bytes \<Rightarrow> 'm list \<Rightarrow> bytes \<Rightarrow> bool" for dec where
  decodes_Nil: "decodes dec s [] s"
| decodes_Cons: "dec s = Some (m, r) \<Longrightarrow> decodes dec r ms t \<Longrightarrow> decodes dec s (m # ms) t"

inductive_simps decodes_Nil_iff: "decodes dec s [] t"
inductive_simps decodes_Cons_iff: "decodes dec s (m # ms) t"

context framing
begin

lemma unambiguous:
  "enc m = Inr f \<Longrightarrow> enc m' = Inr f' \<Longrightarrow> f @ r = f' @ r' \<Longrightarrow> m = m' \<and> r = r'"
  using dec_enc by (metis option.inject prod.inject)

lemma stream_decodes:
  "list_all2 (\<lambda>m f. enc m = Inr f) ms fs \<Longrightarrow> decodes dec (concat fs @ rest) ms rest"
  by (induction rule: list_all2_induct) (auto simp: decodes_Nil_iff decodes_Cons_iff dec_enc)

lemma decodes_only_stream:
  "decodes dec s ms rest \<Longrightarrow> \<exists>fs. list_all2 (\<lambda>m f. enc m = Inr f) ms fs \<and> s = concat fs @ rest"
proof (induction rule: decodes.induct)
  case (decodes_Nil s)
  then show ?case by (intro exI [of _ "[]"]) simp
next
  case (decodes_Cons s m r ms t)
  then obtain fs f where "list_all2 (\<lambda>m f. enc m = Inr f) ms fs" "r = concat fs @ t"
    "enc m = Inr f" "s = f @ r" using dec_only_enc by blast
  then show ?case by (intro exI [of _ "f # fs"]) simp
qed

end

section \<open>The record frames provide it\<close>

definition frame_enc :: "ParsedFrame \<Rightarrow> unit + bytes" where
  "frame_enc p = frame (pf_suite_id p) (pf_tag p) (pf_payload p)"

definition frame_dec :: "bytes \<Rightarrow> (ParsedFrame \<times> bytes) option" where
  "frame_dec s = (case try_pop_frame s of (Inr (Some p), r) \<Rightarrow> Some (p, r) | _ \<Rightarrow> None)"

lemma frame_Inr_iff [result_iff]:
  "frame i t p = Inr f \<longleftrightarrow> length p + 6 \<le> MAX_WIRE_RX_BUFFER \<and>
     f = u32_to_be (word_of_nat (2 + length p)) @ [i, t] @ p"
  by (auto simp: frame_def Let_def wire_consts)

lemma frame_length: "frame i t p = Inr f \<Longrightarrow> length f = length p + 6"
  by (simp add: frame_Inr_iff)

lemma frame_fits: "frame i t p = Inr f \<Longrightarrow> length f \<le> MAX_WRITE_BACKLOG"
  by (auto simp: frame_Inr_iff wire_consts)

lemma unat_frame_len:
  "n + 6 \<le> MAX_WIRE_RX_BUFFER \<Longrightarrow> unat (word_of_nat (2 + n) :: u32) = 2 + n"
  by (subst unat_of_nat) (simp add: wire_consts)

lemma try_pop_frame_frame:
  assumes "frame i t p = Inr f"
  shows "try_pop_frame (f @ rest) =
    (Inr (Some \<lparr>pf_suite_id = i, pf_tag = t, pf_payload = p\<rparr>), rest)"
proof -
  from assms have len: "length p + 6 \<le> MAX_WIRE_RX_BUFFER"
    and f: "f = u32_to_be (word_of_nat (2 + length p)) @ [i, t] @ p" by (auto simp: frame_Inr_iff)
  have "take HDR_LEN (f @ rest) = u32_to_be (word_of_nat (2 + length p))"
    by (simp add: f HDR_LEN_def)
  then have body: "unat (u32_from_be (take HDR_LEN (f @ rest))) = 2 + length p"
    by (simp only: u32_from_to_be unat_frame_len [OF len])
  have "bslice 6 (length p + 6) (f @ rest) = p" by (simp add: f bslice_def nth_append)
  moreover have "(f @ rest) ! 4 = i" "(f @ rest) ! 5 = t" by (simp_all add: f nth_append)
  ultimately show ?thesis
    using len body by (simp add: try_pop_frame_def HDR_LEN_def f MAX_FRAME_BODY_def add.commute)
qed

lemma try_pop_frame_Some:
  assumes "try_pop_frame s = (Inr (Some p), r)"
  shows "\<exists>f. frame_enc p = Inr f \<and> s = f @ r"
proof -
  define n where "n = unat (u32_from_be (take 4 s))"
  from assms have s: "\<not> length s < 4" "2 \<le> n" "n \<le> 16777212" "\<not> length s < 4 + n"
    and p: "p = \<lparr>pf_suite_id = s ! 4, pf_tag = s ! 5, pf_payload = bslice 6 (4 + n) s\<rparr>"
    and r: "r = drop (4 + n) s"
    by (auto simp: try_pop_frame_def Let_def wire_consts n_def split: if_split_asm)
  let ?pl = "bslice 6 (4 + n) s"
  have len: "length ?pl = n - 2" using s by simp
  have "drop 4 s = s ! 4 # s ! 5 # drop 6 s"
    using s(1,2,4) Cons_nth_drop_Suc [of 4 s] Cons_nth_drop_Suc [of 5 s] by simp
  then have two: "[s ! 4, s ! 5] = bslice 4 6 s" by (simp add: bslice_def)
  have "u32_to_be (word_of_nat (2 + (n - 2))) = take 4 s"
  proof -
    have "word_of_nat n = u32_from_be (take 4 s)" unfolding n_def by (simp only: of_nat_unat ucast_id)
    moreover have "length (take 4 s) = 4" using s by simp
    ultimately show ?thesis using s(2) u32_to_from_be [of "take 4 s"] by simp
  qed
  then have "frame_enc p = Inr (take 4 s @ bslice 4 6 s @ ?pl)"
    using s len by (simp add: frame_enc_def frame_Inr_iff p two wire_consts)
  moreover have "take 4 s @ bslice 4 6 s @ ?pl = take (4 + n) s"
    using bslice_split [of 4 6 "4 + n" s] bslice_split [of 0 4 "4 + n" s] s(2)
    by (simp add: take_eq_bslice)
  ultimately show ?thesis by (auto simp: r)
qed

interpretation fr: framing frame_enc frame_dec
proof unfold_locales
  fix m f rest assume "frame_enc m = Inr f"
  then show "frame_dec (f @ rest) = Some (m, rest)"
    by (simp add: frame_enc_def frame_dec_def try_pop_frame_frame)
next
  fix s m rest assume "frame_dec s = Some (m, rest)"
  then show "\<exists>f. frame_enc m = Inr f \<and> s = f @ rest"
    by (intro try_pop_frame_Some)
      (auto simp: frame_dec_def split: prod.split_asm sum.split_asm option.split_asm)
qed

lemma try_pop_frame_shrinks:
  "try_pop_frame s = (Inr (Some p), r) \<Longrightarrow> length r < length s"
  by (auto simp: try_pop_frame_def Let_def HDR_LEN_def split: if_split_asm)

lemma try_pop_frame_keeps:
  "try_pop_frame s = (x, r) \<Longrightarrow> x = Inl () \<or> x = Inr None \<Longrightarrow> r = s"
  by (auto simp: try_pop_frame_def Let_def split: if_split_asm)

lemma try_pop_frame_length: "length (snd (try_pop_frame s)) \<le> length s"
  by (simp add: try_pop_frame_def Let_def)

text \<open>Part of a frame is never an error and never a frame: the decoder waits for the rest.\<close>

lemma try_pop_frame_partial:
  assumes "frame i t p = Inr (a @ b)" and "b \<noteq> []"
  shows "try_pop_frame a = (Inr None, a)"
proof (cases "length a < 4")
  case False
  from assms(1) have len: "length p + 6 \<le> MAX_WIRE_RX_BUFFER"
    and f: "a @ b = u32_to_be (word_of_nat (2 + length p)) @ [i, t] @ p" by (auto simp: frame_Inr_iff)
  have "take 4 a = take 4 (a @ b)" using False by simp
  also have "\<dots> = u32_to_be (word_of_nat (2 + length p))" by (simp add: f)
  finally have body: "unat (u32_from_be (take 4 a)) = 2 + length p"
    by (simp only: u32_from_to_be unat_frame_len [OF len])
  have "length a + length b = 6 + length p" using arg_cong [OF f, of length] by simp
  then have "length a < 6 + length p" using assms(2) by (cases b) auto
  then show ?thesis using body len False by (simp add: try_pop_frame_def wire_consts)
qed (simp add: try_pop_frame_def HDR_LEN_def)

section \<open>Segmented delivery\<close>

lemma try_pop_frame_Nil [simp]: "try_pop_frame [] = (Inr None, [])"
  by (simp add: try_pop_frame_def HDR_LEN_def)

lemma prefix_decodes:
  "list_all2 (\<lambda>m f. frame_enc m = Inr f) ms fs \<Longrightarrow> concat fs = s @ u \<Longrightarrow>
     \<exists>n rest. decodes frame_dec s (take n ms) rest \<and> s = concat (take n fs) @ rest \<and>
       try_pop_frame rest = (Inr None, rest)"
proof (induction ms fs arbitrary: s rule: list_all2_induct)
  case Nil
  then show ?case by (auto simp: decodes_Nil_iff)
next
  case (Cons m ms f fs)
  then have "f @ concat fs = s @ u" by simp
  then obtain v where "f = s @ v \<and> v @ concat fs = u \<or> f @ v = s \<and> concat fs = v @ u"
    by (auto simp: append_eq_append_conv2)
  then consider v where "s = f @ v" "concat fs = v @ u" | v where "f = s @ v" "v \<noteq> []"
    by (cases "v = []") auto
  then show ?case
  proof cases
    case 1
    with Cons.IH obtain n rest where "decodes frame_dec v (take n ms) rest"
      "v = concat (take n fs) @ rest" "try_pop_frame rest = (Inr None, rest)" by blast
    then show ?thesis using 1 fr.dec_enc [OF Cons.hyps(1)]
      by (intro exI [of _ "Suc n"] exI [of _ rest]) (simp add: decodes_Cons_iff)
  next
    case 2
    then have "try_pop_frame s = (Inr None, s)"
      using try_pop_frame_partial Cons.hyps(1) by (simp add: frame_enc_def)
    then show ?thesis by (intro exI [of _ 0] exI [of _ s]) (simp add: decodes_Nil_iff)
  qed
qed

text \<open>C24. Frames survive segmentation: however much of a stream of frames has arrived, taking
  frames off the receive buffer yields exactly the frames that are completely there, unchanged and
  in order, and then the decoder waits, without an error, on precisely the bytes of the next
  incomplete frame.\<close>

theorem frame_stream_segmented:
  assumes "list_all2 (\<lambda>m f. frame (pf_suite_id m) (pf_tag m) (pf_payload m) = Inr f) ms fs"
    and "concat fs = s @ u"
  shows "\<exists>n rest. decodes frame_dec s (take n ms) rest \<and> s = concat (take n fs) @ rest \<and>
     try_pop_frame rest = (Inr None, rest)"
  using prefix_decodes [OF assms(1) [folded frame_enc_def] assms(2)] .

theorem frame_stream_segmented_witness:
  "\<exists>n rest. decodes frame_dec [0, 0, 0, 3, 1, 3, 7, 0, 0]
       (take n [\<lparr>pf_suite_id = 1, pf_tag = 3, pf_payload = [7]\<rparr>, \<lparr>pf_suite_id = 1, pf_tag = 3, pf_payload = []\<rparr>])
       rest \<and>
     [0, 0, 0, 3, 1, 3, 7, 0, 0] = concat (take n [[0, 0, 0, 3, 1, 3, 7], [0, 0, 0, 2, 1, 3]]) @ rest \<and>
     try_pop_frame rest = (Inr None, rest)"
proof -
  have "u32_to_be 3 = [0, 0, 0, 3]" "u32_to_be 2 = [0, 0, 0, 2]" by code_simp+
  then show ?thesis
    by (intro frame_stream_segmented [where u = "[0, 2, 1, 3]"]) (simp_all add: frame_Inr_iff wire_consts)
qed

end
