(* ===== verification/Fd_State.thy ===== *)
theory Fd_State
  imports Wire_Frame Runtime_Config
begin

text \<open>
  Per-descriptor session state (\<open>src/fd_state.rs\<close>): the phases, the three bounded buffers, the
  transitions \<open>activate\<close>, \<open>fail_closed\<close> and \<open>drop\<close> with the process metrics they maintain, and
  the invariant that every later operation keeps. Reads of process-wide values (process id,
  clock, configuration epoch, runtime configuration, environment) go through a snapshot \<open>ctx\<close>
  of what they return at that moment.
\<close>

section \<open>Process snapshot and metrics\<close>

text \<open>\<open>ctx_now\<close> is the monotonic clock. \<open>ctx_x25519\<close>, \<open>ctx_kem\<close> and \<open>ctx_nonce\<close> are what the
  system random generator delivers next for an X25519 secret, a KEM operation and a fallback
  nonce.\<close>

record ctx =
  ctx_pid :: int
  ctx_now :: nat
  ctx_epoch :: u64
  ctx_config :: config_lock
  ctx_sources :: sources
  ctx_x25519 :: bytes
  ctx_kem :: bytes
  ctx_nonce :: bytes

record RuntimeMetrics =
  active_sessions :: int
  handshake_latency :: "nat list"
  blocked_bypass_attempts :: nat
  config_epoch_reloads :: nat
  fallback_activations :: nat
  downgrade_attacks_detected :: nat

definition RUNTIME_METRICS_new :: RuntimeMetrics where
  "RUNTIME_METRICS_new =
     \<lparr>active_sessions = 0, handshake_latency = [], blocked_bypass_attempts = 0,
      config_epoch_reloads = 0, fallback_activations = 0, downgrade_attacks_detected = 0\<rparr>"

definition current_pid :: "ctx \<Rightarrow> int" where "current_pid c = ctx_pid c"
definition current_config_epoch :: "ctx \<Rightarrow> u64" where "current_config_epoch c = ctx_epoch c"

definition record_blocked_bypass_attempt :: "RuntimeMetrics \<Rightarrow> RuntimeMetrics" where
  "record_blocked_bypass_attempt m = m\<lparr>blocked_bypass_attempts := blocked_bypass_attempts m + 1\<rparr>"

definition record_config_epoch_reload :: "RuntimeMetrics \<Rightarrow> RuntimeMetrics" where
  "record_config_epoch_reload m = m\<lparr>config_epoch_reloads := config_epoch_reloads m + 1\<rparr>"

definition record_fallback_activation :: "RuntimeMetrics \<Rightarrow> RuntimeMetrics" where
  "record_fallback_activation m = m\<lparr>fallback_activations := fallback_activations m + 1\<rparr>"

definition record_downgrade_attack :: "RuntimeMetrics \<Rightarrow> RuntimeMetrics" where
  "record_downgrade_attack m = m\<lparr>downgrade_attacks_detected := downgrade_attacks_detected m + 1\<rparr>"

section \<open>Session state\<close>

datatype BufferError = LimitExceeded

datatype FdPhase =
    InitiatorAwaitingServerHello InitiatorState
  | InitiatorAwaitingFallbackFinished FallbackInitiator
  | ResponderAwaitingClientHello
  | Active SessionKeys
  | Failed

record FdState =
  phase :: FdPhase
  owner_pid :: int
  policy_suite :: CipherSuite
  config_epoch :: u64
  tx_backlog :: bytes
  rx_wire :: bytes
  rx_plain :: bytes
  handshake_started :: "nat option"
  counted_active :: bool

definition FdState_responder :: "ctx \<Rightarrow> CipherSuite \<Rightarrow> FdState" where
  "FdState_responder c suite =
     \<lparr>phase = ResponderAwaitingClientHello, owner_pid = current_pid c, policy_suite = suite,
      config_epoch = current_config_epoch c, tx_backlog = [], rx_wire = [], rx_plain = [],
      handshake_started = Some (ctx_now c), counted_active = False\<rparr>"

definition FdState_initiator :: "ctx \<Rightarrow> CipherSuite \<Rightarrow> InitiatorState \<Rightarrow> bytes \<Rightarrow> FdState" where
  "FdState_initiator c suite state client_hello_frame =
     \<lparr>phase = InitiatorAwaitingServerHello state, owner_pid = current_pid c, policy_suite = suite,
      config_epoch = current_config_epoch c, tx_backlog = client_hello_frame, rx_wire = [],
      rx_plain = [], handshake_started = Some (ctx_now c), counted_active = False\<rparr>"

definition FdState_fallback_initiator ::
  "ctx \<Rightarrow> CipherSuite \<Rightarrow> FallbackInitiator \<Rightarrow> bytes \<Rightarrow> FdState" where
  "FdState_fallback_initiator c suite state fallback_hello_frame =
     \<lparr>phase = InitiatorAwaitingFallbackFinished state, owner_pid = current_pid c, policy_suite = suite,
      config_epoch = current_config_epoch c, tx_backlog = fallback_hello_frame, rx_wire = [],
      rx_plain = [], handshake_started = Some (ctx_now c), counted_active = False\<rparr>"

definition FdState_failed :: "ctx \<Rightarrow> CipherSuite \<Rightarrow> FdState" where
  "FdState_failed c suite =
     \<lparr>phase = Failed, owner_pid = current_pid c, policy_suite = suite,
      config_epoch = current_config_epoch c, tx_backlog = [], rx_wire = [], rx_plain = [],
      handshake_started = None, counted_active = False\<rparr>"

lemmas FdState_new_defs = FdState_responder_def FdState_initiator_def FdState_fallback_initiator_def
  FdState_failed_def

section \<open>Bounded buffers\<close>

text \<open>\<open>saturating_sub\<close> is subtraction on naturals.\<close>

definition append_bounded :: "bytes \<Rightarrow> bytes \<Rightarrow> nat \<Rightarrow> (BufferError + unit) \<times> bytes" where
  "append_bounded buf bs limit =
     (if length bs > limit - length buf then (Inl LimitExceeded, buf) else (Inr (), buf @ bs))"

definition append_tx :: "bytes \<Rightarrow> FdState \<Rightarrow> (BufferError + unit) \<times> FdState" where
  "append_tx bs self =
     (let (r, buf) = append_bounded (tx_backlog self) bs MAX_WRITE_BACKLOG in (r, self\<lparr>tx_backlog := buf\<rparr>))"

definition append_rx_wire :: "bytes \<Rightarrow> FdState \<Rightarrow> (BufferError + unit) \<times> FdState" where
  "append_rx_wire bs self =
     (let (r, buf) = append_bounded (rx_wire self) bs MAX_WIRE_RX_BUFFER in (r, self\<lparr>rx_wire := buf\<rparr>))"

definition append_rx_plain :: "bytes \<Rightarrow> FdState \<Rightarrow> (BufferError + unit) \<times> FdState" where
  "append_rx_plain bs self =
     (let (r, buf) = append_bounded (rx_plain self) bs MAX_PLAIN_RX_BUFFER in (r, self\<lparr>rx_plain := buf\<rparr>))"

section \<open>Transitions\<close>

definition fail_closed :: "FdState \<Rightarrow> RuntimeMetrics \<Rightarrow> FdState \<times> RuntimeMetrics" where
  "fail_closed self m =
     (let m' = (if counted_active self then m\<lparr>active_sessions := active_sessions m - 1\<rparr> else m)
      in (self\<lparr>counted_active := False, tx_backlog := [], rx_wire := [], rx_plain := [], phase := Failed\<rparr>, m'))"

definition activate :: "ctx \<Rightarrow> SessionKeys \<Rightarrow> FdState \<Rightarrow> RuntimeMetrics \<Rightarrow> FdState \<times> RuntimeMetrics" where
  "activate c keys self m =
     (let m1 = (if \<not> counted_active self then m\<lparr>active_sessions := active_sessions m + 1\<rparr> else m);
          m2 = (case handshake_started self of
                  Some started \<Rightarrow> m1\<lparr>handshake_latency := handshake_latency m1 @ [ctx_now c - started]\<rparr>
                | None \<Rightarrow> m1)
      in (self\<lparr>counted_active := True, handshake_started := None, phase := Active keys\<rparr>, m2))"

definition is_idle_for_config_reload :: "FdState \<Rightarrow> bool" where
  "is_idle_for_config_reload self \<longleftrightarrow> tx_backlog self = [] \<and> rx_wire self = [] \<and> rx_plain self = []"

definition fail_if_stale_idle_config ::
  "ctx \<Rightarrow> FdState \<Rightarrow> RuntimeMetrics \<Rightarrow> bool \<times> FdState \<times> RuntimeMetrics" where
  "fail_if_stale_idle_config c self m =
     (if config_epoch self = current_config_epoch c then (False, self, m)
      else if is_idle_for_config_reload self then
        let (self', m') = fail_closed self m
        in (True, self'\<lparr>config_epoch := current_config_epoch c\<rparr>, m')
      else (False, self, m))"

text \<open>\<open>Drop for FdState\<close>: what remains of a dropped state is its effect on the gauge.\<close>

definition FdState_drop :: "FdState \<Rightarrow> RuntimeMetrics \<Rightarrow> RuntimeMetrics" where
  "FdState_drop self m =
     (if counted_active self then m\<lparr>active_sessions := active_sessions m - 1\<rparr> else m)"

section \<open>The bounded-buffer interface\<close>

text \<open>An append either takes the whole chunk or refuses it and leaves the buffer as it was.\<close>

locale bounded_buffer =
  fixes append :: "bytes \<Rightarrow> 's \<Rightarrow> (BufferError + unit) \<times> 's"
    and buf :: "'s \<Rightarrow> bytes" and put :: "bytes \<Rightarrow> 's \<Rightarrow> 's" and limit :: nat
  assumes append_fits: "length (buf s) + length bs \<le> limit \<Longrightarrow> append bs s = (Inr (), put (buf s @ bs) s)"
    and append_full: "limit < length (buf s) + length bs \<Longrightarrow> length (buf s) \<le> limit \<Longrightarrow>
      append bs s = (Inl LimitExceeded, s)"
    and buf_put: "buf (put b s) = b"
begin

lemma append_cases:
  assumes "length (buf s) \<le> limit"
  obtains (fits) "length (buf s) + length bs \<le> limit" "append bs s = (Inr (), put (buf s @ bs) s)"
  | (full) "limit < length (buf s) + length bs" "append bs s = (Inl LimitExceeded, s)"
  using assms append_fits append_full by (cases "length (buf s) + length bs \<le> limit") auto

lemma append_bounded: "length (buf s) \<le> limit \<Longrightarrow> length (buf (snd (append bs s))) \<le> limit"
  by (rule append_cases [of s bs]) (auto simp: buf_put)

lemma append_Inr_iff:
  "length (buf s) \<le> limit \<Longrightarrow>
     append bs s = (Inr (), s') \<longleftrightarrow> length (buf s) + length bs \<le> limit \<and> s' = put (buf s @ bs) s"
  by (rule append_cases [of s bs]) auto

end

interpretation txb: bounded_buffer append_tx tx_backlog "\<lambda>b. tx_backlog_update (\<lambda>_. b)" MAX_WRITE_BACKLOG
  by unfold_locales (auto simp: append_tx_def append_bounded_def)

interpretation rxw: bounded_buffer append_rx_wire rx_wire "\<lambda>b. rx_wire_update (\<lambda>_. b)" MAX_WIRE_RX_BUFFER
  by unfold_locales (auto simp: append_rx_wire_def append_bounded_def)

interpretation rxp: bounded_buffer append_rx_plain rx_plain "\<lambda>b. rx_plain_update (\<lambda>_. b)" MAX_PLAIN_RX_BUFFER
  by unfold_locales (auto simp: append_rx_plain_def append_bounded_def)

section \<open>Invariant\<close>

fun is_Active :: "FdPhase \<Rightarrow> bool" where
  "is_Active (Active k) = True"
| "is_Active _ = False"

definition fd_inv :: "FdState \<Rightarrow> bool" where
  "fd_inv s \<longleftrightarrow>
     (counted_active s \<longleftrightarrow> is_Active (phase s)) \<and>
     length (tx_backlog s) \<le> MAX_WRITE_BACKLOG \<and>
     length (rx_wire s) \<le> MAX_WIRE_RX_BUFFER \<and>
     length (rx_plain s) \<le> MAX_PLAIN_RX_BUFFER \<and>
     (phase s = Failed \<longrightarrow> tx_backlog s = [] \<and> rx_wire s = [] \<and> rx_plain s = [])"

text \<open>What the gauge owes to one state.\<close>

definition load :: "FdState \<Rightarrow> int" where
  "load s = (if counted_active s then 1 else 0)"

text \<open>An operation on one state is balanced when it keeps the invariant, moves the gauge exactly
  with the state, and leaves owner and suite alone.\<close>

definition balanced :: "FdState \<times> RuntimeMetrics \<Rightarrow> FdState \<times> RuntimeMetrics \<Rightarrow> bool" where
  "balanced x y \<longleftrightarrow>
     fd_inv (fst y) \<and>
     active_sessions (snd y) - load (fst y) = active_sessions (snd x) - load (fst x) \<and>
     owner_pid (fst y) = owner_pid (fst x) \<and> policy_suite (fst y) = policy_suite (fst x)"

lemma balanced_refl [simp]: "balanced x x \<longleftrightarrow> fd_inv (fst x)"
  by (auto simp: balanced_def)

lemma balanced_trans: "balanced x y \<Longrightarrow> balanced y z \<Longrightarrow> balanced x z"
  by (auto simp: balanced_def)

lemma fail_closed_phase [simp]: "phase (fst (fail_closed s m)) = Failed"
  by (simp add: fail_closed_def Let_def)

lemma fail_closed_buffers [simp]:
  "tx_backlog (fst (fail_closed s m)) = []" "rx_wire (fst (fail_closed s m)) = []"
  "rx_plain (fst (fail_closed s m)) = []"
  by (simp_all add: fail_closed_def Let_def)

lemma fail_closedD:
  "fail_closed s m = (s', m') \<Longrightarrow>
     phase s' = Failed \<and> tx_backlog s' = [] \<and> rx_wire s' = [] \<and> rx_plain s' = []"
  by (auto simp: fail_closed_def Let_def)

lemma fail_closed_balanced: "balanced (s, m) (fail_closed s m)"
  by (auto simp: balanced_def fail_closed_def fd_inv_def load_def Let_def)

lemma activate_balanced:
  "length (tx_backlog s) \<le> MAX_WRITE_BACKLOG \<Longrightarrow> length (rx_wire s) \<le> MAX_WIRE_RX_BUFFER \<Longrightarrow>
     length (rx_plain s) \<le> MAX_PLAIN_RX_BUFFER \<Longrightarrow> balanced (s, m) (activate c k s m)"
  by (auto simp: balanced_def activate_def fd_inv_def load_def Let_def split: option.split)

lemma new_states_inv:
  "fd_inv (FdState_responder c s)" "fd_inv (FdState_failed c s)"
  "length f \<le> MAX_WRITE_BACKLOG \<Longrightarrow> fd_inv (FdState_initiator c s i f)"
  "length f \<le> MAX_WRITE_BACKLOG \<Longrightarrow> fd_inv (FdState_fallback_initiator c s j f)"
  by (auto simp: fd_inv_def FdState_new_defs)

lemma new_states_load:
  "load (FdState_responder c s) = 0" "load (FdState_failed c s) = 0"
  "load (FdState_initiator c s i f) = 0" "load (FdState_fallback_initiator c s j f) = 0"
  by (simp_all add: load_def FdState_new_defs)

lemma drop_gauge: "active_sessions (FdState_drop s m) = active_sessions m - load s"
  by (simp add: FdState_drop_def load_def)

lemma stale_balanced:
  "fd_inv s \<Longrightarrow> fail_if_stale_idle_config c s m = (b, s', m') \<Longrightarrow> balanced (s, m) (s', m')"
  by (auto simp: fail_if_stale_idle_config_def fail_closed_def balanced_def fd_inv_def load_def Let_def
      split: if_split_asm)

end
