(* ===== verification/Posture.thy ===== *)
theory Posture
  imports Overlay_Prelude
begin

text \<open>
  The availability posture of \<open>src/kernel_native.rs\<close>: what a node does when its control plane is
  healthy, degraded with a pre-shared key, or degraded without one. There is no plaintext value.
\<close>

datatype AvailabilityPosture = FullPqc | EncryptedFallback | FailClosed

fun select_posture :: "bool \<Rightarrow> bool \<Rightarrow> AvailabilityPosture" where
  "select_posture True _ = FullPqc"
| "select_posture False True = EncryptedFallback"
| "select_posture False False = FailClosed"

lemma select_posture_fallback_iff:
  "select_posture healthy psk = EncryptedFallback \<longleftrightarrow> \<not> healthy \<and> psk"
  by (cases healthy; cases psk) simp_all

lemma select_posture_full_iff: "select_posture healthy psk = FullPqc \<longleftrightarrow> healthy"
  by (cases healthy; cases psk) simp_all

end
