(* ===== verification/Negotiation.thy ===== *)
theory Negotiation
  imports Fd_State Posture
begin

text \<open>
  The handshake side of \<open>src/interceptor.rs\<close>: the local posture, the states a descriptor starts
  in, and \<open>drive_handshake\<close>, which consumes handshake frames from the receive buffer. Every
  (phase, frame type) pair is decided here, and every decision ends in \<open>Active\<close> or \<open>Failed\<close>.
\<close>

section \<open>Policy and posture\<close>

definition policy :: "ctx \<Rightarrow> unit + CipherSuite" where
  "policy c = map_err (\<lambda>_. ()) (resolve_policy (ctx_config c))"

definition failed_policy_suite :: "ctx \<Rightarrow> CipherSuite" where
  "failed_policy_suite c = (case policy c of Inr s \<Rightarrow> s | Inl _ \<Rightarrow> NistStandard768)"

definition local_posture :: "ctx \<Rightarrow> AvailabilityPosture" where
  "local_posture c =
     select_posture (pqc_control_available (ctx_sources c)) (resolve_fallback_psk (ctx_sources c) \<noteq> None)"

section \<open>Initial states\<close>

definition build_pqc_initiator :: "crypto_lib \<Rightarrow> ctx \<Rightarrow> CipherSuite \<Rightarrow> FdState" where
  "build_pqc_initiator lib c suite =
     (case resolve_identity (ctx_config c) of
        Inl _ \<Rightarrow> FdState_failed c suite
      | Inr identity \<Rightarrow>
          (case engine_begin_initiator lib suite (ctx_x25519 c) (ctx_kem c) identity of
             Inr (state, hello_body) \<Rightarrow>
               (case frame (CipherSuite_id suite) TYPE_CLIENT_HELLO hello_body of
                  Inr f \<Rightarrow> FdState_initiator c suite state f
                | Inl _ \<Rightarrow> FdState_failed c suite)
           | Inl _ \<Rightarrow> FdState_failed c suite))"

definition build_fallback_initiator :: "ctx \<Rightarrow> CipherSuite \<Rightarrow> FdState" where
  "build_fallback_initiator c suite =
     (case resolve_fallback_psk (ctx_sources c) of
        None \<Rightarrow> FdState_failed c suite
      | Some psk \<Rightarrow>
          (let (state, hello) = FallbackInitiator_begin (ctx_nonce c) psk in
           case frame FALLBACK_WIRE_ID TYPE_FALLBACK_HELLO hello of
             Inr f \<Rightarrow> FdState_fallback_initiator c suite state f
           | Inl _ \<Rightarrow> FdState_failed c suite))"

text \<open>The state \<open>install_initiator_state\<close> puts into the registry.\<close>

definition initiator_state :: "crypto_lib \<Rightarrow> ctx \<Rightarrow> FdState" where
  "initiator_state lib c =
     (let suite_for_failure = failed_policy_suite c in
      case policy c of
        Inr suite \<Rightarrow>
          (case local_posture c of
             FullPqc \<Rightarrow> build_pqc_initiator lib c suite
           | EncryptedFallback \<Rightarrow> build_fallback_initiator c suite
           | FailClosed \<Rightarrow> FdState_failed c suite)
      | Inl _ \<Rightarrow> FdState_failed c suite_for_failure)"

section \<open>Consuming handshake frames\<close>

definition queue_frame :: "u8 \<Rightarrow> u8 \<Rightarrow> bytes \<Rightarrow> FdState \<Rightarrow> (unit + unit) \<times> FdState" where
  "queue_frame suite_id tag payload st =
     (case frame suite_id tag payload of
        Inl _ \<Rightarrow> (Inl (), st)
      | Inr f \<Rightarrow> (let (r, st') = append_tx f st in (map_err (\<lambda>_. ()) r, st')))"

text \<open>The match on (phase, frame type). The phase is replaced by \<open>Failed\<close> first, as
  \<open>mem::replace\<close> does.\<close>

definition handle_frame ::
  "crypto_lib \<Rightarrow> ctx \<Rightarrow> ParsedFrame \<Rightarrow> FdState \<Rightarrow> RuntimeMetrics \<Rightarrow> FdState \<times> RuntimeMetrics" where
  "handle_frame lib c f st0 m =
     (let current = phase st0; st = st0\<lparr>phase := Failed\<rparr>; tag = pf_tag f in
      case current of
        ResponderAwaitingClientHello \<Rightarrow>
          if tag = TYPE_CLIENT_HELLO then
            (case (CipherSuite_from_id (pf_suite_id f), resolve_identity (ctx_config c)) of
               (Some proposed, Inr identity) \<Rightarrow>
                 if proposed = policy_suite st then
                   (case engine_respond lib proposed (ctx_x25519 c) (ctx_kem c) identity (pf_payload f) of
                      Inr (keys, server_hello_body) \<Rightarrow>
                        (case queue_frame (CipherSuite_id proposed) TYPE_SERVER_HELLO server_hello_body st of
                           (Inr _, st') \<Rightarrow> activate c keys st' m
                         | (Inl _, st') \<Rightarrow> fail_closed st' m)
                    | Inl _ \<Rightarrow> fail_closed st m)
                 else fail_closed st m
             | _ \<Rightarrow> fail_closed st m)
          else if tag = TYPE_FALLBACK_HELLO then
            (case (local_posture c, resolve_fallback_psk (ctx_sources c)) of
               (EncryptedFallback, Some psk) \<Rightarrow>
                 (case fallback_respond lib (ctx_nonce c) psk (pf_payload f) of
                    Inr (keys, finished) \<Rightarrow>
                      (case queue_frame FALLBACK_WIRE_ID TYPE_FALLBACK_FINISHED finished st of
                         (Inr _, st') \<Rightarrow> activate c keys st' (record_fallback_activation m)
                       | (Inl _, st') \<Rightarrow> fail_closed st' m)
                  | Inl _ \<Rightarrow> fail_closed st (record_downgrade_attack m))
             | _ \<Rightarrow> fail_closed st (record_downgrade_attack m))
          else fail_closed st m
      | InitiatorAwaitingServerHello state \<Rightarrow>
          if tag = TYPE_SERVER_HELLO then
            (case resolve_identity (ctx_config c) of
               Inr identity \<Rightarrow>
                 if pf_suite_id f = CipherSuite_id (policy_suite st) then
                   (case InitiatorState_finish lib state identity (pf_payload f) of
                      Inr keys \<Rightarrow> activate c keys st m
                    | Inl _ \<Rightarrow> fail_closed st m)
                 else fail_closed st m
             | Inl _ \<Rightarrow> fail_closed st m)
          else if tag = TYPE_FALLBACK_HELLO \<or> tag = TYPE_FALLBACK_FINISHED then
            fail_closed st (record_downgrade_attack m)
          else fail_closed st m
      | InitiatorAwaitingFallbackFinished state \<Rightarrow>
          if tag = TYPE_FALLBACK_FINISHED then
            (case FallbackInitiator_finish lib state (pf_payload f) of
               Inr keys \<Rightarrow> activate c keys st (record_fallback_activation m)
             | Inl _ \<Rightarrow> fail_closed st (record_downgrade_attack m))
          else if tag = TYPE_CLIENT_HELLO \<or> tag = TYPE_SERVER_HELLO then
            fail_closed st (record_downgrade_attack m)
          else fail_closed st m
      | Active keys \<Rightarrow> fail_closed st m
      | Failed \<Rightarrow> fail_closed st m)"

lemma queue_frame_cases:
  obtains (queued) f where "frame i t p = Inr f" "length (tx_backlog st) + length f \<le> MAX_WRITE_BACKLOG"
      "queue_frame i t p st = (Inr (), st\<lparr>tx_backlog := tx_backlog st @ f\<rparr>)"
  | (refused) "queue_frame i t p st = (Inl (), st)"
proof (cases "frame i t p")
  case (Inr f)
  then have pos: "0 < length f" by (auto simp: frame_length)
  show thesis
  proof (cases "length (tx_backlog st) + length f \<le> MAX_WRITE_BACKLOG")
    case True
    with Inr txb.append_fits [OF True] show ?thesis
      by (intro queued [of f]) (simp_all add: queue_frame_def map_err_def)
  next
    case False
    with pos have "MAX_WRITE_BACKLOG - length (tx_backlog st) < length f" by arith
    with Inr show ?thesis
      by (intro refused) (simp add: queue_frame_def append_tx_def append_bounded_def map_err_def)
  qed
qed (simp add: queue_frame_def that)

section \<open>Every frame decides\<close>

text \<open>The messages a handshake produces, with the frame tag each is sent under.\<close>

inductive handshake_message :: "crypto_lib \<Rightarrow> u8 \<Rightarrow> bytes \<Rightarrow> bool" for lib where
  client_hello: "engine_begin_initiator lib suite x25519 kem identity = Inr (state, p) \<Longrightarrow>
    handshake_message lib TYPE_CLIENT_HELLO p"
| server_hello: "engine_respond lib suite x25519 kem identity hello = Inr (keys, p) \<Longrightarrow>
    handshake_message lib TYPE_SERVER_HELLO p"
| fallback_hello: "length nonce = FALLBACK_NONCE_LEN \<Longrightarrow> FallbackInitiator_begin nonce psk = (fstate, p) \<Longrightarrow>
    handshake_message lib TYPE_FALLBACK_HELLO p"
| fallback_finished: "length nonce = FALLBACK_NONCE_LEN \<Longrightarrow> fallback_respond lib nonce psk hello = Inr (keys, p) \<Longrightarrow>
    handshake_message lib TYPE_FALLBACK_FINISHED p"

text \<open>The two ways a handshake frame can end.\<close>

definition frame_fails :: "FdState \<Rightarrow> RuntimeMetrics \<Rightarrow> FdState \<times> RuntimeMetrics \<Rightarrow> bool" where
  "frame_fails st m r \<longleftrightarrow>
     (\<exists>m'. r = fail_closed (st\<lparr>phase := Failed\<rparr>) m' \<and> (m' = m \<or> m' = record_downgrade_attack m))"

definition frame_activates :: "crypto_lib \<Rightarrow> ctx \<Rightarrow> FdState \<Rightarrow> RuntimeMetrics \<Rightarrow> FdState \<times> RuntimeMetrics \<Rightarrow> bool" where
  "frame_activates lib c st m r \<longleftrightarrow>
     (\<exists>k b m'. r = activate c k (st\<lparr>phase := Failed, tx_backlog := b\<rparr>) m' \<and>
        (m' = m \<or> m' = record_fallback_activation m) \<and>
        (b = tx_backlog st \<or> length b \<le> MAX_WRITE_BACKLOG \<and>
           (\<exists>i t p f. (length (ctx_nonce c) = FALLBACK_NONCE_LEN \<longrightarrow> handshake_message lib t p) \<and> frame i t p = Inr f \<and> b = tx_backlog st @ f)))"

lemma frame_fails_intros:
  "frame_fails st m (fail_closed (st\<lparr>phase := Failed\<rparr>) m)"
  "frame_fails st m (fail_closed (st\<lparr>phase := Failed\<rparr>) (record_downgrade_attack m))"
  by (auto simp: frame_fails_def)

lemma frame_activates_intros:
  "frame_activates lib c st m (activate c k (st\<lparr>phase := Failed\<rparr>) m)"
  "frame_activates lib c st m (activate c k (st\<lparr>phase := Failed\<rparr>) (record_fallback_activation m))"
proof -
  have "st\<lparr>phase := Failed\<rparr> = st\<lparr>phase := Failed, tx_backlog := tx_backlog st\<rparr>" by simp
  then show "frame_activates lib c st m (activate c k (st\<lparr>phase := Failed\<rparr>) m)"
    "frame_activates lib c st m (activate c k (st\<lparr>phase := Failed\<rparr>) (record_fallback_activation m))"
    unfolding frame_activates_def by (metis, metis)
qed

lemma queued_frame_activates:
  assumes "queue_frame i t p (st\<lparr>phase := Failed\<rparr>) = (Inr u, st')"
    and "m' = m \<or> m' = record_fallback_activation m"
    and "length (ctx_nonce c) = FALLBACK_NONCE_LEN \<Longrightarrow> handshake_message lib t p"
  shows "frame_activates lib c st m (activate c k st' m')"
proof (cases i t p "st\<lparr>phase := Failed\<rparr>" rule: queue_frame_cases)
  case (queued f)
  with assms show ?thesis unfolding frame_activates_def
    by (intro exI [of _ k] exI [of _ "tx_backlog st @ f"] exI [of _ m']) auto
qed (use assms in simp)

lemma queued_frame_fails:
  assumes "queue_frame i t p (st\<lparr>phase := Failed\<rparr>) = (Inl u, st')"
  shows "frame_fails st m (fail_closed st' m)"
  by (cases i t p "st\<lparr>phase := Failed\<rparr>" rule: queue_frame_cases)
    (use assms in \<open>auto simp: frame_fails_intros\<close>)

lemma handle_frame_decides:
  "frame_fails st m (handle_frame lib c f st m) \<or> frame_activates lib c st m (handle_frame lib c f st m)"
proof (cases "phase st")
  case ResponderAwaitingClientHello
  then show ?thesis
    by (auto simp: handle_frame_def Let_def frame_fails_intros frame_activates_intros
        dest: queued_frame_fails intro: queued_frame_activates handshake_message.intros
        split: sum.split option.split prod.split AvailabilityPosture.split)
qed (auto simp: handle_frame_def Let_def frame_fails_intros frame_activates_intros split: sum.split)

lemma decided_phase:
  "frame_fails st m r \<Longrightarrow> phase (fst r) = Failed"
  "frame_activates lib c st m r \<Longrightarrow> is_Active (phase (fst r))"
  by (auto simp: frame_fails_def frame_activates_def activate_def Let_def)

lemma handle_frame_phase:
  "phase (fst (handle_frame lib c f st m)) = Failed \<or> is_Active (phase (fst (handle_frame lib c f st m)))"
  using handle_frame_decides decided_phase by blast

text \<open>The loop of \<open>drive_handshake\<close>; the receive buffer shrinks with every frame.\<close>

function drive_handshake ::
  "crypto_lib \<Rightarrow> ctx \<Rightarrow> FdState \<Rightarrow> RuntimeMetrics \<Rightarrow> FdState \<times> RuntimeMetrics" where
  "drive_handshake lib c st m =
     (case try_pop_frame (rx_wire st) of
        (Inl _, _) \<Rightarrow> fail_closed st m
      | (Inr None, _) \<Rightarrow> (st, m)
      | (Inr (Some f), rest) \<Rightarrow>
          (let (st', m') = handle_frame lib c f (st\<lparr>rx_wire := rest\<rparr>) m
           in if phase st' = Failed \<or> is_Active (phase st') then (st', m')
              else drive_handshake lib c st' m'))"
  by pat_completeness auto
termination
  by (relation "measure (\<lambda>(lib, c, st, m). length (rx_wire st))")
    (auto, metis fst_conv handle_frame_phase)

declare drive_handshake.simps [simp del]

lemma drive_handshake_eq:
  "drive_handshake lib c st m =
     (case try_pop_frame (rx_wire st) of
        (Inl _, _) \<Rightarrow> fail_closed st m
      | (Inr None, _) \<Rightarrow> (st, m)
      | (Inr (Some f), rest) \<Rightarrow> handle_frame lib c f (st\<lparr>rx_wire := rest\<rparr>) m)"
proof -
  have "(let (st', m') = r in if phase st' = Failed \<or> is_Active (phase st') then (st', m')
      else drive_handshake lib c st' m') = r" if "phase (fst r) = Failed \<or> is_Active (phase (fst r))" for r
    using that by (cases r) simp
  from this [OF handle_frame_phase] show ?thesis
    by (subst drive_handshake.simps) (simp cong: option.case_cong sum.case_cong prod.case_cong)
qed

lemma handle_frame_balanced:
  assumes "fd_inv st"
  shows "balanced (st, m) (handle_frame lib c f st m)"
proof -
  have d: "active_sessions (record_downgrade_attack m) = active_sessions m"
    "active_sessions (record_fallback_activation m) = active_sessions m"
    by (simp_all add: record_downgrade_attack_def record_fallback_activation_def)
  have "balanced (st, m) r" if "frame_fails st m r" for r
  proof -
    from that obtain m' where m': "r = fail_closed (st\<lparr>phase := Failed\<rparr>) m'"
      "active_sessions m' = active_sessions m" by (auto simp: frame_fails_def d)
    from fail_closed_balanced [of "st\<lparr>phase := Failed\<rparr>" m'] m' show ?thesis
      by (simp add: balanced_def load_def)
  qed
  moreover have "balanced (st, m) r" if "frame_activates lib c st m r" for r
  proof -
    from that obtain k b m' where r: "r = activate c k (st\<lparr>phase := Failed, tx_backlog := b\<rparr>) m'"
      and mb: "m' = m \<or> m' = record_fallback_activation m" "b = tx_backlog st \<or> length b \<le> MAX_WRITE_BACKLOG"
      unfolding frame_activates_def by blast
    from mb assms have m': "active_sessions m' = active_sessions m" "length b \<le> MAX_WRITE_BACKLOG"
      by (auto simp: d fd_inv_def)
    have "balanced (st\<lparr>phase := Failed, tx_backlog := b\<rparr>, m') r"
      unfolding r by (rule activate_balanced) (use m'(2) assms in \<open>simp_all add: fd_inv_def\<close>)
    with m'(1) show ?thesis by (simp add: balanced_def load_def)
  qed
  ultimately show ?thesis using handle_frame_decides by blast
qed

text \<open>What a frame adds to the send queue: nothing (or the session failed and the queue is empty),
  or one handshake frame.\<close>

lemma handle_frame_queue:
  assumes "handle_frame lib c f st m = (st', m')" "length (ctx_nonce c) = FALLBACK_NONCE_LEN"
  shows "phase st' = Failed \<and> tx_backlog st' = [] \<or> tx_backlog st' = tx_backlog st \<or>
    (\<exists>i t p g. handshake_message lib t p \<and> frame i t p = Inr g \<and> tx_backlog st' = tx_backlog st @ g)"
  using handle_frame_decides [of st m lib c f] unfolding assms(1)
proof
  assume "frame_fails st m (st', m')"
  then obtain m0 where "st' = fst (fail_closed (st\<lparr>phase := Failed\<rparr>) m0)"
    unfolding frame_fails_def by (metis fst_conv)
  then show ?thesis by simp
next
  assume "frame_activates lib c st m (st', m')"
  then obtain k b m0 where "st' = fst (activate c k (st\<lparr>phase := Failed, tx_backlog := b\<rparr>) m0)"
    and b: "b = tx_backlog st \<or> (\<exists>i t p g. handshake_message lib t p \<and> frame i t p = Inr g \<and> b = tx_backlog st @ g)"
    using assms(2) unfolding frame_activates_def by (metis fst_conv)
  then have "tx_backlog st' = b" by (simp add: activate_def Let_def)
  with b show ?thesis by blast
qed

lemma pop_cases:
  obtains (bad) r where "try_pop_frame s = (Inl (), r)"
  | (more) r where "try_pop_frame s = (Inr None, r)"
  | (frame) f r where "try_pop_frame s = (Inr (Some f), r)"
proof -
  obtain x r where p: "try_pop_frame s = (x, r)" by (cases "try_pop_frame s")
  show thesis
  proof (cases x)
    case (Inl u)
    then show thesis using p bad by simp
  next
    case (Inr y)
    then show thesis using p more frame by (cases y) simp_all
  qed
qed

lemma drive_handshake_balanced:
  assumes "fd_inv st"
  shows "balanced (st, m) (drive_handshake lib c st m)"
proof -
  obtain x rest where pop: "try_pop_frame (rx_wire st) = (x, rest)" by (cases "try_pop_frame (rx_wire st)")
  have "fd_inv (st\<lparr>rx_wire := rest\<rparr>)" using assms try_pop_frame_length [of "rx_wire st"] pop
    by (auto simp: fd_inv_def)
  from handle_frame_balanced [OF this] have "balanced (st, m) (handle_frame lib c f (st\<lparr>rx_wire := rest\<rparr>) m)" for f
    by (simp add: balanced_def load_def)
  then show ?thesis using pop assms fail_closed_balanced
    by (auto simp: drive_handshake_eq split: sum.split option.split)
qed

lemma drive_handshake_queue:
  assumes "drive_handshake lib c st m = (st', m')" "length (ctx_nonce c) = FALLBACK_NONCE_LEN"
  shows "phase st' = Failed \<and> tx_backlog st' = [] \<or> tx_backlog st' = tx_backlog st \<or>
    (\<exists>i t p g. handshake_message lib t p \<and> frame i t p = Inr g \<and> tx_backlog st' = tx_backlog st @ g)"
proof (cases rule: pop_cases [of "rx_wire st"])
  case (bad r)
  with assms have "st' = fst (fail_closed st m)" by (simp add: drive_handshake_eq)
  then show ?thesis by simp
next
  case (frame f r)
  with assms handle_frame_queue [of lib c f "st\<lparr>rx_wire := r\<rparr>" m st' m'] show ?thesis
    by (simp add: drive_handshake_eq)
qed (use assms in \<open>simp add: drive_handshake_eq\<close>)

section \<open>What it takes to become active\<close>

text \<open>The evidence that a frame \<open>f\<close> must carry for a session in the phase of \<open>st\<close> to become
  active with the keys \<open>k\<close>.\<close>

definition activation_evidence ::
  "crypto_lib \<Rightarrow> ctx \<Rightarrow> FdState \<Rightarrow> ParsedFrame \<Rightarrow> SessionKeys \<Rightarrow> bool" where
  "activation_evidence lib c st f k = (case phase st of
     ResponderAwaitingClientHello \<Rightarrow>
       (pf_tag f = TYPE_CLIENT_HELLO \<and> pf_suite_id f = CipherSuite_id (policy_suite st) \<and>
         (\<exists>i sh. resolve_identity (ctx_config c) = Inr i \<and>
            hello_authentic lib i (client_auth_message (CipherSuite_id (policy_suite st)))
              (suite_ek_len (policy_suite st)) (pf_payload f) \<and>
            engine_respond lib (policy_suite st) (ctx_x25519 c) (ctx_kem c) i (pf_payload f) = Inr (k, sh))) \<or>
       (pf_tag f = TYPE_FALLBACK_HELLO \<and> \<not> pqc_control_available (ctx_sources c) \<and>
         (\<exists>psk fin. resolve_fallback_psk (ctx_sources c) = Some psk \<and>
            fallback_respond lib (ctx_nonce c) psk (pf_payload f) = Inr (k, fin)))
   | InitiatorAwaitingServerHello s \<Rightarrow>
       pf_tag f = TYPE_SERVER_HELLO \<and> pf_suite_id f = CipherSuite_id (policy_suite st) \<and>
       (\<exists>i. resolve_identity (ctx_config c) = Inr i \<and> InitiatorState_finish lib s i (pf_payload f) = Inr k)
   | InitiatorAwaitingFallbackFinished s \<Rightarrow>
       pf_tag f = TYPE_FALLBACK_FINISHED \<and> FallbackInitiator_finish lib s (pf_payload f) = Inr k
   | _ \<Rightarrow> False)"

lemma CipherSuite_from_id_iff: "CipherSuite_from_id x = Some s \<longleftrightarrow> x = CipherSuite_id s"
  by (cases s) (auto simp: CipherSuite_from_id_def nist768_SUITE_ID_def nist1024_SUITE_ID_def)

lemma suite_id_known: "CipherSuite_from_id (CipherSuite_id s) = Some s"
  by (simp add: CipherSuite_from_id_iff)

lemma activate_phase [simp]: "phase (fst (activate c k st m)) = Active k"
  by (simp add: activate_def Let_def)

lemma handle_frame_evidence:
  assumes "phase (fst (handle_frame lib c f st m)) = Active k"
  shows "activation_evidence lib c st f k"
proof (cases "phase st")
  case ResponderAwaitingClientHello
  then show ?thesis using assms
    by (auto simp: handle_frame_def Let_def activation_evidence_def CipherSuite_from_id_iff
        local_posture_def select_posture_fallback_iff
        intro: engine_respond_authentic
        split: sum.split_asm option.split_asm prod.split_asm AvailabilityPosture.split_asm if_split_asm)
qed (use assms in \<open>auto simp: handle_frame_def Let_def activation_evidence_def
      split: sum.split_asm if_split_asm\<close>)

lemma activation_evidence_rx [simp]:
  "activation_evidence lib c (st\<lparr>rx_wire := r\<rparr>) f k = activation_evidence lib c st f k"
  by (cases "phase st") (simp_all add: activation_evidence_def)

text \<open>C4. A session becomes active only on evidence: if \<open>drive_handshake\<close> leaves a session active
  that was not, one complete frame was consumed, of the type the phase awaits and with the suite
  the policy pins, and it passed that phase's cryptographic check: an authentic ClientHello from
  the pinned peer, an accepted ServerHello, an authenticated fallback confirmation, or, only on a
  node that is locally degraded and has a pre-shared key, a well-formed FallbackHello.\<close>

theorem activation_requires_evidence:
  assumes "drive_handshake lib c st m = (st', m')" and "phase st' = Active k" and "\<not> is_Active (phase st)"
  shows "\<exists>f rest. try_pop_frame (rx_wire st) = (Inr (Some f), rest) \<and> activation_evidence lib c st f k"
proof -
  have k: "phase (fst (drive_handshake lib c st m)) = Active k" using assms(1,2) by simp
  show ?thesis
  proof (cases rule: pop_cases [of "rx_wire st"])
    case (frame f rest)
    with k have "phase (fst (handle_frame lib c f (st\<lparr>rx_wire := rest\<rparr>) m)) = Active k"
      by (simp add: drive_handshake_eq)
    from handle_frame_evidence [OF this] frame show ?thesis by simp
  qed (use k assms(3) in \<open>auto simp: drive_handshake_eq\<close>)
qed

section \<open>Downgrade resistance\<close>

lemma metrics_of_transitions [simp]:
  "fallback_activations (snd (fail_closed st m)) = fallback_activations m"
  "downgrade_attacks_detected (snd (fail_closed st m)) = downgrade_attacks_detected m"
  "fallback_activations (snd (activate c k st m)) = fallback_activations m"
  "downgrade_attacks_detected (snd (activate c k st m)) = downgrade_attacks_detected m"
  by (auto simp: fail_closed_def activate_def Let_def split: option.split)

lemma record_downgrade_attack_metrics [simp]:
  "fallback_activations (record_downgrade_attack m) = fallback_activations m"
  "downgrade_attacks_detected (record_downgrade_attack m) = downgrade_attacks_detected m + 1"
  by (simp_all add: record_downgrade_attack_def)

lemma handle_frame_healthy_activations:
  assumes "local_posture c \<noteq> EncryptedFallback"
    and "phase st = ResponderAwaitingClientHello \<or> (\<exists>s. phase st = InitiatorAwaitingServerHello s)"
  shows "fallback_activations (snd (handle_frame lib c f st m)) = fallback_activations m"
  using assms(2)
proof (elim disjE exE)
  assume "phase st = ResponderAwaitingClientHello"
  then show ?thesis using assms(1)
    by (simp add: handle_frame_def Let_def split: sum.split option.split prod.split AvailabilityPosture.split)
next
  fix s assume "phase st = InitiatorAwaitingServerHello s"
  then show ?thesis by (simp add: handle_frame_def Let_def split: sum.split)
qed

lemma handle_frame_healthy_downgrade:
  assumes "local_posture c \<noteq> EncryptedFallback"
    and "phase st = ResponderAwaitingClientHello \<and> pf_tag f = TYPE_FALLBACK_HELLO \<or>
      (\<exists>s. phase st = InitiatorAwaitingServerHello s) \<and>
        (pf_tag f = TYPE_FALLBACK_HELLO \<or> pf_tag f = TYPE_FALLBACK_FINISHED)"
  shows "handle_frame lib c f st m = fail_closed (st\<lparr>phase := Failed\<rparr>) (record_downgrade_attack m)"
  using assms(2)
proof (elim disjE exE conjE)
  assume "phase st = ResponderAwaitingClientHello" "pf_tag f = TYPE_FALLBACK_HELLO"
  then show ?thesis using assms(1)
    by (simp add: handle_frame_def Let_def frame_types split: option.split AvailabilityPosture.split)
qed (simp_all add: handle_frame_def Let_def frame_types)


section \<open>Two nodes\<close>

text \<open>Everything \<open>sender\<close> has queued arrives at the receive buffer of \<open>st\<close>.\<close>

definition deliver :: "FdState \<Rightarrow> FdState \<Rightarrow> FdState" where
  "deliver sender st = st\<lparr>rx_wire := rx_wire st @ tx_backlog sender\<rparr>"

lemma max_hello_fits: "n \<le> 6957 \<Longrightarrow> n + 6 \<le> MAX_WIRE_RX_BUFFER" "n \<le> 6963 \<Longrightarrow> n \<le> MAX_WRITE_BACKLOG"
  by (simp_all add: wire_consts)

lemma drive_handshake_frame:
  "frame i t p = Inr f \<Longrightarrow> rx_wire st = f \<Longrightarrow>
     drive_handshake lib c st m =
       handle_frame lib c \<lparr>pf_suite_id = i, pf_tag = t, pf_payload = p\<rparr> (st\<lparr>rx_wire := []\<rparr>) m"
  using try_pop_frame_frame [of i t p f "[]"] by (simp add: drive_handshake_eq)

lemma queue_frame_fits:
  "tx_backlog st = [] \<Longrightarrow> frame i t p = Inr f \<Longrightarrow>
     queue_frame i t p st = (Inr (), st\<lparr>tx_backlog := f\<rparr>)"
proof -
  assume a: "tx_backlog st = []" "frame i t p = Inr f"
  then have "length f \<le> MAX_WRITE_BACKLOG" by (auto simp: frame_Inr_iff wire_consts)
  with a txb.append_fits [of st f] show ?thesis by (simp add: queue_frame_def map_err_def)
qed

lemma pqc_establishment:
  assumes "mutual lib a b" and "resolve_identity (ctx_config ca) = Inr a"
    and "resolve_identity (ctx_config ca') = Inr a" and "resolve_identity (ctx_config cb) = Inr b"
  shows "\<exists>res m1 ini m2 ka kb.
    drive_handshake lib cb (deliver (build_pqc_initiator lib ca suite) (FdState_responder cb suite)) m = (res, m1) \<and>
    drive_handshake lib ca' (deliver res ((build_pqc_initiator lib ca suite)\<lparr>tx_backlog := []\<rparr>)) m' = (ini, m2) \<and>
    phase res = Active kb \<and> phase ini = Active ka \<and> fresh_mirror ka kb"
proof -
  from engine.completes [OF assms(1), of suite "(ctx_x25519 ca, ctx_kem ca)" "(ctx_x25519 cb, ctx_kem cb)"]
  obtain st ch ks sh kc where
    h: "engine_begin_initiator lib suite (ctx_x25519 ca) (ctx_kem ca) a = Inr (st, ch)"
      "engine_respond lib suite (ctx_x25519 cb) (ctx_kem cb) b ch = Inr (ks, sh)"
      "InitiatorState_finish lib st a sh = Inr kc" "fresh_mirror kc ks"
      "length ch \<le> 6957" "length sh \<le> 6957" by auto
  obtain f where f: "frame (CipherSuite_id suite) TYPE_CLIENT_HELLO ch = Inr f"
    using max_hello_fits(1) [OF h(5)] by (auto simp: frame_Inr_iff)
  obtain g where g: "frame (CipherSuite_id suite) TYPE_SERVER_HELLO sh = Inr g"
    using max_hello_fits(1) [OF h(6)] by (auto simp: frame_Inr_iff)
  have ini: "build_pqc_initiator lib ca suite = FdState_initiator ca suite st f"
    using assms(2) h(1) f by (simp add: build_pqc_initiator_def)
  let ?r = "(FdState_responder cb suite)\<lparr>phase := Failed, tx_backlog := g\<rparr>"
  have "drive_handshake lib cb (deliver (FdState_initiator ca suite st f) (FdState_responder cb suite)) m
      = activate cb ks ?r m"
    using assms(4) h(2) queue_frame_fits [OF _ g, of "(FdState_responder cb suite)\<lparr>phase := Failed\<rparr>"]
    by (subst drive_handshake_frame [OF f])
      (simp_all add: deliver_def FdState_new_defs handle_frame_def Let_def suite_id_known)
  moreover have "tx_backlog (fst (activate cb ks ?r m)) = g" by (simp add: activate_def Let_def)
  moreover have "drive_handshake lib ca' (deliver x ((FdState_initiator ca suite st f)\<lparr>tx_backlog := []\<rparr>)) m'
      = activate ca' kc ((FdState_initiator ca suite st f)\<lparr>tx_backlog := [], phase := Failed\<rparr>) m'"
    if "tx_backlog x = g" for x
    using assms(3) h(3) that
    by (subst drive_handshake_frame [OF g])
      (simp_all add: deliver_def FdState_new_defs handle_frame_def Let_def)
  ultimately show ?thesis unfolding ini using h(4)
    by (metis activate_phase prod.collapse)
qed

text \<open>Session establishment, end to end: when two nodes pin each other's identity, the
  connecting node's policy selects a suite, its posture is healthy, and the accepting node is
  pinned to the same suite, then delivering the frame the connecting node queues makes the accepting
  node active, and delivering the frame it queues in answer makes the connecting node active, with
  mirrored keys and fresh counters on both sides.\<close>

lemma session_established:
  assumes "mutual lib a b" and "resolve_identity (ctx_config ca) = Inr a"
    and "resolve_identity (ctx_config ca') = Inr a" and "resolve_identity (ctx_config cb) = Inr b"
    and "policy ca = Inr suite" and "local_posture ca = FullPqc"
  shows "\<exists>res m1 ini m2 ka kb.
    drive_handshake lib cb (deliver (initiator_state lib ca) (FdState_responder cb suite)) m = (res, m1) \<and>
    drive_handshake lib ca' (deliver res ((initiator_state lib ca)\<lparr>tx_backlog := []\<rparr>)) m' = (ini, m2) \<and>
    phase res = Active kb \<and> phase ini = Active ka \<and> fresh_mirror ka kb"
  using pqc_establishment [OF assms(1-4)] assms(5,6) by (simp add: initiator_state_def)

lemma fallback_establishment:
  assumes "crypto_laws lib" and "resolve_fallback_psk (ctx_sources ca) = Some psk"
    and "resolve_fallback_psk (ctx_sources cb) = Some psk" and "local_posture cb = EncryptedFallback"
    and "length (ctx_nonce ca) = 16" and "length (ctx_nonce cb) = 16"
  shows "\<exists>res m1 ini m2 ka kb.
    drive_handshake lib cb (deliver (build_fallback_initiator ca suite) (FdState_responder cb suite')) m = (res, m1) \<and>
    drive_handshake lib ca' (deliver res ((build_fallback_initiator ca suite)\<lparr>tx_backlog := []\<rparr>)) m' = (ini, m2) \<and>
    phase res = Active kb \<and> phase ini = Active ka \<and> in_sync lib ka kb \<and> in_sync lib kb ka"
proof -
  from fallback_completes [OF assms(1,5,6), of psk] obtain st ks fin kc where
    h: "FallbackInitiator_begin (ctx_nonce ca) psk = (st, ctx_nonce ca)"
      "fallback_respond lib (ctx_nonce cb) psk (ctx_nonce ca) = Inr (ks, fin)"
      "FallbackInitiator_finish lib st fin = Inr kc" "in_sync lib kc ks" "in_sync lib ks kc" by auto
  have len: "length fin \<le> 6957"
    using fallback_respond_length [OF assms(1) h(2)] assms(6) by (simp add: FALLBACK_CONFIRM_def)
  obtain f where f: "frame FALLBACK_WIRE_ID TYPE_FALLBACK_HELLO (ctx_nonce ca) = Inr f"
    using assms(5) by (auto simp: frame_Inr_iff wire_consts)
  obtain g where g: "frame FALLBACK_WIRE_ID TYPE_FALLBACK_FINISHED fin = Inr g"
    using max_hello_fits(1) [OF len] by (auto simp: frame_Inr_iff)
  have ini: "build_fallback_initiator ca suite = FdState_fallback_initiator ca suite st f"
    using assms(2) h(1) f by (simp add: build_fallback_initiator_def)
  let ?r = "(FdState_responder cb suite')\<lparr>phase := Failed, tx_backlog := g\<rparr>"
  have "drive_handshake lib cb (deliver (FdState_fallback_initiator ca suite st f) (FdState_responder cb suite')) m
      = activate cb ks ?r (record_fallback_activation m)"
    using assms(3,4) h(2) queue_frame_fits [OF _ g, of "(FdState_responder cb suite')\<lparr>phase := Failed\<rparr>"]
    by (subst drive_handshake_frame [OF f])
      (simp_all add: deliver_def FdState_new_defs handle_frame_def Let_def frame_types)
  moreover have "tx_backlog (fst (activate cb ks ?r m)) = g" for m by (simp add: activate_def Let_def)
  moreover have "drive_handshake lib ca' (deliver x ((FdState_fallback_initiator ca suite st f)\<lparr>tx_backlog := []\<rparr>)) m'
      = activate ca' kc ((FdState_fallback_initiator ca suite st f)\<lparr>tx_backlog := [], phase := Failed\<rparr>)
          (record_fallback_activation m')"
    if "tx_backlog x = g" for x
    using h(3) that
    by (subst drive_handshake_frame [OF g])
      (simp_all add: deliver_def FdState_new_defs handle_frame_def Let_def)
  ultimately show ?thesis unfolding ini using h(4,5)
    by (metis activate_phase prod.collapse)
qed

text \<open>C22. Degraded establishment, end to end: when both nodes are locally degraded and hold the same
  pre-shared key, the fallback frames establish an active session on both sides, in step in both
  directions, whatever suites the two policies pin.\<close>

theorem fallback_established:
  assumes "crypto_laws lib" and "policy ca = Inr suite"
    and "local_posture ca = EncryptedFallback" and "local_posture cb = EncryptedFallback"
    and "resolve_fallback_psk (ctx_sources ca) = Some psk" and "resolve_fallback_psk (ctx_sources cb) = Some psk"
    and "length (ctx_nonce ca) = 16" and "length (ctx_nonce cb) = 16"
  shows "\<exists>res m1 ini m2 ka kb.
    drive_handshake lib cb (deliver (initiator_state lib ca) (FdState_responder cb suite')) m = (res, m1) \<and>
    drive_handshake lib ca' (deliver res ((initiator_state lib ca)\<lparr>tx_backlog := []\<rparr>)) m' = (ini, m2) \<and>
    phase res = Active kb \<and> phase ini = Active ka \<and> in_sync lib ka kb \<and> in_sync lib kb ka"
  using fallback_establishment [OF assms(1,5,6,4,7,8), of suite] assms(2,3) by (simp add: initiator_state_def)

section \<open>Concrete nodes\<close>

definition toy_env :: "bool \<Rightarrow> sources" where
  "toy_env degraded =
     \<lparr>env_var = (\<lambda>k. if degraded \<and> k = ''SYNTRIASS_PQC_DEGRADED'' then Some (lit ''on'')
         else if degraded \<and> k = ''SYNTRIASS_FALLBACK_PSK_HEX'' then Some (hex (replicate 32 9)) else None),
      policy_toml = None, identity_toml = None\<rparr>"

definition toy_ctx :: "IdentityMaterial \<Rightarrow> bool \<Rightarrow> ctx" where
  "toy_ctx i degraded =
     \<lparr>ctx_pid = 7, ctx_now = 0, ctx_epoch = 1,
      ctx_config = \<lparr>lock_poisoned = False,
        lock_value = \<lparr>rc_policy = Inr NistStandard768, rc_identity = Inr i\<rparr>\<rparr>,
      ctx_sources = toy_env degraded,
      ctx_x25519 = [1], ctx_kem = [2], ctx_nonce = replicate 16 5\<rparr>"

lemma toy_psk: "resolve_fallback_psk (toy_env True) = Some (replicate 32 9)"
  using decode_hex_vec_hex [of "replicate 32 9"]
  by (simp add: resolve_fallback_psk_def toy_env_def decode_hex_exact_def FALLBACK_PSK_LEN_def)

lemma toy_posture: "local_posture (toy_ctx i d) = (if d then EncryptedFallback else FullPqc)"
proof -
  have "pqc_control_available (toy_env d) = (\<not> d)"
    by (simp add: pqc_control_available_def toy_env_def lit_def to_ascii_lowercase_def trim_def strip_both_def
        is_whitespace_def)
  then show ?thesis using toy_psk by (simp add: local_posture_def toy_ctx_def)
qed

lemma toy_ctx_simps [simp]:
  "resolve_identity (ctx_config (toy_ctx i d)) = Inr i" "policy (toy_ctx i d) = Inr NistStandard768"
  "ctx_sources (toy_ctx i d) = toy_env d" "ctx_nonce (toy_ctx i d) = replicate 16 5"
  by (simp_all add: toy_ctx_def resolve_identity_def policy_def resolve_policy_def map_err_def)

theorem activation_requires_evidence_witness:
  "\<exists>f rest k. try_pop_frame (rx_wire (deliver (build_pqc_initiator toy_lib (toy_ctx (toy_id 1 2) False) NistStandard768)
         (FdState_responder (toy_ctx (toy_id 2 1) False) NistStandard768))) = (Inr (Some f), rest) \<and>
     activation_evidence toy_lib (toy_ctx (toy_id 2 1) False)
       (deliver (build_pqc_initiator toy_lib (toy_ctx (toy_id 1 2) False) NistStandard768)
         (FdState_responder (toy_ctx (toy_id 2 1) False) NistStandard768)) f k"
proof -
  let ?st = "deliver (build_pqc_initiator toy_lib (toy_ctx (toy_id 1 2) False) NistStandard768)
    (FdState_responder (toy_ctx (toy_id 2 1) False) NistStandard768)"
  from pqc_establishment [OF toy_id_mutual, of "toy_ctx (toy_id 1 2) False" 1 2 "toy_ctx (toy_id 1 2) False"
      "toy_ctx (toy_id 2 1) False" NistStandard768 RUNTIME_METRICS_new RUNTIME_METRICS_new]
  obtain res m1 k where r: "drive_handshake toy_lib (toy_ctx (toy_id 2 1) False) ?st RUNTIME_METRICS_new = (res, m1)"
    "phase res = Active k" by auto
  have "\<not> is_Active (phase ?st)" by (simp add: deliver_def FdState_new_defs)
  from activation_requires_evidence [OF r this] show ?thesis by blast
qed

lemma toy_fallback_hello:
  "try_pop_frame ([0, 0, 0, 18, 0xFE, 4] @ replicate 16 5) =
     (Inr (Some \<lparr>pf_suite_id = 0xFE, pf_tag = 4, pf_payload = replicate 16 5\<rparr>), [])"
proof -
  have "u32_to_be 18 = [0, 0, 0, 18]" by code_simp
  then have "frame 0xFE 4 (replicate 16 5) = Inr ([0, 0, 0, 18, 0xFE, 4] @ replicate 16 5)"
    by (simp add: frame_Inr_iff wire_consts)
  from try_pop_frame_frame [OF this, of "[]"] show ?thesis by simp
qed


lemma session_established_example:
  "\<exists>res m1 ini m2 ka kb.
    drive_handshake toy_lib (toy_ctx (toy_id 2 1) False)
      (deliver (initiator_state toy_lib (toy_ctx (toy_id 1 2) False))
        (FdState_responder (toy_ctx (toy_id 2 1) False) NistStandard768)) RUNTIME_METRICS_new = (res, m1) \<and>
    drive_handshake toy_lib (toy_ctx (toy_id 1 2) False)
      (deliver res ((initiator_state toy_lib (toy_ctx (toy_id 1 2) False))\<lparr>tx_backlog := []\<rparr>))
        RUNTIME_METRICS_new = (ini, m2) \<and>
    phase res = Active kb \<and> phase ini = Active ka \<and> fresh_mirror ka kb"
  by (rule session_established [OF toy_id_mutual]) (simp_all add: toy_posture)

theorem fallback_established_witness:
  "\<exists>res m1 ini m2 ka kb.
    drive_handshake toy_lib (toy_ctx (toy_id 2 1) True)
      (deliver (initiator_state toy_lib (toy_ctx (toy_id 1 2) True))
        (FdState_responder (toy_ctx (toy_id 2 1) True) NistStandard1024)) RUNTIME_METRICS_new = (res, m1) \<and>
    drive_handshake toy_lib (toy_ctx (toy_id 1 2) True)
      (deliver res ((initiator_state toy_lib (toy_ctx (toy_id 1 2) True))\<lparr>tx_backlog := []\<rparr>))
        RUNTIME_METRICS_new = (ini, m2) \<and>
    phase res = Active kb \<and> phase ini = Active ka \<and> in_sync toy_lib ka kb \<and> in_sync toy_lib kb ka"
  by (rule fallback_established [OF toy_crypto_laws]) (simp_all add: toy_posture toy_psk)

end
