(* ===== verification/Loops.thy ===== *)
theory Loops
  imports Main
begin

text \<open>
  Loops that need not end. \<open>iterate step s\<close> repeats \<open>step\<close> from \<open>s\<close>: a left result leaves the
  loop, a right result is the next state; \<open>None\<close> is the value of a loop that never leaves. The
  two rules give partial correctness from an invariant and termination from a well-founded
  relation.
\<close>

partial_function (option) iterate :: "('s \<Rightarrow> 'r + 's) \<Rightarrow> 's \<Rightarrow> 'r option" where
  "iterate step s = (case step s of Inl r \<Rightarrow> Some r | Inr s' \<Rightarrow> iterate step s')"

lemma iterate_leaves: "step s = Inl r \<Longrightarrow> iterate step s = Some r"
  by (simp add: iterate.simps)

lemma iterate_again: "step s = Inr s' \<Longrightarrow> iterate step s = iterate step s'"
  by (subst iterate.simps) simp

lemma iterate_invariant:
  assumes "iterate step s = Some r" and "I s"
    and keep: "\<And>s s'. I s \<Longrightarrow> step s = Inr s' \<Longrightarrow> I s'"
    and leave: "\<And>s r. I s \<Longrightarrow> step s = Inl r \<Longrightarrow> Q r"
  shows "Q r"
proof -
  have "(\<forall>s s'. I s \<longrightarrow> f s = Inr s' \<longrightarrow> I s') \<longrightarrow> (\<forall>s r. I s \<longrightarrow> f s = Inl r \<longrightarrow> Q r) \<longrightarrow>
      I t \<longrightarrow> Q u" if "iterate f t = Some u" for f t u
    using that
  proof (rule iterate.raw_induct [rotated])
    fix it f t u
    assume IH: "\<And>f t u. it f t = Some u \<Longrightarrow> (\<forall>s s'. I s \<longrightarrow> f s = Inr s' \<longrightarrow> I s') \<longrightarrow>
        (\<forall>s r. I s \<longrightarrow> f s = Inl r \<longrightarrow> Q r) \<longrightarrow> I t \<longrightarrow> Q u"
      and eq: "(case f t of Inl r \<Rightarrow> Some r | Inr s' \<Rightarrow> it f s') = Some u"
    show "(\<forall>s s'. I s \<longrightarrow> f s = Inr s' \<longrightarrow> I s') \<longrightarrow> (\<forall>s r. I s \<longrightarrow> f s = Inl r \<longrightarrow> Q r) \<longrightarrow>
        I t \<longrightarrow> Q u"
      using eq IH by (cases "f t") auto
  qed
  with assms show ?thesis by blast
qed

lemma iterate_terminates:
  assumes "wf R" and "I s"
    and dec: "\<And>s s'. I s \<Longrightarrow> step s = Inr s' \<Longrightarrow> I s' \<and> (s', s) \<in> R"
  shows "\<exists>r. iterate step s = Some r"
  using assms(1,2)
proof (induction s rule: wf_induct_rule)
  case (less s)
  show ?case
  proof (cases "step s")
    case (Inl r)
    then show ?thesis by (auto intro: iterate_leaves)
  next
    case (Inr s')
    then show ?thesis using dec less by (metis iterate_again)
  qed
qed

end
