(* ===== verification/Wire_Io.thy ===== *)
theory Wire_Io
  imports Negotiation Loops
begin

text \<open>
  Socket input and output of one locked session (\<open>src/interceptor.rs\<close>): \<open>flush_backlog\<close>,
  \<open>pull_wire\<close>, the loop \<open>drive_until_active_for_write\<close> and \<open>append_or_flush\<close>. The operating
  system is a parameter: a state of any type, the system calls on it, and the process snapshot a
  call would read in that state. Linux error numbers are used.
\<close>

unbundle bit_operations_syntax

section \<open>System calls\<close>

definition EIO :: int where "EIO = 5"
definition EBADF :: int where "EBADF = 9"
definition EAGAIN :: int where "EAGAIN = 11"
definition EWOULDBLOCK :: int where "EWOULDBLOCK = 11"
definition EFAULT :: int where "EFAULT = 14"
definition EINVAL :: int where "EINVAL = 22"
definition EPIPE :: int where "EPIPE = 32"
definition EMSGSIZE :: int where "EMSGSIZE = 90"
definition EOPNOTSUPP :: int where "EOPNOTSUPP = 95"
definition EINPROGRESS :: int where "EINPROGRESS = 115"
definition O_NONBLOCK :: nat where "O_NONBLOCK = 2048"
definition SOCK_STREAM :: nat where "SOCK_STREAM = 1"

lemmas errno_defs = EIO_def EBADF_def EAGAIN_def EWOULDBLOCK_def EFAULT_def EINVAL_def EPIPE_def
  EMSGSIZE_def EOPNOTSUPP_def EINPROGRESS_def

text \<open>A system call returns a non-negative number, or \<open>-1\<close> with an error number.\<close>

datatype sysret = SysOk nat | SysErr int
datatype recvret = RecvOk bytes | RecvErr int

record 'os os_ops =
  env :: "'os \<Rightarrow> ctx"
  sys_send :: "int \<Rightarrow> bytes \<Rightarrow> int \<Rightarrow> 'os \<Rightarrow> sysret \<times> 'os"
  sys_recv :: "int \<Rightarrow> nat \<Rightarrow> int \<Rightarrow> 'os \<Rightarrow> recvret \<times> 'os"
  sys_getfl :: "int \<Rightarrow> 'os \<Rightarrow> sysret"
  sys_so_type :: "int \<Rightarrow> 'os \<Rightarrow> sysret"

text \<open>What a thread holding one session's lock works on.\<close>

record 'os io =
  io_st :: FdState
  io_metrics :: RuntimeMetrics
  io_errno :: int
  io_os :: 'os

text \<open>A call returns or unwinds (a slice index out of range panics).\<close>

datatype 'a outcome = Ret 'a | Panic

definition io_fail_closed :: "'os io \<Rightarrow> 'os io" where
  "io_fail_closed w =
     (let (s, m) = fail_closed (io_st w) (io_metrics w) in w\<lparr>io_st := s, io_metrics := m\<rparr>)"

definition io_drive_handshake :: "crypto_lib \<Rightarrow> 'os os_ops \<Rightarrow> 'os io \<Rightarrow> 'os io" where
  "io_drive_handshake lib ops w =
     (let (s, m) = drive_handshake lib (env ops (io_os w)) (io_st w) (io_metrics w)
      in w\<lparr>io_st := s, io_metrics := m\<rparr>)"

definition is_blocking :: "'os os_ops \<Rightarrow> int \<Rightarrow> 'os io \<Rightarrow> bool \<times> 'os io" where
  "is_blocking ops fd w =
     (case sys_getfl ops fd (io_os w) of
        SysOk flags \<Rightarrow> (flags AND O_NONBLOCK = 0, w)
      | SysErr e \<Rightarrow> (False, w\<lparr>io_errno := e\<rparr>))"

section \<open>Flushing and pulling\<close>

function flush_backlog ::
  "'os os_ops \<Rightarrow> int \<Rightarrow> int \<Rightarrow> 'os io \<Rightarrow> (unit + bool) outcome \<times> 'os io" where
  "flush_backlog ops fd flags w =
     (if tx_backlog (io_st w) = [] then (Ret (Inr True), w)
      else case sys_send ops fd (tx_backlog (io_st w)) flags (io_os w) of
        (SysOk n, os') \<Rightarrow>
          (let w' = w\<lparr>io_os := os'\<rparr> in
           if n > 0 then
             if n > length (tx_backlog (io_st w)) then (Panic, w')
             else flush_backlog ops fd flags
               (w'\<lparr>io_st := (io_st w)\<lparr>tx_backlog := drop n (tx_backlog (io_st w))\<rparr>\<rparr>)
           else (Ret (Inr False), w'))
      | (SysErr e, os') \<Rightarrow>
          (let w' = w\<lparr>io_os := os', io_errno := e\<rparr> in
           if e = EAGAIN \<or> e = EWOULDBLOCK then (Ret (Inr False), w') else (Ret (Inl ()), w')))"
  by pat_completeness auto
termination
  by (relation "measure (\<lambda>(ops, fd, flags, w). length (tx_backlog (io_st w)))") auto

declare flush_backlog.simps [simp del]

text \<open>The count returned is positive with the bytes appended, zero at the end of the stream, and
  \<open>-1\<close> with \<open>errno\<close> set.\<close>

definition pull_wire :: "'os os_ops \<Rightarrow> int \<Rightarrow> int \<Rightarrow> 'os io \<Rightarrow> (unit + int) outcome \<times> 'os io" where
  "pull_wire ops fd flags w =
     (case sys_recv ops fd 8192 flags (io_os w) of
        (RecvOk bs, os') \<Rightarrow>
          (let w' = w\<lparr>io_os := os'\<rparr> in
           if bs \<noteq> [] then
             if length bs > 8192 then (Panic, w')
             else (case append_rx_wire bs (io_st w) of
                     (Inl _, s) \<Rightarrow> (Ret (Inl ()), w'\<lparr>io_st := s\<rparr>)
                   | (Inr _, s) \<Rightarrow> (Ret (Inr (int (length bs))), w'\<lparr>io_st := s\<rparr>))
           else (Ret (Inr 0), w'))
      | (RecvErr e, os') \<Rightarrow> (Ret (Inr (- 1)), w\<lparr>io_os := os', io_errno := e\<rparr>))"

section \<open>Getting a session ready to write\<close>

text \<open>One pass of the loop body: left leaves the function, right goes round again.\<close>

definition write_step ::
  "crypto_lib \<Rightarrow> 'os os_ops \<Rightarrow> int \<Rightarrow> int \<Rightarrow> bool \<Rightarrow> 'os io \<Rightarrow> ((int + unit) outcome \<times> 'os io) + 'os io" where
  "write_step lib ops fd flags blocking w =
     (if is_Active (phase (io_st w)) then Inl (Ret (Inr ()), w)
      else if phase (io_st w) = Failed then Inl (Ret (Inl EPIPE), w)
      else case (if tx_backlog (io_st w) \<noteq> [] then flush_backlog ops fd flags w else (Ret (Inr True), w)) of
        (Panic, w1) \<Rightarrow> Inl (Panic, w1)
      | (Ret (Inl _), w1) \<Rightarrow> Inl (Ret (Inl EIO), io_fail_closed w1)
      | (Ret (Inr flushed), w1) \<Rightarrow>
          if \<not> flushed \<and> \<not> blocking then Inl (Ret (Inl EAGAIN), w1)
          else if \<not> flushed then Inr w1
          else (case pull_wire ops fd flags w1 of
              (Panic, w2) \<Rightarrow> Inl (Panic, w2)
            | (Ret (Inl _), w2) \<Rightarrow> Inl (Ret (Inl EPIPE), io_fail_closed w2)
            | (Ret (Inr n), w2) \<Rightarrow>
                if n = 0 then Inl (Ret (Inl EPIPE), io_fail_closed w2)
                else if n > 0 then Inr (io_drive_handshake lib ops w2)
                else
                  let e = io_errno w2 in
                  if (e = EAGAIN \<or> e = EWOULDBLOCK) \<and> \<not> blocking then Inl (Ret (Inl e), w2)
                  else if e \<noteq> EAGAIN \<and> e \<noteq> EWOULDBLOCK then Inl (Ret (Inl e), io_fail_closed w2)
                  else Inr w2))"

definition drive_until_active_for_write ::
  "crypto_lib \<Rightarrow> 'os os_ops \<Rightarrow> int \<Rightarrow> int \<Rightarrow> bool \<Rightarrow> 'os io \<Rightarrow> ((int + unit) outcome \<times> 'os io) option" where
  "drive_until_active_for_write lib ops fd flags blocking w =
     (case flush_backlog ops fd flags w of
        (Panic, w1) \<Rightarrow> Some (Panic, w1)
      | (Ret (Inl _), w1) \<Rightarrow> Some (Ret (Inl EIO), io_fail_closed w1)
      | (Ret (Inr _), w1) \<Rightarrow> iterate (write_step lib ops fd flags blocking) w1)"

definition append_or_flush ::
  "'os os_ops \<Rightarrow> int \<Rightarrow> bytes \<Rightarrow> int \<Rightarrow> bool \<Rightarrow> 'os io \<Rightarrow> (int + unit) outcome \<times> 'os io" where
  "append_or_flush ops fd bs flags blocking w =
     (case append_tx bs (io_st w) of
        (Inr _, s) \<Rightarrow> (Ret (Inr ()), w\<lparr>io_st := s\<rparr>)
      | (Inl _, _) \<Rightarrow>
          (case flush_backlog ops fd flags w of
             (Panic, w1) \<Rightarrow> (Panic, w1)
           | (Ret (Inl _), w1) \<Rightarrow> (Ret (Inl EIO), io_fail_closed w1)
           | (Ret (Inr flushed), w1) \<Rightarrow>
               if \<not> flushed \<and> \<not> blocking then (Ret (Inl EAGAIN), w1)
               else (case append_tx bs (io_st w1) of
                       (Inr _, s) \<Rightarrow> (Ret (Inr ()), w1\<lparr>io_st := s\<rparr>)
                     | (Inl _, s) \<Rightarrow> (Ret (Inl EMSGSIZE), w1\<lparr>io_st := s\<rparr>))))"

section \<open>What may appear on the wire\<close>

text \<open>\<open>wire_log ops out\<close>: \<open>out fd os\<close> is the byte stream the operating system has accepted for
  \<open>fd\<close>. Sending accepts a prefix of what it is given, or nothing on an error; receiving sends
  nothing. The nonces it draws have their fixed length.\<close>

definition wire_log :: "('os, 'x) os_ops_scheme \<Rightarrow> (int \<Rightarrow> 'os \<Rightarrow> bytes) \<Rightarrow> bool" where
  "wire_log ops out \<longleftrightarrow>
     (\<forall>fd bs fl os r os'. sys_send ops fd bs fl os = (r, os') \<longrightarrow>
        (case r of SysOk n \<Rightarrow> n \<le> length bs \<and> out fd os' = out fd os @ take n bs
                 | SysErr e \<Rightarrow> out fd os' = out fd os) \<and>
        (\<forall>fd'. fd' \<noteq> fd \<longrightarrow> out fd' os' = out fd' os)) \<and>
     (\<forall>fd n fl os r os' fd'. sys_recv ops fd n fl os = (r, os') \<longrightarrow> out fd' os' = out fd' os) \<and>
     (\<forall>os. length (ctx_nonce (env ops os)) = FALLBACK_NONCE_LEN)"

text \<open>Bytes that are safe to send: frames that are handshake messages or sealed records.\<close>

inductive protected :: "crypto_lib \<Rightarrow> bytes \<Rightarrow> bool" for lib where
  protected_Nil: "protected lib []"
| protected_handshake: "protected lib s \<Longrightarrow> handshake_message lib t p \<Longrightarrow> frame i t p = Inr f \<Longrightarrow> protected lib (s @ f)"
| protected_data: "protected lib s \<Longrightarrow> SessionKeys_seal lib k p = (Inr ct, k') \<Longrightarrow>
    frame i TYPE_DATA ct = Inr f \<Longrightarrow> protected lib (s @ f)"

lemma protected_append: "protected lib y \<Longrightarrow> protected lib x \<Longrightarrow> protected lib (x @ y)"
proof (induction rule: protected.induct)
  case (protected_handshake s t i p f)
  then show ?case using protected.protected_handshake [of lib "x @ s" t i p f] by simp
next
  case (protected_data s k p ct k' i f)
  then show ?case using protected.protected_data [of lib "x @ s" k p ct k' i f] by simp
qed simp

lemma protected_single:
  "handshake_message lib t p \<Longrightarrow> frame i t p = Inr f \<Longrightarrow> protected lib f"
  "SessionKeys_seal lib k p = (Inr ct, k') \<Longrightarrow> frame i TYPE_DATA ct = Inr f \<Longrightarrow> protected lib f"
  using protected_handshake [OF protected_Nil] protected_data [OF protected_Nil] by fastforce+

text \<open>How a session may evolve: the invariant and the gauge are kept; a failed session stays failed
  and sends nothing; and what was sent together with what is queued is what it was before, followed
  by protected bytes, of which a suffix is lost only when the session fails. What was sent is never
  taken back.\<close>

definition extends :: "bytes \<Rightarrow> bytes \<Rightarrow> bool" where
  "extends a b \<longleftrightarrow> (\<exists>z. b = a @ z)"

lemma extends_simps [simp]: "extends a a" "extends a (a @ z)"
  by (simp_all add: extends_def)

lemma extends_trans: "extends a b \<Longrightarrow> extends b c \<Longrightarrow> extends a c"
  by (auto simp: extends_def)

definition wire_of :: "(int \<Rightarrow> 'os \<Rightarrow> bytes) \<Rightarrow> int \<Rightarrow> 'os io \<Rightarrow> bytes" where
  "wire_of out fd w = out fd (io_os w) @ tx_backlog (io_st w)"

definition emits :: "crypto_lib \<Rightarrow> (int \<Rightarrow> 'os \<Rightarrow> bytes) \<Rightarrow> int \<Rightarrow> 'os io \<Rightarrow> 'os io \<Rightarrow> bool" where
  "emits lib out fd w w' \<longleftrightarrow>
     (\<exists>x y. protected lib x \<and> wire_of out fd w @ x = wire_of out fd w' @ y \<and>
        (y \<noteq> [] \<longrightarrow> phase (io_st w') = Failed)) \<and>
     extends (out fd (io_os w)) (out fd (io_os w')) \<and>
     (phase (io_st w) = Failed \<longrightarrow> out fd (io_os w') = out fd (io_os w)) \<and>
     (\<forall>fd'. fd' \<noteq> fd \<longrightarrow> out fd' (io_os w') = out fd' (io_os w))"

definition evolves ::
  "crypto_lib \<Rightarrow> ('os, 'x) os_ops_scheme \<Rightarrow> (int \<Rightarrow> 'os \<Rightarrow> bytes) \<Rightarrow> int \<Rightarrow> 'os io \<Rightarrow> 'os io \<Rightarrow> bool" where
  "evolves lib ops out fd w w' \<longleftrightarrow>
     balanced (io_st w, io_metrics w) (io_st w', io_metrics w') \<and>
     (phase (io_st w) = Failed \<longrightarrow> phase (io_st w') = Failed) \<and>
     (wire_log ops out \<longrightarrow> emits lib out fd w w')"

lemma emits_refl [simp]: "emits lib out fd w w"
  by (auto simp: emits_def intro: exI [of _ "[]"] protected_Nil)

lemma evolves_refl: "fd_inv (io_st w) \<Longrightarrow> evolves lib ops out fd w w"
  by (simp add: evolves_def)

lemma evolves_inv: "evolves lib ops out fd w w' \<Longrightarrow> fd_inv (io_st w')"
  by (simp add: evolves_def balanced_def)

lemma emits_trans:
  assumes "emits lib out fd w w'" and "emits lib out fd w' w''"
    and "fd_inv (io_st w')" "fd_inv (io_st w'')" "phase (io_st w) = Failed \<longrightarrow> phase (io_st w') = Failed"
    and "phase (io_st w') = Failed \<longrightarrow> phase (io_st w'') = Failed"
  shows "emits lib out fd w w''"
proof -
  from assms(1) obtain x y where x: "protected lib x" "wire_of out fd w @ x = wire_of out fd w' @ y"
    "y \<noteq> [] \<longrightarrow> phase (io_st w') = Failed" by (auto simp: emits_def)
  from assms(2) obtain x' y' where x': "protected lib x'" "wire_of out fd w' @ x' = wire_of out fd w'' @ y'"
    "y' \<noteq> [] \<longrightarrow> phase (io_st w'') = Failed" by (auto simp: emits_def)
  have "\<exists>x y. protected lib x \<and> wire_of out fd w @ x = wire_of out fd w'' @ y \<and>
      (y \<noteq> [] \<longrightarrow> phase (io_st w'') = Failed)"
  proof (cases "phase (io_st w') = Failed")
    case True
    with assms(2-6) have "wire_of out fd w'' = wire_of out fd w'"
      by (auto simp: wire_of_def emits_def fd_inv_def)
    with x True assms(6) show ?thesis by metis
  next
    case False
    with x have "wire_of out fd w @ x = wire_of out fd w'" by auto
    then have "wire_of out fd w @ (x @ x') = wire_of out fd w'' @ y'" using x'(2) by (metis append_assoc)
    with x(1) x' show ?thesis using protected_append by blast
  qed
  then show ?thesis using assms(1,2,5) extends_trans by (auto simp: emits_def)
qed

lemma evolves_trans:
  "evolves lib ops out fd w w' \<Longrightarrow> evolves lib ops out fd w' w'' \<Longrightarrow> evolves lib ops out fd w w''"
  using emits_trans [of lib out fd w w' w''] balanced_trans
  by (fastforce simp: evolves_def balanced_def)

section \<open>Every step evolves the session\<close>

lemma evolvesI:
  assumes "balanced (io_st w, io_metrics w) (io_st w', io_metrics w')"
    and "phase (io_st w) = Failed \<Longrightarrow> phase (io_st w') = Failed"
    and "wire_log ops out \<Longrightarrow> emits lib out fd w w'"
  shows "evolves lib ops out fd w w'"
  using assms by (simp add: evolves_def)

lemma wire_log_send:
  assumes "wire_log ops out" and "sys_send ops fd bs fl os = (SysOk n, os')"
  shows "n \<le> length bs" and "out fd os' = out fd os @ take n bs" and "fd' \<noteq> fd \<Longrightarrow> out fd' os' = out fd' os"
proof -
  from assms have "(case SysOk n of SysOk n \<Rightarrow> n \<le> length bs \<and> out fd os' = out fd os @ take n bs
      | SysErr e \<Rightarrow> out fd os' = out fd os) \<and> (\<forall>fd'. fd' \<noteq> fd \<longrightarrow> out fd' os' = out fd' os)"
    unfolding wire_log_def by blast
  then show "n \<le> length bs" "out fd os' = out fd os @ take n bs" "fd' \<noteq> fd \<Longrightarrow> out fd' os' = out fd' os" by auto
qed

lemma wire_log_send_err:
  assumes "wire_log ops out" and "sys_send ops fd bs fl os = (SysErr e, os')"
  shows "out fd' os' = out fd' os"
proof -
  from assms have "(case SysErr e of SysOk n \<Rightarrow> n \<le> length bs \<and> out fd os' = out fd os @ take n bs
      | SysErr e \<Rightarrow> out fd os' = out fd os) \<and> (\<forall>fd'. fd' \<noteq> fd \<longrightarrow> out fd' os' = out fd' os)"
    unfolding wire_log_def by blast
  then show ?thesis by (cases "fd' = fd") auto
qed

lemma wire_log_recv:
  "wire_log ops out \<Longrightarrow> sys_recv ops fd n fl os = (r, os') \<Longrightarrow> out fd' os' = out fd' os"
  unfolding wire_log_def by blast

lemma evolves_os:
  assumes "fd_inv (io_st w)" and "io_st w' = io_st w" and "io_metrics w' = io_metrics w"
    and "wire_log ops out \<Longrightarrow> \<forall>fd. out fd (io_os w') = out fd (io_os w)"
  shows "evolves lib ops out fd w w'"
  using assms by (intro evolvesI) (auto simp: emits_def wire_of_def intro!: exI [of _ "[]"] protected_Nil)

lemma evolves_errno: "evolves lib ops out fd w w' \<Longrightarrow> evolves lib ops out fd w (w'\<lparr>io_errno := e\<rparr>)"
  by (simp add: evolves_def emits_def wire_of_def)

lemma io_fail_closed_evolves: "evolves lib ops out fd w (io_fail_closed w)"
proof (rule evolvesI)
  show "balanced (io_st w, io_metrics w) (io_st (io_fail_closed w), io_metrics (io_fail_closed w))"
    using fail_closed_balanced [of "io_st w" "io_metrics w"]
    by (simp add: io_fail_closed_def split_beta)
  show "emits lib out fd w (io_fail_closed w)"
    unfolding emits_def
    by (intro conjI exI [of _ "[]"] exI [of _ "tx_backlog (io_st w)"])
      (auto simp: wire_of_def io_fail_closed_def split_beta protected_Nil)
qed (simp add: io_fail_closed_def split_beta)

lemma io_fail_closed_phase [simp]: "phase (io_st (io_fail_closed w)) = Failed"
  by (simp add: io_fail_closed_def split_beta)

text \<open>Flushing takes bytes off the front of the queue and gives exactly those to the operating
  system, in order.\<close>

lemma flush_backlog_exact:
  assumes "flush_backlog ops fd flags w = (r, w')"
  shows "\<exists>n. io_st w' = (io_st w)\<lparr>tx_backlog := drop n (tx_backlog (io_st w))\<rparr> \<and> io_metrics w' = io_metrics w \<and>
    (wire_log ops out \<longrightarrow> r \<noteq> Panic \<and> out fd (io_os w') = out fd (io_os w) @ take n (tx_backlog (io_st w)) \<and>
       (\<forall>fd'. fd' \<noteq> fd \<longrightarrow> out fd' (io_os w') = out fd' (io_os w))) \<and>
    (r = Ret (Inr True) \<longrightarrow> tx_backlog (io_st w') = [])"
  using assms
proof (induction ops fd flags w arbitrary: r rule: flush_backlog.induct)
  case (1 ops fd flags w)
  let ?tx = "tx_backlog (io_st w)"
  obtain q os' where s: "sys_send ops fd ?tx flags (io_os w) = (q, os')"
    by (cases "sys_send ops fd ?tx flags (io_os w)")
  note unf = flush_backlog.simps [of ops fd flags w] s
  consider (empty) "?tx = []" | (err) e where "?tx \<noteq> []" "q = SysErr e" | (zero) "?tx \<noteq> []" "q = SysOk 0"
    | (over) n where "?tx \<noteq> []" "q = SysOk n" "length ?tx < n"
    | (some) n where "?tx \<noteq> []" "q = SysOk n" "0 < n" "n \<le> length ?tx"
    by (cases q) (auto, metis linorder_not_less neq0_conv)
  then show ?case
  proof cases
    case empty
    with "1.prems" show ?thesis by (intro exI [of _ 0]) (auto simp: unf)
  next
    case err
    with "1.prems" s wire_log_send_err [of ops out fd ?tx flags "io_os w" e os'] show ?thesis
      by (intro exI [of _ 0]) (auto simp: unf Let_def split: if_split_asm)
  next
    case zero
    with "1.prems" s wire_log_send(2,3) [of ops out fd ?tx flags "io_os w" 0 os'] show ?thesis
      by (intro exI [of _ 0]) (auto simp: unf)
  next
    case over
    with "1.prems" s wire_log_send(1) [of ops out fd ?tx flags "io_os w" n os'] show ?thesis
      by (intro exI [of _ 0]) (auto simp: unf)
  next
    case (some n)
    let ?v = "w\<lparr>io_os := os', io_st := (io_st w)\<lparr>tx_backlog := drop n ?tx\<rparr>\<rparr>"
    have v: "flush_backlog ops fd flags ?v = (r, w')" using "1.prems" some by (simp add: unf)
    have "\<not> length ?tx < n" using some(4) by simp
    from "1.IH" [OF some(1) s [symmetric] some(2) refl some(3) this v] obtain k where
      "io_st w' = (io_st ?v)\<lparr>tx_backlog := drop k (tx_backlog (io_st ?v))\<rparr>" "io_metrics w' = io_metrics ?v"
      "wire_log ops out \<longrightarrow> r \<noteq> Panic \<and> out fd (io_os w') = out fd (io_os ?v) @ take k (tx_backlog (io_st ?v)) \<and>
         (\<forall>fd'. fd' \<noteq> fd \<longrightarrow> out fd' (io_os w') = out fd' (io_os ?v))"
      "r = Ret (Inr True) \<longrightarrow> tx_backlog (io_st w') = []" by blast
    moreover have "take (k + n) ?tx = take n ?tx @ take k (drop n ?tx)" by (metis add.commute take_add)
    ultimately show ?thesis using wire_log_send [of ops out fd ?tx flags "io_os w" n os'] s some(2)
      by (intro exI [of _ "k + n"]) auto
  qed
qed

lemma flush_backlog_evolves:
  assumes "fd_inv (io_st w)"
  shows "evolves lib ops out fd w (snd (flush_backlog ops fd flags w))"
proof -
  obtain r w' where f: "flush_backlog ops fd flags w = (r, w')" by (cases "flush_backlog ops fd flags w")
  from flush_backlog_exact [OF f, of out] obtain n where
    n: "io_st w' = (io_st w)\<lparr>tx_backlog := drop n (tx_backlog (io_st w))\<rparr>" "io_metrics w' = io_metrics w"
    "wire_log ops out \<longrightarrow> out fd (io_os w') = out fd (io_os w) @ take n (tx_backlog (io_st w)) \<and>
       (\<forall>fd'. fd' \<noteq> fd \<longrightarrow> out fd' (io_os w') = out fd' (io_os w))" by blast
  have "evolves lib ops out fd w w'" using n assms unfolding evolves_def emits_def
    by (intro conjI impI exI [of _ "[]"])
      (auto simp: balanced_def fd_inv_def load_def wire_of_def protected_Nil)
  then show ?thesis by (simp add: f)
qed

lemma pull_wire_evolves:
  assumes "fd_inv (io_st w)" and "phase (io_st w) \<noteq> Failed"
  shows "evolves lib ops out fd w (snd (pull_wire ops fd' flags w))"
proof -
  obtain r os' where r: "sys_recv ops fd' 8192 flags (io_os w) = (r, os')"
    by (cases "sys_recv ops fd' 8192 flags (io_os w)")
  have o: "out fd'' os' = out fd'' (io_os w)" if "wire_log ops out" for fd''
    using wire_log_recv [OF that r] .
  have same: "evolves lib ops out fd w (w\<lparr>io_os := os'\<rparr>)" "evolves lib ops out fd w (w\<lparr>io_os := os', io_errno := e\<rparr>)" for e
    using assms(1) o by (auto intro!: evolves_os)
  have "evolves lib ops out fd w (w\<lparr>io_os := os', io_st := s\<rparr>)"
    if "append_rx_wire bs (io_st w) = (x, s)" for bs x s
  proof (rule evolvesI)
    show "balanced (io_st w, io_metrics w)
        (io_st (w\<lparr>io_os := os', io_st := s\<rparr>), io_metrics (w\<lparr>io_os := os', io_st := s\<rparr>))"
      using that assms rxw.append_cases [of "io_st w" bs]
      by (fastforce simp: balanced_def fd_inv_def load_def)
    show "emits lib out fd w (w\<lparr>io_os := os', io_st := s\<rparr>)" if "wire_log ops out"
      using assms \<open>append_rx_wire bs (io_st w) = (x, s)\<close> o [OF that]
      by (auto simp: emits_def wire_of_def append_rx_wire_def append_bounded_def
          intro!: exI [of _ "[]"] protected_Nil split: if_split_asm)
  qed (use assms in simp)
  with same r show ?thesis
    by (auto simp: pull_wire_def Let_def split: recvret.split prod.split sum.split)
qed

lemma io_drive_handshake_evolves:
  assumes "fd_inv (io_st w)"  and "phase (io_st w) \<noteq> Failed"
  shows "evolves lib ops out fd w (io_drive_handshake lib ops w)"
proof -
  obtain s m where d: "drive_handshake lib (env ops (io_os w)) (io_st w) (io_metrics w) = (s, m)"
    by (cases "drive_handshake lib (env ops (io_os w)) (io_st w) (io_metrics w)")
  have n: "length (ctx_nonce (env ops (io_os w))) = FALLBACK_NONCE_LEN" if "wire_log ops out"
    using that by (simp add: wire_log_def)
  have "emits lib out fd w (w\<lparr>io_st := s, io_metrics := m\<rparr>)" if "wire_log ops out"
    using drive_handshake_queue [OF d n [OF that]]
  proof (elim disjE exE conjE)
    assume "phase s = Failed" "tx_backlog s = []"
    then show ?thesis using assms(2) unfolding emits_def
      by (intro conjI exI [of _ "[]"] exI [of _ "tx_backlog (io_st w)"]) (auto simp: wire_of_def protected_Nil)
  next
    assume "tx_backlog s = tx_backlog (io_st w)"
    then show ?thesis using assms(2) unfolding emits_def
      by (intro conjI exI [of _ "[]"]) (auto simp: wire_of_def protected_Nil)
  next
    fix i t p g assume "handshake_message lib t p" "frame i t p = Inr g" "tx_backlog s = tx_backlog (io_st w) @ g"
    then show ?thesis using assms(2) unfolding emits_def
      by (intro conjI exI [of _ g] exI [of _ "[]"]) (auto simp: wire_of_def intro: protected_single)
  qed
  moreover have "balanced (io_st w, io_metrics w) (s, m)"
    using drive_handshake_balanced [OF assms(1)] d by metis
  ultimately show ?thesis using d assms(2)
    by (intro evolvesI) (simp_all add: io_drive_handshake_def)
qed

lemma flush_keeps_phase: "phase (io_st (snd (flush_backlog ops fd flags w))) = phase (io_st w)"
proof (induction ops fd flags w rule: flush_backlog.induct)
  case (1 ops fd flags w)
  then show ?case
    by (subst flush_backlog.simps) (auto simp: Let_def split: sysret.split prod.split)
qed

lemma pull_keeps_phase: "phase (io_st (snd (pull_wire ops fd flags w))) = phase (io_st w)"
  by (auto simp: pull_wire_def Let_def append_rx_wire_def append_bounded_def
      split: recvret.split prod.split sum.split if_split_asm)

text \<open>The world after a loop body, whether it leaves or goes round.\<close>

definition after :: "('r \<times> 'w) + 'w \<Rightarrow> 'w" where
  "after x = (case x of Inl (r, w) \<Rightarrow> w | Inr w \<Rightarrow> w)"

lemma write_step_evolves:
  assumes "fd_inv (io_st w)"
  shows "evolves lib ops out fd w (after (write_step lib ops fd flags blocking w))"
proof (cases "is_Active (phase (io_st w)) \<or> phase (io_st w) = Failed")
  case True
  then show ?thesis using evolves_refl [OF assms] by (auto simp: write_step_def after_def)
next
  case False
  define x where "x = (if tx_backlog (io_st w) \<noteq> [] then flush_backlog ops fd flags w else (Ret (Inr True), w))"
  obtain r1 w1 where x1: "x = (r1, w1)" by (cases x)
  have w1: "evolves lib ops out fd w w1" "phase (io_st w1) \<noteq> Failed"
    using x1 flush_backlog_evolves [OF assms, of lib ops out fd flags] evolves_refl [OF assms]
      flush_keeps_phase [of ops fd flags w] False by (auto simp: x_def split: if_split_asm)
  obtain r2 w2 where p: "pull_wire ops fd flags w1 = (r2, w2)" by (cases "pull_wire ops fd flags w1")
  have w2: "evolves lib ops out fd w w2" "phase (io_st w2) \<noteq> Failed"
    using evolves_trans [OF w1(1) pull_wire_evolves [OF evolves_inv [OF w1(1)] w1(2), of _ _ _ _ fd flags]]
      pull_keeps_phase [of ops fd flags w1] p w1 by simp_all
  note ends = evolves_trans [OF w1(1) io_fail_closed_evolves] evolves_trans [OF w2(1) io_fail_closed_evolves]
    evolves_trans [OF w2(1) io_drive_handshake_evolves [OF evolves_inv [OF w2(1)] w2(2)]]
  with w1 w2 p False show ?thesis
    unfolding write_step_def x_def [symmetric] x1
    by (auto simp: after_def Let_def split: outcome.split sum.split)
qed

lemma iterate_evolves:
  assumes "iterate step w0 = Some (r, w')" and "evolves lib ops out fd w w0"
    and step: "\<And>v. fd_inv (io_st v) \<Longrightarrow> evolves lib ops out fd v (after (step v))"
  shows "evolves lib ops out fd w w'"
proof -
  have st: "evolves lib ops out fd w (after (step v))" if "evolves lib ops out fd w v" for v
    using evolves_trans [OF that step [OF evolves_inv [OF that]]] .
  have "evolves lib ops out fd w (snd (r, w'))"
  proof (rule iterate_invariant [OF assms(1), where I = "evolves lib ops out fd w", OF assms(2)])
    fix v v' assume "evolves lib ops out fd w v" "step v = Inr v'"
    with st [of v] show "evolves lib ops out fd w v'" by (simp add: after_def)
  next
    fix v q assume "evolves lib ops out fd w v" "step v = Inl q"
    with st [of v] show "evolves lib ops out fd w (snd q)" by (simp add: after_def split_beta)
  qed
  then show ?thesis by simp
qed

lemma drive_until_active_evolves:
  assumes "fd_inv (io_st w)" and "drive_until_active_for_write lib ops fd flags blocking w = Some (r, w')"
  shows "evolves lib ops out fd w w'"
proof -
  obtain r1 w1 where f: "flush_backlog ops fd flags w = (r1, w1)" by (cases "flush_backlog ops fd flags w")
  have w1: "evolves lib ops out fd w w1" using flush_backlog_evolves [OF assms(1)] f by (metis snd_conv)
  consider "w' = w1" | "w' = io_fail_closed w1" | "iterate (write_step lib ops fd flags blocking) w1 = Some (r, w')"
    using assms(2) f by (auto simp: drive_until_active_for_write_def split: outcome.split_asm sum.split_asm)
  then show ?thesis
  proof cases
    case 3
    show ?thesis by (rule iterate_evolves [OF 3 w1 write_step_evolves])
  qed (use w1 evolves_trans [OF w1 io_fail_closed_evolves] in simp_all)
qed

lemma append_tx_evolves:
  assumes "fd_inv (io_st w)" and "append_tx bs (io_st w) = (x, s)" and "phase (io_st w) \<noteq> Failed"
    and "protected lib bs"
  shows "evolves lib ops out fd w (w\<lparr>io_st := s\<rparr>)"
proof -
  have "length (tx_backlog (io_st w)) \<le> MAX_WRITE_BACKLOG" using assms(1) by (simp add: fd_inv_def)
  then show ?thesis
  proof (cases rule: txb.append_cases [of "io_st w" bs])
    case fits
    with assms show ?thesis unfolding evolves_def emits_def
      by (intro conjI impI exI [of _ bs] exI [of _ "[]"])
        (auto simp: balanced_def fd_inv_def load_def wire_of_def)
  next
    case full
    with assms(2) have "w\<lparr>io_st := s\<rparr> = w" by (cases w) simp
    with assms(1) show ?thesis by (simp add: evolves_refl)
  qed
qed

lemma append_or_flush_evolves:
  assumes "fd_inv (io_st w)" and "append_or_flush ops fd bs flags blocking w = (r, w')"
    and "phase (io_st w) \<noteq> Failed" and "protected lib bs"
  shows "evolves lib ops out fd w w'"
proof -
  obtain r1 w1 where f: "flush_backlog ops fd flags w = (r1, w1)" by (cases "flush_backlog ops fd flags w")
  have w1: "evolves lib ops out fd w w1" "phase (io_st w1) \<noteq> Failed"
    using flush_backlog_evolves [OF assms(1)] flush_keeps_phase [of ops fd flags w] f assms(3) by (metis snd_conv)+
  obtain x s where a: "append_tx bs (io_st w) = (x, s)" by (cases "append_tx bs (io_st w)")
  obtain x' s' where a': "append_tx bs (io_st w1) = (x', s')" by (cases "append_tx bs (io_st w1)")
  note e = append_tx_evolves [OF assms(1) a assms(3,4)]
    evolves_trans [OF w1(1) append_tx_evolves [OF evolves_inv [OF w1(1)] a' w1(2) assms(4)]]
    evolves_trans [OF w1(1) io_fail_closed_evolves]
  from assms(2) f a a' w1(1) e show ?thesis
    by (auto simp: append_or_flush_def split: sum.split_asm outcome.split_asm if_split_asm)
qed

section \<open>Termination of the write loop\<close>

text \<open>A blocking descriptor without timeouts: sending and receiving make progress or fail, but do
  not report that they would block.\<close>

definition never_would_block :: "('os, 'x) os_ops_scheme \<Rightarrow> int \<Rightarrow> bool" where
  "never_would_block ops fd \<longleftrightarrow>
     (\<forall>bs fl os r os'. bs \<noteq> [] \<longrightarrow> sys_send ops fd bs fl os = (r, os') \<longrightarrow>
        r \<noteq> SysOk 0 \<and> r \<noteq> SysErr EAGAIN \<and> r \<noteq> SysErr EWOULDBLOCK) \<and>
     (\<forall>n fl os r os'. sys_recv ops fd n fl os = (r, os') \<longrightarrow> r \<noteq> RecvErr EAGAIN \<and> r \<noteq> RecvErr EWOULDBLOCK)"

lemma flush_never_would_block:
  assumes "never_would_block ops fd" and "flush_backlog ops fd flags w = (Ret (Inr b), w')"
  shows "b"
  using assms
proof (induction ops fd flags w rule: flush_backlog.induct)
  case (1 ops fd flags w)
  show ?case
  proof (cases "tx_backlog (io_st w) = []")
    case False
    obtain r os' where s: "sys_send ops fd (tx_backlog (io_st w)) flags (io_os w) = (r, os')"
      by (cases "sys_send ops fd (tx_backlog (io_st w)) flags (io_os w)")
    with "1.prems"(1) False have "r \<noteq> SysOk 0" "r \<noteq> SysErr EAGAIN" "r \<noteq> SysErr EWOULDBLOCK"
      unfolding never_would_block_def by blast+
    with "1.prems" "1.IH" [OF False s [symmetric]] s False show ?thesis
      by (auto simp: flush_backlog.simps [of ops fd flags w] Let_def split: sysret.split_asm if_split_asm)
  qed (use "1.prems" in \<open>simp add: flush_backlog.simps\<close>)
qed

text \<open>How much more the write loop can pull before it must stop.\<close>

definition write_room :: "'os io \<Rightarrow> nat" where
  "write_room w =
     (if is_Active (phase (io_st w)) \<or> phase (io_st w) = Failed then 0
      else Suc MAX_WIRE_RX_BUFFER - length (rx_wire (io_st w)))"

lemma drive_handshake_progress:
  "drive_handshake lib c st m = (s, m') \<Longrightarrow> phase s = Failed \<or> is_Active (phase s) \<or> s = st"
  using handle_frame_phase
  by (cases rule: pop_cases [of "rx_wire st"]) (auto simp: drive_handshake_eq, metis fail_closed_phase fst_conv, metis fst_conv)

lemma flush_keeps_rx: "rx_wire (io_st (snd (flush_backlog ops fd flags w))) = rx_wire (io_st w)"
proof (induction ops fd flags w rule: flush_backlog.induct)
  case (1 ops fd flags w)
  then show ?case
    by (subst flush_backlog.simps) (auto simp: Let_def split: sysret.split prod.split)
qed

lemma pull_wire_grows:
  assumes "pull_wire ops fd flags w = (Ret (Inr n), w')" and "0 < n"
  shows "\<exists>bs. int (length bs) = n \<and> rx_wire (io_st w') = rx_wire (io_st w) @ bs"
  using assms
  by (auto simp: pull_wire_def Let_def append_rx_wire_def append_bounded_def
      split: recvret.split_asm prod.split_asm sum.split_asm if_split_asm)

lemma pull_never_would_block:
  assumes "never_would_block ops fd" and "pull_wire ops fd flags w = (Ret (Inr n), w')" and "n < 0"
  shows "io_errno w' \<noteq> EAGAIN" and "io_errno w' \<noteq> EWOULDBLOCK"
proof -
  obtain r os' where r: "sys_recv ops fd 8192 flags (io_os w) = (r, os')"
    by (cases "sys_recv ops fd 8192 flags (io_os w)")
  with assms(1) have "r \<noteq> RecvErr EAGAIN" "r \<noteq> RecvErr EWOULDBLOCK"
    unfolding never_would_block_def by blast+
  with r assms(2,3) show "io_errno w' \<noteq> EAGAIN" "io_errno w' \<noteq> EWOULDBLOCK"
    by (auto simp: pull_wire_def Let_def split: recvret.split_asm prod.split_asm sum.split_asm if_split_asm)
qed

lemma write_step_room:
  assumes "fd_inv (io_st w)" and "\<not> blocking \<or> never_would_block ops fd"
    and "write_step lib ops fd flags blocking w = Inr w'"
  shows "write_room w' < write_room w"
proof -
  have open_phase: "\<not> is_Active (phase (io_st w))" "phase (io_st w) \<noteq> Failed"
    using assms(3) by (auto simp: write_step_def)
  define x where "x = (if tx_backlog (io_st w) \<noteq> [] then flush_backlog ops fd flags w else (Ret (Inr True), w))"
  obtain r1 w1 where x1: "x = (r1, w1)" by (cases x)
  have w1: "evolves lib ops (\<lambda>_ _. []) fd w w1" "phase (io_st w1) = phase (io_st w)"
      "rx_wire (io_st w1) = rx_wire (io_st w)"
    using x1 flush_backlog_evolves [OF assms(1), of lib ops _ fd flags] evolves_refl [OF assms(1)]
      flush_keeps_phase [of ops fd flags w] flush_keeps_rx [of ops fd flags w]
    by (auto simp: x_def split: if_split_asm)
  have honest: "b" if "r1 = Ret (Inr b)" "blocking" for b
    using that assms(2) x1 flush_never_would_block by (auto simp: x_def split: if_split_asm)
  obtain r2 w2 where p: "pull_wire ops fd flags w1 = (r2, w2)" by (cases "pull_wire ops fd flags w1")
  have inv2: "fd_inv (io_st w2)" "phase (io_st w2) = phase (io_st w)"
    using evolves_inv [OF pull_wire_evolves [OF evolves_inv [OF w1(1)], of lib ops "\<lambda>_ _. []" fd fd flags]]
      pull_keeps_phase [of ops fd flags w1] p w1(2) open_phase by simp_all
  have "\<exists>n. r2 = Ret (Inr n) \<and> 0 < n \<and> w' = io_drive_handshake lib ops w2"
    using assms(2,3) open_phase honest pull_never_would_block [of ops fd flags w1 _ w2] p
    unfolding write_step_def x_def [symmetric] x1
    by (auto simp: Let_def split: outcome.split_asm sum.split_asm if_split_asm)
  then obtain n where n: "r2 = Ret (Inr n)" "0 < n" "w' = io_drive_handshake lib ops w2" by blast
  from pull_wire_grows [OF p [unfolded n(1)] n(2)] n(2) w1(3)
  have longer: "length (rx_wire (io_st w)) < length (rx_wire (io_st w2))" by auto
  have "length (rx_wire (io_st w2)) \<le> MAX_WIRE_RX_BUFFER" using inv2 by (simp add: fd_inv_def)
  with longer have lt: "Suc MAX_WIRE_RX_BUFFER - length (rx_wire (io_st w2)) <
      Suc MAX_WIRE_RX_BUFFER - length (rx_wire (io_st w))" by simp
  obtain s m where d: "drive_handshake lib (env ops (io_os w2)) (io_st w2) (io_metrics w2) = (s, m)"
    by (cases "drive_handshake lib (env ops (io_os w2)) (io_st w2) (io_metrics w2)")
  with drive_handshake_progress [OF d] lt n(3) open_phase show ?thesis
    by (auto simp: io_drive_handshake_def write_room_def)
qed

lemma drive_until_active_returns:
  assumes "fd_inv (io_st w)" and "\<not> blocking \<or> never_would_block ops fd"
  shows "\<exists>r. drive_until_active_for_write lib ops fd flags blocking w = Some r"
proof -
  obtain r1 w1 where f: "flush_backlog ops fd flags w = (r1, w1)" by (cases "flush_backlog ops fd flags w")
  have "fd_inv (io_st w1)"
    using evolves_inv [OF flush_backlog_evolves [OF assms(1), of lib ops "\<lambda>_ _. []" fd flags]] f by simp
  then have "\<exists>r. iterate (write_step lib ops fd flags blocking) w1 = Some r"
  proof (rule iterate_terminates [where I = "\<lambda>w. fd_inv (io_st w)", OF wf_measure])
    fix v v' assume "fd_inv (io_st v)" "write_step lib ops fd flags blocking v = Inr v'"
    then show "fd_inv (io_st v') \<and> (v', v) \<in> measure write_room"
      using write_step_room [OF _ assms(2)]
        evolves_inv [OF write_step_evolves [of v lib ops "\<lambda>_ _. []" fd flags blocking]]
      by (simp add: after_def)
  qed
  with f show ?thesis
    by (auto simp: drive_until_active_for_write_def split: outcome.split sum.split)
qed

section \<open>A concrete operating system\<close>

text \<open>Descriptor 3 is a connected non-blocking stream socket that accepts everything and delivers the
  given segments; other descriptors are not sockets.\<close>

record toy_os =
  t_out :: bytes
  t_in :: "bytes list"

definition toy_ops :: "ctx \<Rightarrow> toy_os os_ops" where
  "toy_ops c =
     \<lparr>env = (\<lambda>_. c),
      sys_send = (\<lambda>fd bs fl os. if fd = 3 then (SysOk (length bs), os\<lparr>t_out := t_out os @ bs\<rparr>) else (SysErr EBADF, os)),
      sys_recv = (\<lambda>fd n fl os. case t_in os of [] \<Rightarrow> (RecvErr EAGAIN, os)
        | b # bs \<Rightarrow> (RecvOk (take n b), os\<lparr>t_in := bs\<rparr>)),
      sys_getfl = (\<lambda>fd os. SysOk 2048),
      sys_so_type = (\<lambda>fd os. if fd = 3 then SysOk 1 else SysErr 88)\<rparr>"

definition toy_wire :: "int \<Rightarrow> toy_os \<Rightarrow> bytes" where
  "toy_wire fd os = (if fd = 3 then t_out os else [])"

definition toy_io :: "FdState \<Rightarrow> bytes list \<Rightarrow> toy_os io" where
  "toy_io s ins = \<lparr>io_st = s, io_metrics = RUNTIME_METRICS_new, io_errno = 0, io_os = \<lparr>t_out = [], t_in = ins\<rparr>\<rparr>"

definition toy_active :: "ctx \<Rightarrow> SessionKeys \<Rightarrow> FdState" where
  "toy_active c k = (FdState_responder c NistStandard768)\<lparr>phase := Active k, counted_active := True\<rparr>"

lemma toy_wire_log: "wire_log (toy_ops (toy_ctx i d)) toy_wire"
  by (auto simp: wire_log_def toy_ops_def toy_wire_def toy_ctx_def FALLBACK_NONCE_LEN_def split: list.splits)

lemma toy_nonblocking: "is_blocking (toy_ops c) fd w = (False, w)"
  by (simp add: is_blocking_def toy_ops_def O_NONBLOCK_def)

lemma toy_active_inv: "fd_inv (toy_active c k)"
  by (simp add: toy_active_def fd_inv_def FdState_new_defs)

end
