(* ===== verification/Data_Path.thy ===== *)
theory Data_Path
  imports Wire_Io
begin

text \<open>
  Application data through one locked session (\<open>overlay_send\<close> and \<open>overlay_recv\<close> of
  \<open>src/interceptor.rs\<close> after the per-descriptor lock is taken): splitting plaintext into sealed
  records, and opening received records into the plaintext buffer. \<open>None\<close> is a call that never
  returns.
\<close>

section \<open>Admission\<close>

definition inherited_after_fork ::
  "ctx \<Rightarrow> FdState \<Rightarrow> RuntimeMetrics \<Rightarrow> bool \<times> FdState \<times> RuntimeMetrics" where
  "inherited_after_fork c st m =
     (if owner_pid st = current_pid c then (False, st, m)
      else let (st', m') = fail_closed st m in (True, st', m'))"

text \<open>The two checks at the start of \<open>overlay_send\<close> and \<open>overlay_recv\<close>.\<close>

definition admit :: "'os os_ops \<Rightarrow> 'os io \<Rightarrow> bool \<times> 'os io" where
  "admit ops w =
     (let c = env ops (io_os w);
          (inherited, s, m) = inherited_after_fork c (io_st w) (io_metrics w);
          w1 = w\<lparr>io_st := s, io_metrics := m\<rparr> in
      if inherited then (False, w1\<lparr>io_errno := EPIPE\<rparr>)
      else let (stale, s', m') = fail_if_stale_idle_config c s m;
               w2 = w1\<lparr>io_st := s', io_metrics := m'\<rparr> in
        if stale then (False, w2\<lparr>io_errno := EPIPE\<rparr>) else (True, w2))"

section \<open>Sending\<close>

text \<open>The record loop: each pass seals at most \<open>MAX_RECORD_PLAINTEXT\<close> bytes. A left result is the
  error number of the early return.\<close>

function send_records ::
  "crypto_lib \<Rightarrow> 'os os_ops \<Rightarrow> int \<Rightarrow> u8 \<Rightarrow> int \<Rightarrow> bool \<Rightarrow> bytes \<Rightarrow> 'os io \<Rightarrow> (int + unit) outcome \<times> 'os io" where
  "send_records lib ops fd suite_id flags blocking plaintext w =
     (if plaintext = [] then (Ret (Inr ()), w)
      else case phase (io_st w) of
        Active keys \<Rightarrow>
          (case SessionKeys_seal lib keys (take MAX_RECORD_PLAINTEXT plaintext) of
             (Inl _, _) \<Rightarrow> (Ret (Inl EIO), io_fail_closed w)
           | (Inr ct, keys') \<Rightarrow>
               (let w1 = w\<lparr>io_st := (io_st w)\<lparr>phase := Active keys'\<rparr>\<rparr> in
                case frame suite_id TYPE_DATA ct of
                  Inl _ \<Rightarrow> (Ret (Inl EMSGSIZE), io_fail_closed w1)
                | Inr f \<Rightarrow>
                    (case append_or_flush ops fd f flags blocking w1 of
                       (Panic, w2) \<Rightarrow> (Panic, w2)
                     | (Ret (Inl e), w2) \<Rightarrow> (Ret (Inl e), io_fail_closed w2)
                     | (Ret (Inr _), w2) \<Rightarrow>
                         send_records lib ops fd suite_id flags blocking
                           (drop MAX_RECORD_PLAINTEXT plaintext) w2)))
      | _ \<Rightarrow> (Ret (Inl EPIPE), io_fail_closed w))"
  by pat_completeness auto
termination
  by (relation "measure (\<lambda>(lib, ops, fd, suite_id, flags, blocking, plaintext, w). length plaintext)")
    (auto simp: MAX_RECORD_PLAINTEXT_def)

declare send_records.simps [simp del]

text \<open>The loop that a blocking descriptor waits in until its queue is empty.\<close>

definition flush_step ::
  "'os os_ops \<Rightarrow> int \<Rightarrow> int \<Rightarrow> nat \<Rightarrow> 'os io \<Rightarrow> (int outcome \<times> 'os io) + 'os io" where
  "flush_step ops fd flags len w =
     (case flush_backlog ops fd flags w of
        (Panic, w1) \<Rightarrow> Inl (Panic, w1)
      | (Ret (Inl _), w1) \<Rightarrow> Inl (Ret (- 1), (io_fail_closed w1)\<lparr>io_errno := EIO\<rparr>)
      | (Ret (Inr flushed), w1) \<Rightarrow> if flushed then Inl (Ret (int len), w1) else Inr w1)"

definition overlay_send_locked ::
  "crypto_lib \<Rightarrow> 'os os_ops \<Rightarrow> int \<Rightarrow> bytes \<Rightarrow> int \<Rightarrow> 'os io \<Rightarrow> (int outcome \<times> 'os io) option" where
  "overlay_send_locked lib ops fd plaintext flags w =
     (case admit ops w of
        (False, w1) \<Rightarrow> Some (Ret (- 1), w1)
      | (True, w1) \<Rightarrow>
          (case is_blocking ops fd w1 of (blocking, w2) \<Rightarrow>
           case drive_until_active_for_write lib ops fd flags blocking w2 of
             None \<Rightarrow> None
           | Some (Panic, w3) \<Rightarrow> Some (Panic, w3)
           | Some (Ret (Inl e), w3) \<Rightarrow> Some (Ret (- 1), w3\<lparr>io_errno := e\<rparr>)
           | Some (Ret (Inr _), w3) \<Rightarrow>
               if plaintext = [] then Some (Ret 0, w3)
               else (case send_records lib ops fd (CipherSuite_id (policy_suite (io_st w3))) flags blocking plaintext w3 of
                   (Panic, w4) \<Rightarrow> Some (Panic, w4)
                 | (Ret (Inl e), w4) \<Rightarrow> Some (Ret (- 1), w4\<lparr>io_errno := e\<rparr>)
                 | (Ret (Inr _), w4) \<Rightarrow>
                     (case flush_backlog ops fd flags w4 of
                        (Panic, w5) \<Rightarrow> Some (Panic, w5)
                      | (Ret (Inl _), w5) \<Rightarrow> Some (Ret (- 1), (io_fail_closed w5)\<lparr>io_errno := EIO\<rparr>)
                      | (Ret (Inr flushed), w5) \<Rightarrow>
                          if flushed \<or> \<not> blocking then Some (Ret (int (length plaintext)), w5)
                          else iterate (flush_step ops fd flags (length plaintext)) w5))))"

section \<open>Receiving\<close>

text \<open>The inner loop over complete frames of an active session; left is the fail-closed return.\<close>

function drain_records ::
  "crypto_lib \<Rightarrow> FdState \<Rightarrow> RuntimeMetrics \<Rightarrow> (unit + unit) \<times> FdState \<times> RuntimeMetrics" where
  "drain_records lib st m =
     (case try_pop_frame (rx_wire st) of
        (Inl _, _) \<Rightarrow> (Inl (), fail_closed st m)
      | (Inr None, _) \<Rightarrow> (Inr (), st, m)
      | (Inr (Some f), rest) \<Rightarrow>
          (let st1 = st\<lparr>rx_wire := rest\<rparr> in
           if pf_tag f = TYPE_DATA then
             if pf_suite_id f \<noteq> CipherSuite_id (policy_suite st1) then (Inl (), fail_closed st1 m)
             else (case phase st1 of
                 Active keys \<Rightarrow>
                   (case SessionKeys_open lib keys (pf_payload f) of
                      (Inl _, keys') \<Rightarrow> (Inl (), fail_closed (st1\<lparr>phase := Active keys'\<rparr>) m)
                    | (Inr pt, keys') \<Rightarrow>
                        (case append_rx_plain pt (st1\<lparr>phase := Active keys'\<rparr>) of
                           (Inl _, st2) \<Rightarrow> (Inl (), fail_closed st2 m)
                         | (Inr _, st2) \<Rightarrow> drain_records lib st2 m))
               | _ \<Rightarrow> drain_records lib st1 m)
           else (Inl (), fail_closed st1 m)))"
  by pat_completeness auto
termination
  by (relation "measure (\<lambda>(lib, st, m). length (rx_wire st))")
    (auto dest!: try_pop_frame_shrinks [OF sym] simp: append_rx_plain_def append_bounded_def split: if_split_asm)

declare drain_records.simps [simp del]

definition copy_plaintext_to_app :: "nat \<Rightarrow> 'os io \<Rightarrow> (int \<times> bytes) outcome \<times> 'os io" where
  "copy_plaintext_to_app len w =
     (let amt = min len (length (rx_plain (io_st w))) in
      (Ret (int amt, take amt (rx_plain (io_st w))),
       w\<lparr>io_st := (io_st w)\<lparr>rx_plain := drop amt (rx_plain (io_st w))\<rparr>\<rparr>))"

text \<open>The handshake part of the receive loop; the results of the two flushes are ignored.\<close>

definition handshake_turn :: "crypto_lib \<Rightarrow> 'os os_ops \<Rightarrow> int \<Rightarrow> int \<Rightarrow> 'os io \<Rightarrow> unit outcome \<times> 'os io" where
  "handshake_turn lib ops fd flags w =
     (case flush_backlog ops fd flags w of
        (Panic, w1) \<Rightarrow> (Panic, w1)
      | (Ret _, w1) \<Rightarrow>
          (case flush_backlog ops fd flags (io_drive_handshake lib ops w1) of
             (Panic, w2) \<Rightarrow> (Panic, w2)
           | (Ret _, w2) \<Rightarrow> (Ret (), w2)))"

definition recv_error :: "int \<Rightarrow> 'os io \<Rightarrow> (int \<times> bytes) outcome \<times> 'os io" where
  "recv_error e w = (Ret (- 1, []), w\<lparr>io_errno := e\<rparr>)"

text \<open>The end of the loop body: more bytes from the wire.\<close>

definition recv_pull ::
  "'os os_ops \<Rightarrow> int \<Rightarrow> int \<Rightarrow> bool \<Rightarrow> 'os io \<Rightarrow> ((int \<times> bytes) outcome \<times> 'os io) + 'os io" where
  "recv_pull ops fd flags blocking w =
     (case pull_wire ops fd flags w of
        (Panic, w1) \<Rightarrow> Inl (Panic, w1)
      | (Ret (Inl _), w1) \<Rightarrow> Inl (recv_error EPIPE (io_fail_closed w1))
      | (Ret (Inr n), w1) \<Rightarrow>
          if n = 0 then Inl (Ret (0, []), w1)
          else if n > 0 then Inr w1
          else let e = io_errno w1 in
            if (e = EAGAIN \<or> e = EWOULDBLOCK) \<and> \<not> blocking then Inl (Ret (- 1, []), w1)
            else if (e = EAGAIN \<or> e = EWOULDBLOCK) \<and> blocking then Inr w1
            else Inl (Ret (- 1, []), w1))"

definition recv_step ::
  "crypto_lib \<Rightarrow> 'os os_ops \<Rightarrow> int \<Rightarrow> nat \<Rightarrow> int \<Rightarrow> bool \<Rightarrow> 'os io \<Rightarrow> ((int \<times> bytes) outcome \<times> 'os io) + 'os io" where
  "recv_step lib ops fd len flags blocking w =
     (if rx_plain (io_st w) \<noteq> [] then Inl (copy_plaintext_to_app len w)
      else case (if \<not> (is_Active (phase (io_st w)) \<or> phase (io_st w) = Failed)
                 then handshake_turn lib ops fd flags w else (Ret (), w)) of
        (Panic, w1) \<Rightarrow> Inl (Panic, w1)
      | (Ret _, w1) \<Rightarrow>
          if phase (io_st w1) = Failed then Inl (recv_error EPIPE w1)
          else if is_Active (phase (io_st w1)) then
            (case drain_records lib (io_st w1) (io_metrics w1) of
               (Inl _, s, m) \<Rightarrow> Inl (recv_error EPIPE (w1\<lparr>io_st := s, io_metrics := m\<rparr>))
             | (Inr _, s, m) \<Rightarrow>
                 (let w2 = w1\<lparr>io_st := s, io_metrics := m\<rparr> in
                  if rx_plain s \<noteq> [] then Inr w2 else recv_pull ops fd flags blocking w2))
          else recv_pull ops fd flags blocking w1)"

definition overlay_recv_locked ::
  "crypto_lib \<Rightarrow> 'os os_ops \<Rightarrow> int \<Rightarrow> nat \<Rightarrow> int \<Rightarrow> 'os io \<Rightarrow> ((int \<times> bytes) outcome \<times> 'os io) option" where
  "overlay_recv_locked lib ops fd len flags w =
     (case admit ops w of
        (False, w1) \<Rightarrow> Some (Ret (- 1, []), w1)
      | (True, w1) \<Rightarrow>
          (case is_blocking ops fd w1 of (blocking, w2) \<Rightarrow>
           iterate (recv_step lib ops fd len flags blocking) w2))"

section \<open>Every call evolves the session\<close>

lemma admit_evolves:
  assumes "fd_inv (io_st w)"
  shows "evolves lib ops' out fd w (snd (admit ops w))"
proof -
  let ?c = "env ops (io_os w)"
  have "balanced (io_st w, io_metrics w) (s, m) \<and> (s = io_st w \<or> phase s = Failed \<and> tx_backlog s = [])"
    if "inherited_after_fork ?c (io_st w) (io_metrics w) = (b, s, m)" for b s m
    using that assms fail_closed_balanced [of "io_st w" "io_metrics w"]
    by (auto simp: inherited_after_fork_def split_beta dest: fail_closedD split: if_split_asm)
  moreover have "balanced (io_st w, io_metrics w) (s, m) \<and> (s = io_st w \<or> phase s = Failed \<and> tx_backlog s = [])"
    if "fail_if_stale_idle_config ?c (io_st w) (io_metrics w) = (b, s, m)" for b s m
    using that stale_balanced [OF assms that]
    by (auto simp: fail_if_stale_idle_config_def split_beta Let_def dest: fail_closedD split: if_split_asm)
  moreover have "evolves lib ops' out fd w (w\<lparr>io_st := s, io_metrics := m\<rparr>)"
    if "balanced (io_st w, io_metrics w) (s, m)" "s = io_st w \<or> phase s = Failed \<and> tx_backlog s = []" for s m
  proof (rule evolvesI)
    show "emits lib out fd w (w\<lparr>io_st := s, io_metrics := m\<rparr>)" unfolding emits_def
      using that(2) by (intro conjI exI [of _ "[]"] exI [of _ "if s = io_st w then [] else tx_backlog (io_st w)"])
        (auto simp: wire_of_def protected_Nil)
  qed (use that in auto)
  ultimately show ?thesis
    by (auto simp: admit_def Let_def inherited_after_fork_def intro!: evolves_errno split: prod.split if_split_asm)
qed

lemma admit_True: "admit ops w = (True, w') \<Longrightarrow> w' = w"
  by (auto simp: admit_def Let_def inherited_after_fork_def fail_if_stale_idle_config_def split_beta
      split: if_split_asm)

lemma is_blocking_evolves:
  "fd_inv (io_st w) \<Longrightarrow> is_blocking ops fd w = (b, w') \<Longrightarrow> evolves lib ops' out fd' w w'"
  by (auto simp: is_blocking_def intro!: evolves_os split: sysret.split_asm)

lemma is_blocking_state: "is_blocking ops fd w = (b, w') \<Longrightarrow> io_st w' = io_st w \<and> io_metrics w' = io_metrics w \<and> io_os w' = io_os w"
  by (auto simp: is_blocking_def split: sysret.split_asm)

lemma rekey_evolves:
  assumes "fd_inv (io_st w)" and "phase (io_st w) = Active k"
  shows "evolves lib ops out fd w (w\<lparr>io_st := (io_st w)\<lparr>phase := Active k'\<rparr>\<rparr>)"
  using assms unfolding evolves_def emits_def
  by (intro conjI impI exI [of _ "[]"]) (auto simp: balanced_def fd_inv_def load_def wire_of_def protected_Nil)

lemma send_records_evolves:
  assumes "fd_inv (io_st w)"
  shows "evolves lib ops out fd w (snd (send_records lib ops fd sid flags blocking pt w))"
  using assms
proof (induction lib ops fd sid flags blocking pt w rule: send_records.induct)
  case (1 lib ops fd sid flags blocking pt w)
  note w = "1.prems"
  show ?case
  proof (cases "pt \<noteq> [] \<and> is_Active (phase (io_st w))")
    case False
    then show ?thesis using w io_fail_closed_evolves evolves_refl
      by (subst send_records.simps) (auto split: FdPhase.split)
  next
    case True
    then obtain k where k: "phase (io_st w) = Active k" by (cases "phase (io_st w)") auto
    obtain x k' where seal: "SessionKeys_seal lib k (take MAX_RECORD_PLAINTEXT pt) = (x, k')"
      by (cases "SessionKeys_seal lib k (take MAX_RECORD_PLAINTEXT pt)")
    let ?w1 = "w\<lparr>io_st := (io_st w)\<lparr>phase := Active k'\<rparr>\<rparr>"
    note w1 = rekey_evolves [OF w k, of lib ops out fd k']
    note unf = send_records.simps [of lib ops fd sid flags blocking pt w]
    show ?thesis
    proof (cases x)
      case (Inl e)
      then show ?thesis using k seal io_fail_closed_evolves True by (simp add: unf)
    next
      case (Inr ct)
      show ?thesis
      proof (cases "frame sid TYPE_DATA ct")
        case (Inl e)
        then show ?thesis using k seal True \<open>x = Inr ct\<close> evolves_trans [OF w1 io_fail_closed_evolves]
          by (simp add: unf)
      next
        case f: (Inr f)
        obtain r w2 where a: "append_or_flush ops fd f flags blocking ?w1 = (r, w2)"
          by (cases "append_or_flush ops fd f flags blocking ?w1")
        have "protected lib f" using protected_single(2) seal f \<open>x = Inr ct\<close> by blast
        from evolves_trans [OF w1 append_or_flush_evolves [OF evolves_inv [OF w1] a _ this]]
        have w2: "evolves lib ops out fd w w2" by simp
        have "evolves lib ops out fd w2
            (snd (send_records lib ops fd sid flags blocking (drop MAX_RECORD_PLAINTEXT pt) w2))"
          if "r = Ret (Inr u)" for u
          using "1.IH" [OF _ k seal [symmetric] \<open>x = Inr ct\<close> refl f a [symmetric] that refl] True
            evolves_inv [OF w2] by simp
        then show ?thesis
          using k seal True \<open>x = Inr ct\<close> f a w2 evolves_trans [OF w2]
            evolves_trans [OF w2 io_fail_closed_evolves]
          by (auto simp: unf split: outcome.split sum.split)
      qed
    qed
  qed
qed

lemma flush_step_evolves:
  assumes "fd_inv (io_st w)"
  shows "evolves lib ops out fd w (after (flush_step ops fd flags len w))"
proof -
  obtain r w1 where f: "flush_backlog ops fd flags w = (r, w1)" by (cases "flush_backlog ops fd flags w")
  have w1: "evolves lib ops out fd w w1" using flush_backlog_evolves [OF assms] f by (metis snd_conv)
  then show ?thesis using f evolves_errno [OF evolves_trans [OF w1 io_fail_closed_evolves]]
    by (auto simp: flush_step_def after_def split: outcome.split sum.split)
qed

lemma overlay_send_evolves:
  assumes "fd_inv (io_st w)" and "overlay_send_locked lib ops fd pt flags w = Some (r, w')"
  shows "evolves lib ops out fd w w'"
proof -
  obtain ok w1 where a: "admit ops w = (ok, w1)" by (cases "admit ops w")
  have w1: "evolves lib ops out fd w w1" using admit_evolves [OF assms(1)] a by (metis snd_conv)
  obtain b w2 where b: "is_blocking ops fd w1 = (b, w2)" by (cases "is_blocking ops fd w1")
  have w2: "evolves lib ops out fd w w2"
    using evolves_trans [OF w1 is_blocking_evolves [OF evolves_inv [OF w1] b]] .
  show ?thesis
  proof (cases "ok \<and> (\<exists>w3. drive_until_active_for_write lib ops fd flags b w2 = Some (Ret (Inr ()), w3) \<and> pt \<noteq> [])")
    case False
    have "evolves lib ops out fd w w3" if "drive_until_active_for_write lib ops fd flags b w2 = Some (x, w3)" for x w3
      using evolves_trans [OF w2 drive_until_active_evolves [OF evolves_inv [OF w2] that]] .
    then show ?thesis using False assms(2) a b w1
      by (auto simp: overlay_send_locked_def intro: evolves_errno
          split: bool.split_asm option.split_asm prod.split_asm outcome.split_asm sum.split_asm if_split_asm)
  next
    case True
    then obtain w3 where ok: "ok" "pt \<noteq> []" and d: "drive_until_active_for_write lib ops fd flags b w2 = Some (Ret (Inr ()), w3)"
      by blast
    have w3: "evolves lib ops out fd w w3"
      using evolves_trans [OF w2 drive_until_active_evolves [OF evolves_inv [OF w2] d]] .
    obtain r4 w4 where s: "send_records lib ops fd (CipherSuite_id (policy_suite (io_st w3))) flags b pt w3 = (r4, w4)"
      by (cases "send_records lib ops fd (CipherSuite_id (policy_suite (io_st w3))) flags b pt w3")
    have w4: "evolves lib ops out fd w w4"
      using evolves_trans [OF w3 send_records_evolves [OF evolves_inv [OF w3]]] s by (metis snd_conv)
    obtain r5 w5 where f: "flush_backlog ops fd flags w4 = (r5, w5)" by (cases "flush_backlog ops fd flags w4")
    have w5: "evolves lib ops out fd w w5"
      using evolves_trans [OF w4 flush_backlog_evolves [OF evolves_inv [OF w4]]] f by (metis snd_conv)
    have "evolves lib ops out fd w w'" if "iterate (flush_step ops fd flags (length pt)) w5 = Some (r, w')"
      by (rule iterate_evolves [OF that w5 flush_step_evolves])
    then show ?thesis
      using assms(2) a b ok d s f w4 w5 evolves_trans [OF w5 io_fail_closed_evolves]
      by (auto simp: overlay_send_locked_def intro: evolves_errno
          split: outcome.split_asm sum.split_asm if_split_asm)
  qed
qed

text \<open>The receive loop on one active session: it keeps the invariant and the send queue, or fails
  closed; when it ends normally no complete frame is left.\<close>

lemma drain_frame_cases:
  assumes "is_Active (phase st)" and "try_pop_frame (rx_wire st) = (Inr (Some f), rest)" and "fd_inv st"
  obtains (opens) k pt k' where "phase st = Active k" "SessionKeys_open lib k (pf_payload f) = (Inr pt, k')"
      "length (rx_plain st) + length pt \<le> MAX_PLAIN_RX_BUFFER"
      "drain_records lib st m =
         drain_records lib (st\<lparr>rx_wire := rest, phase := Active k', rx_plain := rx_plain st @ pt\<rparr>) m"
      "pf_tag f = TYPE_DATA" "pf_suite_id f = CipherSuite_id (policy_suite st)"
  | (fails) s where "drain_records lib st m = (Inl (), fail_closed s m)" "counted_active s = counted_active st"
      "owner_pid s = owner_pid st" "policy_suite s = policy_suite st"
proof -
  obtain k where k: "phase st = Active k" using assms(1) by (cases "phase st") auto
  obtain x k' where o: "SessionKeys_open lib k (pf_payload f) = (x, k')"
    by (cases "SessionKeys_open lib k (pf_payload f)")
  note unf = drain_records.simps [of lib st m] assms(2) k o
  show thesis
  proof (cases "pf_tag f = TYPE_DATA \<and> pf_suite_id f = CipherSuite_id (policy_suite st) \<and>
      (\<exists>pt. x = Inr pt \<and> length (rx_plain st) + length pt \<le> MAX_PLAIN_RX_BUFFER)")
    case True
    then obtain pt where pt: "x = Inr pt" "length (rx_plain st) + length pt \<le> MAX_PLAIN_RX_BUFFER" by blast
    from rxp.append_fits [of "st\<lparr>rx_wire := rest, phase := Active k'\<rparr>" pt] True pt show thesis
      by (intro opens [of k pt k']) (simp_all add: unf)
  next
    case False
    consider (tag) "pf_tag f \<noteq> TYPE_DATA \<or> pf_suite_id f \<noteq> CipherSuite_id (policy_suite st)"
      | (bad) e where "x = Inl e" "pf_tag f = TYPE_DATA" "pf_suite_id f = CipherSuite_id (policy_suite st)"
      | (full) pt where "x = Inr pt" "pf_tag f = TYPE_DATA" "pf_suite_id f = CipherSuite_id (policy_suite st)"
          "MAX_PLAIN_RX_BUFFER < length (rx_plain st) + length pt"
      using False by (cases x) (auto simp: not_le)
    then show thesis
    proof cases
      case tag
      then show thesis by (intro fails [of "st\<lparr>rx_wire := rest\<rparr>"]) (auto simp: unf Let_def)
    next
      case bad
      then show thesis by (intro fails [of "st\<lparr>rx_wire := rest, phase := Active k'\<rparr>"]) (auto simp: unf)
    next
      case full
      then have "append_rx_plain pt (st\<lparr>rx_wire := rest, phase := Active k'\<rparr>) =
          (Inl LimitExceeded, st\<lparr>rx_wire := rest, phase := Active k'\<rparr>)"
        using assms(3) by (intro rxp.append_full) (simp_all add: fd_inv_def)
      then show thesis using full by (intro fails [of "st\<lparr>rx_wire := rest, phase := Active k'\<rparr>"]) (auto simp: unf)
    qed
  qed
qed

lemma drain_records_keeps:
  assumes "fd_inv st" and "is_Active (phase st)" and "drain_records lib st m = (x, s, m')"
  shows "balanced (st, m) (s, m') \<and>
    (x = Inl () \<and> phase s = Failed \<or>
     x = Inr () \<and> is_Active (phase s) \<and> tx_backlog s = tx_backlog st \<and> try_pop_frame (rx_wire s) = (Inr None, rx_wire s))"
  using assms
proof (induction "length (rx_wire st)" arbitrary: st rule: less_induct)
  case less
  show ?case
  proof (cases rule: pop_cases [of "rx_wire st"])
    case (bad r)
    with less.prems(3) fail_closed_balanced [of st m] show ?thesis
      by (auto simp: drain_records.simps [of lib st m] dest: fail_closedD)
  next
    case (more r)
    with less.prems try_pop_frame_keeps [OF more] show ?thesis
      by (auto simp: drain_records.simps [of lib st m])
  next
    case (frame f r)
    from less.prems(2) frame less.prems(1) show ?thesis
    proof (cases rule: drain_frame_cases [where lib = lib and m = m])
      case (opens k pt k')
      let ?st = "st\<lparr>rx_wire := r, phase := Active k', rx_plain := rx_plain st @ pt\<rparr>"
      have "length (rx_wire ?st) < length (rx_wire st)" using try_pop_frame_shrinks [OF frame] by simp
      moreover have "fd_inv ?st" "balanced (st, m) (?st, m)"
        using less.prems(1) opens try_pop_frame_shrinks [OF frame] by (auto simp: fd_inv_def balanced_def load_def)
      ultimately show ?thesis using less.hyps [of ?st] less.prems(3) opens(4) balanced_trans by fastforce
    next
      case (fails q)
      then show ?thesis using less.prems(3) fail_closed_balanced [of q m]
        by (auto simp: balanced_def load_def dest: fail_closedD [OF sym])
    qed
  qed
qed

lemma drain_evolves:
  assumes "fd_inv (io_st w)" and "is_Active (phase (io_st w))"
    and "drain_records lib' (io_st w) (io_metrics w) = (x, s, m)"
  shows "evolves lib ops out fd w (w\<lparr>io_st := s, io_metrics := m\<rparr>)"
proof (rule evolvesI)
  note d = drain_records_keeps [OF assms]
  from d show "balanced (io_st w, io_metrics w)
      (io_st (w\<lparr>io_st := s, io_metrics := m\<rparr>), io_metrics (w\<lparr>io_st := s, io_metrics := m\<rparr>))" by simp
  from d have "phase s = Failed \<and> tx_backlog s = [] \<or> tx_backlog s = tx_backlog (io_st w)"
    by (auto simp: balanced_def fd_inv_def)
  then show "emits lib out fd w (w\<lparr>io_st := s, io_metrics := m\<rparr>)"
    unfolding emits_def
    by (intro conjI exI [of _ "[]"] exI [of _ "if tx_backlog s = tx_backlog (io_st w) then [] else tx_backlog (io_st w)"])
      (auto simp: wire_of_def protected_Nil)
qed (use assms(2) in auto)

lemma handshake_turn_evolves:
  assumes "fd_inv (io_st w)" and "phase (io_st w) \<noteq> Failed"
  shows "evolves lib ops out fd w (snd (handshake_turn lib ops fd flags w))"
proof -
  obtain r1 w1 where f: "flush_backlog ops fd flags w = (r1, w1)" by (cases "flush_backlog ops fd flags w")
  have w1: "evolves lib ops out fd w w1" "phase (io_st w1) \<noteq> Failed"
    using flush_backlog_evolves [OF assms(1)] flush_keeps_phase [of ops fd flags w] f assms(2) by (metis snd_conv)+
  note w2 = evolves_trans [OF w1(1) io_drive_handshake_evolves [OF evolves_inv [OF w1(1)] w1(2)]]
  from evolves_trans [OF w2 flush_backlog_evolves [OF evolves_inv [OF w2], of _ _ _ _ flags]] w1 f show ?thesis
    by (auto simp: handshake_turn_def split: outcome.split prod.split)
qed

lemma recv_pull_evolves:
  assumes "fd_inv (io_st w)" and "phase (io_st w) \<noteq> Failed"
  shows "evolves lib ops out fd w (after (recv_pull ops fd flags blocking w))"
proof -
  obtain r1 w1 where f: "pull_wire ops fd flags w = (r1, w1)" by (cases "pull_wire ops fd flags w")
  have w1: "evolves lib ops out fd w w1" using pull_wire_evolves [OF assms] f by (metis snd_conv)
  then show ?thesis using f evolves_errno [OF evolves_trans [OF w1 io_fail_closed_evolves]]
    by (auto simp: recv_pull_def after_def recv_error_def Let_def split: outcome.split sum.split)
qed

lemma after_leave: "after (Inl (r, w)) = w"
  by (simp add: after_def)

lemma after_again: "after (Inr w) = w"
  by (simp add: after_def)

lemma recv_step_evolves:
  assumes "fd_inv (io_st w)"
  shows "evolves lib ops out fd w (after (recv_step lib ops fd len flags blocking w))"
proof (cases "rx_plain (io_st w) = []")
  case False
  then show ?thesis using assms unfolding evolves_def emits_def
    by (intro conjI impI exI [of _ "[]"])
      (auto simp: recv_step_def copy_plaintext_to_app_def after_def Let_def balanced_def fd_inv_def load_def
        wire_of_def protected_Nil)
next
  case True
  define x where "x = (if \<not> (is_Active (phase (io_st w)) \<or> phase (io_st w) = Failed)
    then handshake_turn lib ops fd flags w else (Ret (), w))"
  obtain r1 w1 where x1: "x = (r1, w1)" by (cases x)
  have w1: "evolves lib ops out fd w w1"
    using x1 handshake_turn_evolves [OF assms, of lib ops out fd flags] evolves_refl [OF assms]
    by (auto simp: x_def split: if_split_asm)
  note inv1 = evolves_inv [OF w1]
  have pull: "evolves lib ops out fd w (after (recv_pull ops fd flags blocking v))"
    if "evolves lib ops out fd w v" "phase (io_st v) \<noteq> Failed" for v
    using evolves_trans [OF that(1) recv_pull_evolves [OF evolves_inv [OF that(1)] that(2)]] .
  have drain: "evolves lib ops out fd w (w1\<lparr>io_st := s, io_metrics := m\<rparr>) \<and> (x = Inr () \<longrightarrow> phase s \<noteq> Failed)"
    if "is_Active (phase (io_st w1))" "drain_records lib (io_st w1) (io_metrics w1) = (x, s, m)" for x s m
    using evolves_trans [OF w1 drain_evolves [OF inv1 that]] drain_records_keeps [OF inv1 that] by auto
  show ?thesis
    using True w1 pull drain evolves_errno
    unfolding recv_step_def x_def [symmetric] x1
    by (auto simp: after_leave after_again recv_error_def Let_def split: outcome.split sum.split prod.split)
qed

lemma overlay_recv_evolves:
  assumes "fd_inv (io_st w)" and "overlay_recv_locked lib ops fd len flags w = Some (r, w')"
  shows "evolves lib ops out fd w w'"
proof -
  obtain ok w1 where a: "admit ops w = (ok, w1)" by (cases "admit ops w")
  have w1: "evolves lib ops out fd w w1" using admit_evolves [OF assms(1)] a by (metis snd_conv)
  obtain b w2 where b: "is_blocking ops fd w1 = (b, w2)" by (cases "is_blocking ops fd w1")
  have w2: "evolves lib ops out fd w w2"
    using evolves_trans [OF w1 is_blocking_evolves [OF evolves_inv [OF w1] b]] .
  have "evolves lib ops out fd w w'" if "iterate (recv_step lib ops fd len flags b) w2 = Some (r, w')"
    by (rule iterate_evolves [OF that w2 recv_step_evolves])
  then show ?thesis using assms(2) a b w1
    by (auto simp: overlay_recv_locked_def split: bool.split_asm)
qed

section \<open>Confidentiality of the wire\<close>

text \<open>C3. No plaintext leaves through a session: after any send or receive call that returns, the
  bytes the operating system accepted on the descriptor followed by the bytes still queued are what
  they were before the call, extended by complete frames that are handshake messages or sealed
  records; bytes are lost from that stream only when the session failed closed. Other descriptors
  are not written to, and the session invariant holds again.\<close>

theorem no_plaintext_on_wire:
  assumes "wire_log ops out" and "fd_inv (io_st w)"
    and "overlay_send_locked lib ops fd pt flags w = Some (r, w') \<or>
      overlay_recv_locked lib ops fd len flags w = Some (q, w')"
  shows "fd_inv (io_st w') \<and>
    (\<exists>x y. protected lib x \<and>
       out fd (io_os w) @ tx_backlog (io_st w) @ x = out fd (io_os w') @ tx_backlog (io_st w') @ y \<and>
       (y \<noteq> [] \<longrightarrow> phase (io_st w') = Failed)) \<and>
    (\<forall>fd'. fd' \<noteq> fd \<longrightarrow> out fd' (io_os w') = out fd' (io_os w))"
proof -
  have "evolves lib ops out fd w w'"
    using assms(2,3) overlay_send_evolves overlay_recv_evolves by metis
  then show ?thesis using assms(1) by (simp add: evolves_def emits_def wire_of_def balanced_def)
qed

section \<open>Failing closed\<close>

lemma admit_refused: "admit ops w = (False, w') \<Longrightarrow> phase (io_st w') = Failed \<and> io_errno w' = EPIPE \<and> io_os w' = io_os w"
  by (auto simp: admit_def Let_def inherited_after_fork_def fail_if_stale_idle_config_def split_beta
      split: if_split_asm)

lemma failed_session_refused:
  assumes "fd_inv (io_st w)" and "phase (io_st w) = Failed"
  shows "(\<exists>w'. overlay_send_locked lib ops fd pt flags w = Some (Ret (- 1), w') \<and>
       phase (io_st w') = Failed \<and> io_errno w' = EPIPE \<and> io_os w' = io_os w) \<and>
    (\<exists>w'. overlay_recv_locked lib ops fd len flags w = Some (Ret (- 1, []), w') \<and>
       phase (io_st w') = Failed \<and> io_errno w' = EPIPE \<and> io_os w' = io_os w)"
proof -
  obtain ok w1 where a: "admit ops w = (ok, w1)" by (cases "admit ops w")
  show ?thesis
  proof (cases ok)
    case False
    with a admit_refused [of ops w w1] show ?thesis
      by (simp add: overlay_send_locked_def overlay_recv_locked_def)
  next
    case True
    with a have w1: "w1 = w" using admit_True [of ops w w1] by simp
    obtain b w2 where b: "is_blocking ops fd w = (b, w2)" by (cases "is_blocking ops fd w")
    have w2: "io_st w2 = io_st w" "io_os w2 = io_os w" using is_blocking_state [OF b] by auto
    have empty: "tx_backlog (io_st w) = []" "rx_plain (io_st w) = []" using assms by (auto simp: fd_inv_def)
    have "flush_backlog ops fd flags w2 = (Ret (Inr True), w2)"
      using w2 empty by (simp add: flush_backlog.simps)
    moreover have "iterate (write_step lib ops fd flags b) w2 = Some (Ret (Inl EPIPE), w2)"
      by (rule iterate_leaves) (simp add: write_step_def w2 assms(2))
    moreover have "iterate (recv_step lib ops fd len flags b) w2 = Some (recv_error EPIPE w2)"
      by (rule iterate_leaves) (simp add: recv_step_def w2 assms(2) empty)
    ultimately show ?thesis using a True w1 b w2 assms(2)
      by (simp add: overlay_send_locked_def overlay_recv_locked_def drive_until_active_for_write_def recv_error_def)
  qed
qed

text \<open>Failed is terminal and silent: on a failed session every send, and every receive, returns
  \<open>-1\<close> with \<open>EPIPE\<close>, does not touch the operating system at all, and leaves the session failed.\<close>

lemma failed_session_is_silent:
  assumes "fd_inv (io_st w)" and "phase (io_st w) = Failed"
  shows "(\<exists>w'. overlay_send_locked lib ops fd pt flags w = Some (Ret (- 1), w') \<and>
       phase (io_st w') = Failed \<and> io_errno w' = EPIPE \<and> io_os w' = io_os w) \<and>
    (\<exists>w'. overlay_recv_locked lib ops fd len flags w = Some (Ret (- 1, []), w') \<and>
       phase (io_st w') = Failed \<and> io_errno w' = EPIPE \<and> io_os w' = io_os w)"
  using failed_session_refused [OF assms] .

text \<open>Sessions do not survive a fork: in a process that is not the owner of the session, send
  and receive return \<open>-1\<close> with \<open>EPIPE\<close> before any key is used, no system call is made, and the
  inherited session is failed and its buffers are wiped.\<close>

lemma inherited_session_fails_closed:
  assumes "owner_pid (io_st w) \<noteq> ctx_pid (env ops (io_os w))"
  shows "(\<exists>w'. overlay_send_locked lib ops fd pt flags w = Some (Ret (- 1), w') \<and>
       overlay_recv_locked lib ops fd len flags w = Some (Ret (- 1, []), w') \<and>
       phase (io_st w') = Failed \<and> is_idle_for_config_reload (io_st w') \<and>
       io_errno w' = EPIPE \<and> io_os w' = io_os w)"
proof -
  obtain s m where f: "fail_closed (io_st w) (io_metrics w) = (s, m)"
    by (cases "fail_closed (io_st w) (io_metrics w)")
  with assms have "admit ops w = (False, w\<lparr>io_st := s, io_metrics := m, io_errno := EPIPE\<rparr>)"
    by (simp add: admit_def inherited_after_fork_def current_pid_def)
  with fail_closedD [OF f] show ?thesis
    by (simp add: overlay_send_locked_def overlay_recv_locked_def is_idle_for_config_reload_def)
qed

section \<open>Calls return\<close>

lemma overlay_send_returns:
  assumes "fd_inv (io_st w)"
    and "\<not> fst (is_blocking ops fd w) \<or> never_would_block ops fd"
  shows "\<exists>r. overlay_send_locked lib ops fd pt flags w = Some r"
proof -
  let ?out = "\<lambda>_ _. []"
  obtain ok w1 where a: "admit ops w = (ok, w1)" by (cases "admit ops w")
  show ?thesis
  proof (cases ok)
    case True
    with a have w1: "w1 = w" using admit_True [of ops w w1] by simp
    obtain b w2 where b: "is_blocking ops fd w = (b, w2)" by (cases "is_blocking ops fd w")
    have w2: "fd_inv (io_st w2)" using evolves_inv [OF is_blocking_evolves [OF assms(1) b]] .
    have nb: "\<not> b \<or> never_would_block ops fd" using assms(2) b by simp
    from drive_until_active_returns [OF w2 nb] obtain r3 w3 where
      d: "drive_until_active_for_write lib ops fd flags b w2 = Some (r3, w3)" by (metis surj_pair)
    obtain r4 w4 where s: "send_records lib ops fd (CipherSuite_id (policy_suite (io_st w3))) flags b pt w3 = (r4, w4)"
      by (cases "send_records lib ops fd (CipherSuite_id (policy_suite (io_st w3))) flags b pt w3")
    obtain r5 w5 where f: "flush_backlog ops fd flags w4 = (r5, w5)" by (cases "flush_backlog ops fd flags w4")
    have "x \<or> \<not> b" if "r5 = Ret (Inr x)" for x
      using that f nb flush_never_would_block by blast
    then show ?thesis using a True w1 b d s f
      by (auto simp: overlay_send_locked_def split: outcome.split sum.split)
  qed (use a in \<open>simp add: overlay_send_locked_def\<close>)
qed

text \<open>C25. Sending terminates: on a non-blocking descriptor, and on a blocking one whose system calls
  make progress or fail, the send call returns, whatever the peer sends and in whatever phase the
  session is.\<close>

theorem overlay_send_terminates:
  assumes "fd_inv (io_st w)"
    and "\<not> fst (is_blocking ops fd w) \<or> never_would_block ops fd"
  shows "\<exists>r w'. overlay_send_locked lib ops fd pt flags w = Some (r, w')"
  using overlay_send_returns [OF assms] by (metis surj_pair)

text \<open>Finite input: \<open>pending os\<close> bounds the bytes that can still be received.\<close>

definition finite_input :: "('os, 'x) os_ops_scheme \<Rightarrow> ('os \<Rightarrow> nat) \<Rightarrow> bool" where
  "finite_input ops pending \<longleftrightarrow>
     (\<forall>fd n fl os bs os'. sys_recv ops fd n fl os = (RecvOk bs, os') \<longrightarrow> pending os' + length bs \<le> pending os) \<and>
     (\<forall>fd n fl os e os'. sys_recv ops fd n fl os = (RecvErr e, os') \<longrightarrow> pending os' \<le> pending os) \<and>
     (\<forall>fd bs fl os r os'. sys_send ops fd bs fl os = (r, os') \<longrightarrow> pending os' \<le> pending os)"

lemma flush_pending:
  assumes "finite_input ops pending"
  shows "pending (io_os (snd (flush_backlog ops fd flags w))) \<le> pending (io_os w)"
  using assms
proof (induction ops fd flags w rule: flush_backlog.induct)
  case (1 ops fd flags w)
  obtain r os' where s: "sys_send ops fd (tx_backlog (io_st w)) flags (io_os w) = (r, os')"
    by (cases "sys_send ops fd (tx_backlog (io_st w)) flags (io_os w)")
  with "1.prems" have "pending os' \<le> pending (io_os w)" unfolding finite_input_def by blast
  with "1.IH" [OF _ s [symmetric] _ refl] "1.prems" s show ?case
    by (force simp: flush_backlog.simps [of ops fd flags w] Let_def split: sysret.split)
qed

lemma handshake_turn_pending:
  "finite_input ops pending \<Longrightarrow> pending (io_os (snd (handshake_turn lib ops fd flags w))) \<le> pending (io_os w)"
proof -
  assume f: "finite_input ops pending"
  obtain r1 w1 where 1: "flush_backlog ops fd flags w = (r1, w1)" by (cases "flush_backlog ops fd flags w")
  obtain r2 w2 where 2: "flush_backlog ops fd flags (io_drive_handshake lib ops w1) = (r2, w2)"
    by (cases "flush_backlog ops fd flags (io_drive_handshake lib ops w1)")
  have "pending (io_os w1) \<le> pending (io_os w)" using flush_pending [OF f, of fd flags w] 1 by simp
  moreover have "pending (io_os w2) \<le> pending (io_os w1)"
    using flush_pending [OF f, of fd flags "io_drive_handshake lib ops w1"] 2
    by (simp add: io_drive_handshake_def split_beta)
  ultimately show ?thesis using 1 2 by (auto simp: handshake_turn_def split: outcome.split)
qed

lemma recv_pull_pending:
  assumes "finite_input ops pending" and "\<not> blocking \<or> never_would_block ops fd"
    and "recv_pull ops fd flags blocking w = Inr w'"
  shows "pending (io_os w') < pending (io_os w)"
proof -
  obtain r os' where s: "sys_recv ops fd 8192 flags (io_os w) = (r, os')"
    by (cases "sys_recv ops fd 8192 flags (io_os w)")
  have "r \<noteq> RecvErr EAGAIN \<and> r \<noteq> RecvErr EWOULDBLOCK" if "blocking"
    using that assms(2) s unfolding never_would_block_def by blast
  with assms(3) s obtain bs where bs: "r = RecvOk bs" "bs \<noteq> []" "io_os w' = os'"
    by (auto simp: recv_pull_def pull_wire_def Let_def
        split: recvret.split_asm prod.split_asm sum.split_asm if_split_asm)
  with assms(1) s have "pending os' + length bs \<le> pending (io_os w)" unfolding finite_input_def by blast
  with bs show ?thesis by (cases bs) simp_all
qed

definition recv_todo :: "('os \<Rightarrow> nat) \<Rightarrow> 'os io \<Rightarrow> nat" where
  "recv_todo pending w = 2 * pending (io_os w) + (if rx_plain (io_st w) = [] then 1 else 0)"

lemma recv_step_todo:
  assumes "finite_input ops pending" and "\<not> blocking \<or> never_would_block ops fd"
    and "recv_step lib ops fd len flags blocking w = Inr w'"
  shows "recv_todo pending w' < recv_todo pending w"
proof -
  have empty: "rx_plain (io_st w) = []"
    using assms(3) by (cases "rx_plain (io_st w) = []") (auto simp: recv_step_def)
  define x where "x = (if \<not> (is_Active (phase (io_st w)) \<or> phase (io_st w) = Failed)
    then handshake_turn lib ops fd flags w else (Ret (), w))"
  obtain r1 w1 where x1: "x = (r1, w1)" by (cases x)
  have w1: "pending (io_os w1) \<le> pending (io_os w)"
    using x1 handshake_turn_pending [OF assms(1), of lib fd flags w] by (auto simp: x_def split: if_split_asm)
  obtain d s m where d: "drain_records lib (io_st w1) (io_metrics w1) = (d, s, m)"
    by (cases "drain_records lib (io_st w1) (io_metrics w1)") auto
  let ?w2 = "w1\<lparr>io_st := s, io_metrics := m\<rparr>"
  have pull: "recv_todo pending w' < recv_todo pending w"
    if "recv_pull ops fd flags blocking v = Inr w'" "pending (io_os v) \<le> pending (io_os w)" for v
    using recv_pull_pending [OF assms(1,2) that(1)] that(2) empty by (simp add: recv_todo_def)
  show ?thesis
    using assms(3) empty w1 d pull [of w1] pull [of ?w2]
    unfolding recv_step_def x_def [symmetric] x1
    by (auto simp: recv_todo_def Let_def recv_error_def split: outcome.split_asm sum.split_asm if_split_asm)
qed


section \<open>Concrete calls\<close>

abbreviation toy_c :: ctx where "toy_c \<equiv> toy_ctx (toy_id 1 2) False"

abbreviation toy_w :: "toy_os io" where "toy_w \<equiv> toy_io (toy_active toy_c (toy_session 1 2)) [[0, 0], [0]]"

lemma toy_finite_input: "finite_input (toy_ops c) (\<lambda>os. length (concat (t_in os)))"
  by (auto simp: finite_input_def toy_ops_def split: list.splits if_splits)

theorem no_plaintext_on_wire_witness:
  "\<exists>r w'. overlay_send_locked toy_lib (toy_ops toy_c) 3 [1, 2, 3] 0 toy_w = Some (r, w') \<and>
     fd_inv (io_st w') \<and>
     (\<exists>x y. protected toy_lib x \<and> x = toy_wire 3 (io_os w') @ tx_backlog (io_st w') @ y)"
proof -
  have inv: "fd_inv (io_st toy_w)" by (simp add: toy_io_def toy_active_inv)
  from overlay_send_returns [OF inv, of "toy_ops toy_c" 3 toy_lib "[1, 2, 3]" 0] obtain r w' where
    s: "overlay_send_locked toy_lib (toy_ops toy_c) 3 [1, 2, 3] 0 toy_w = Some (r, w')"
    by (auto simp: toy_nonblocking)
  then have "overlay_send_locked toy_lib (toy_ops toy_c) 3 [1, 2, 3] 0 toy_w = Some (r, w') \<or>
    overlay_recv_locked toy_lib (toy_ops toy_c) 3 1 0 toy_w = Some (Panic, w')" by simp
  from no_plaintext_on_wire [OF toy_wire_log inv this] s show ?thesis
    by (auto simp: toy_io_def toy_wire_def toy_active_def FdState_new_defs)
qed

lemma failed_session_is_silent_example:
  "\<exists>w'. overlay_send_locked toy_lib (toy_ops toy_c) 3 [1, 2, 3] 0
      (toy_io (FdState_failed toy_c NistStandard768) []) = Some (Ret (- 1), w') \<and>
    phase (io_st w') = Failed \<and> io_errno w' = EPIPE \<and> t_out (io_os w') = []"
proof -
  let ?w = "toy_io (FdState_failed toy_c NistStandard768) []"
  have "fd_inv (io_st ?w)" "phase (io_st ?w) = Failed" "t_out (io_os ?w) = []"
    by (simp_all add: toy_io_def new_states_inv) (simp add: FdState_failed_def)
  with failed_session_is_silent [of ?w toy_lib "toy_ops toy_c" 3 "[1, 2, 3]" 0 1] show ?thesis by auto
qed

lemma inherited_session_fails_closed_example:
  "\<exists>w'. overlay_send_locked toy_lib (toy_ops (toy_c\<lparr>ctx_pid := 8\<rparr>)) 3 [1, 2, 3] 0 toy_w = Some (Ret (- 1), w') \<and>
     phase (io_st w') = Failed \<and> io_errno w' = EPIPE \<and> t_out (io_os w') = []"
proof -
  have "owner_pid (io_st toy_w) \<noteq> ctx_pid (env (toy_ops (toy_c\<lparr>ctx_pid := 8\<rparr>)) (io_os toy_w))"
    by (simp add: toy_io_def toy_active_def FdState_new_defs current_pid_def toy_ops_def toy_ctx_def)
  from inherited_session_fails_closed [OF this, of toy_lib 3 "[1, 2, 3]" 0 1] show ?thesis
    by (auto simp: toy_io_def)
qed

theorem overlay_send_terminates_witness:
  "\<exists>r w'. overlay_send_locked toy_lib (toy_ops toy_c) 3 [1, 2, 3] 0 toy_w = Some (r, w')"
  by (rule overlay_send_terminates) (simp_all add: toy_nonblocking toy_io_def toy_active_inv)


end
