(* ===== verification/Delivery.thy ===== *)
theory Delivery
  imports Data_Path
begin

text \<open>
  End-to-end delivery of application data: what a successful \<open>overlay_send\<close> puts on the wire is
  exactly the sealed records of its plaintext, and a peer session in step that receives those bytes
  hands exactly that plaintext to its application.
\<close>

section \<open>What is sent is what is received\<close>

function record_chunks :: "bytes \<Rightarrow> bytes list" where
  "record_chunks pt =
     (if pt = [] then [] else take MAX_RECORD_PLAINTEXT pt # record_chunks (drop MAX_RECORD_PLAINTEXT pt))"
  by pat_completeness auto
termination by (relation "measure length") (auto simp: MAX_RECORD_PLAINTEXT_def)

declare record_chunks.simps [simp del]

lemma concat_record_chunks: "concat (record_chunks pt) = pt"
  by (induction pt rule: record_chunks.induct) (subst record_chunks.simps, auto)

text \<open>The data frames for a list of ciphertexts.\<close>

definition data_frames :: "u8 \<Rightarrow> bytes list \<Rightarrow> bytes list \<Rightarrow> bool" where
  "data_frames sid cts fs \<longleftrightarrow> list_all2 (\<lambda>ct f. frame sid TYPE_DATA ct = Inr f) cts fs"

lemma flush_backlog_wire:
  assumes "wire_log ops out" and "flush_backlog ops fd flags w = (r, w')"
  shows "wire_of out fd w' = wire_of out fd w" and "phase (io_st w') = phase (io_st w)"
    and "policy_suite (io_st w') = policy_suite (io_st w)"
    and "r = Ret (Inr True) \<Longrightarrow> tx_backlog (io_st w') = []"
  using flush_backlog_exact [OF assms(2), of out] assms(1) by (auto simp: wire_of_def)

lemma append_tx_Inr:
  "append_tx bs s = (Inr u, s') \<Longrightarrow> s' = s\<lparr>tx_backlog := tx_backlog s @ bs\<rparr>"
  by (auto simp: append_tx_def append_bounded_def split: if_split_asm)

lemma append_tx_Inl: "append_tx bs s = (Inl e, s') \<Longrightarrow> s' = s"
  by (auto simp: append_tx_def append_bounded_def split: if_split_asm)

lemma append_or_flush_exact:
  assumes "wire_log ops out" and "append_or_flush ops fd bs flags blocking w = (Ret (Inr u), w')"
  shows "wire_of out fd w' = wire_of out fd w @ bs" and "phase (io_st w') = phase (io_st w)"
proof -
  obtain r1 w1 where f: "flush_backlog ops fd flags w = (r1, w1)" by (cases "flush_backlog ops fd flags w")
  note w1 = flush_backlog_wire(1,2) [OF assms(1) f]
  have e: "wire_of out fd (v\<lparr>io_st := s\<rparr>) = wire_of out fd v @ bs \<and> phase s = phase (io_st v)"
    if "append_tx bs (io_st v) = (Inr x, s)" for v s x
    using append_tx_Inr [OF that] by (simp add: wire_of_def)
  show "wire_of out fd w' = wire_of out fd w @ bs" "phase (io_st w') = phase (io_st w)"
    using assms(2) f w1 e
    by (auto simp: append_or_flush_def split: prod.split_asm sum.split_asm outcome.split_asm if_split_asm)
qed

lemma send_records_exact:
  assumes "wire_log ops out" and "phase (io_st w) = Active k"
    and "send_records lib ops fd sid flags blocking pt w = (Ret (Inr u), w')"
  shows "\<exists>cts fs k'. run_rec (SessionKeys_seal lib) k (record_chunks pt) = (Inr cts, k') \<and>
    data_frames sid cts fs \<and> phase (io_st w') = Active k' \<and> wire_of out fd w' = wire_of out fd w @ concat fs"
  using assms
proof (induction lib ops fd sid flags blocking pt w arbitrary: k rule: send_records.induct)
  case (1 lib ops fd sid flags blocking pt w)
  note unf = send_records.simps [of lib ops fd sid flags blocking pt w]
  show ?case
  proof (cases "pt = []")
    case True
    with "1.prems" show ?thesis
      by (intro exI [of _ "[]"] exI [of _ k])
        (simp add: send_records.simps record_chunks.simps data_frames_def)
  next
    case False
    with "1.prems" obtain ct k1 f w2 where
      s: "SessionKeys_seal lib k (take MAX_RECORD_PLAINTEXT pt) = (Inr ct, k1)" "frame sid TYPE_DATA ct = Inr f"
        "append_or_flush ops fd f flags blocking (w\<lparr>io_st := (io_st w)\<lparr>phase := Active k1\<rparr>\<rparr>) = (Ret (Inr ()), w2)"
        "send_records lib ops fd sid flags blocking (drop MAX_RECORD_PLAINTEXT pt) w2 = (Ret (Inr u), w')"
      by (auto simp: unf Let_def split: prod.split_asm sum.split_asm outcome.split_asm)
    note a = append_or_flush_exact [OF "1.prems"(1) s(3)]
    from a(2) have "phase (io_st w2) = Active k1" by simp
    from "1.IH" [OF False "1.prems"(2) s(1) [symmetric] refl refl s(2) s(3) [symmetric] refl refl "1.prems"(1) this s(4)]
    obtain cts fs k' where r: "run_rec (SessionKeys_seal lib) k1 (record_chunks (drop MAX_RECORD_PLAINTEXT pt)) = (Inr cts, k')"
      "data_frames sid cts fs" "phase (io_st w') = Active k'" "wire_of out fd w' = wire_of out fd w2 @ concat fs" by blast
    have "wire_of out fd w2 = wire_of out fd w @ f" using a(1) by (simp add: wire_of_def)
    with r s(1,2) False show ?thesis
      by (intro exI [of _ "ct # cts"] exI [of _ "f # fs"] exI [of _ k'])
        (simp add: record_chunks.simps [of pt] data_frames_def)
  qed
qed

lemma flush_loop_exact:
  assumes "wire_log ops out" and "iterate (flush_step ops fd flags len) v = Some (Ret n, w')" and "n \<noteq> - 1"
  shows "n = int len \<and> wire_of out fd w' = wire_of out fd v \<and> phase (io_st w') = phase (io_st v)"
proof -
  let ?I = "\<lambda>u. wire_of out fd u = wire_of out fd v \<and> phase (io_st u) = phase (io_st v)"
  have "case (Ret n, w') of (Ret n, w') \<Rightarrow> n \<noteq> - 1 \<longrightarrow> n = int len \<and> ?I w' | (Panic, w') \<Rightarrow> True"
  proof (rule iterate_invariant [OF assms(2), where I = ?I])
    fix u u' assume "?I u" "flush_step ops fd flags len u = Inr u'"
    moreover from this obtain r where "flush_backlog ops fd flags u = (r, u')"
      by (auto simp: flush_step_def split: prod.split_asm outcome.split_asm sum.split_asm if_split_asm)
    ultimately show "?I u'" using flush_backlog_wire(1,2) [OF assms(1)] by metis
  next
    fix u q assume u: "?I u" "flush_step ops fd flags len u = Inl q"
    obtain r u' where f: "flush_backlog ops fd flags u = (r, u')" by (cases "flush_backlog ops fd flags u")
    from u f flush_backlog_wire(1,2) [OF assms(1) f]
    show "case q of (Ret n, w') \<Rightarrow> n \<noteq> - 1 \<longrightarrow> n = int len \<and> ?I w' | (Panic, w') \<Rightarrow> True"
      by (auto simp: flush_step_def split: outcome.split_asm sum.split_asm if_split_asm)
  qed simp
  then show ?thesis using assms(3) by simp
qed

lemma overlay_send_exact:
  assumes "wire_log ops out" and "phase (io_st w) = Active k" and "pt \<noteq> []"
    and "overlay_send_locked lib ops fd pt flags w = Some (Ret n, w')" and "n \<noteq> - 1"
  shows "n = int (length pt) \<and> (\<exists>cts fs k'. run_rec (SessionKeys_seal lib) k (record_chunks pt) = (Inr cts, k') \<and>
    data_frames (CipherSuite_id (policy_suite (io_st w))) cts fs \<and> phase (io_st w') = Active k' \<and>
    wire_of out fd w' = wire_of out fd w @ concat fs)"
proof -
  obtain ok w1 where a: "admit ops w = (ok, w1)" by (cases "admit ops w")
  have ok: "ok" using assms(4,5) a by (cases ok) (auto simp: overlay_send_locked_def)
  then have w1: "w1 = w" using a admit_True [of ops w w1] by simp
  obtain b w2 where b: "is_blocking ops fd w = (b, w2)" by (cases "is_blocking ops fd w")
  note w2 = is_blocking_state [OF b]
  obtain r3 w3 where f: "flush_backlog ops fd flags w2 = (r3, w3)" by (cases "flush_backlog ops fd flags w2")
  note w3 = flush_backlog_wire [OF assms(1) f]
  have "iterate (write_step lib ops fd flags b) w3 = Some (Ret (Inr ()), w3)"
    by (rule iterate_leaves) (simp add: write_step_def w3(2) w2 assms(2))
  moreover obtain r4 w4 where s: "send_records lib ops fd (CipherSuite_id (policy_suite (io_st w3))) flags b pt w3 = (r4, w4)"
    by (cases "send_records lib ops fd (CipherSuite_id (policy_suite (io_st w3))) flags b pt w3")
  moreover obtain r5 w5 where g: "flush_backlog ops fd flags w4 = (r5, w5)" by (cases "flush_backlog ops fd flags w4")
  ultimately have r: "r4 = Ret (Inr ())" "w' = w5 \<and> n = int (length pt) \<or>
      iterate (flush_step ops fd flags (length pt)) w5 = Some (Ret n, w')"
    using assms(3-5) a ok w1 b f
    by (auto simp: overlay_send_locked_def drive_until_active_for_write_def
        split: outcome.split_asm sum.split_asm if_split_asm)
  have w5: "n = int (length pt) \<and> wire_of out fd w' = wire_of out fd w4 \<and> phase (io_st w') = phase (io_st w4)"
    using r(2) flush_loop_exact [OF assms(1) _ assms(5)] flush_backlog_wire(1,2) [OF assms(1) g] by auto
  from send_records_exact [OF assms(1) _ s [unfolded r(1)], of k] w3(2) w2 assms(2)
  obtain cts fs k' where c: "run_rec (SessionKeys_seal lib) k (record_chunks pt) = (Inr cts, k')"
    "data_frames (CipherSuite_id (policy_suite (io_st w3))) cts fs" "phase (io_st w4) = Active k'"
    "wire_of out fd w4 = wire_of out fd w3 @ concat fs" by auto
  have "wire_of out fd w3 = wire_of out fd w" using w3(1) w2 by (simp add: wire_of_def)
  with c w5 w3(3) w2 show ?thesis
    by (intro conjI exI [of _ cts] exI [of _ fs] exI [of _ k']) simp_all
qed

lemma drain_records_exact:
  assumes "data_frames (CipherSuite_id (policy_suite st)) cts fs" and "phase st = Active k"
    and "run_rec (SessionKeys_open lib) k cts = (Inr ps, k')" and "rx_wire st = concat fs"
    and "length (rx_plain st) + length (concat ps) \<le> MAX_PLAIN_RX_BUFFER"
  shows "drain_records lib st m =
    (Inr (), st\<lparr>rx_wire := [], phase := Active k', rx_plain := rx_plain st @ concat ps\<rparr>, m)"
  using assms
proof (induction cts arbitrary: fs st k ps)
  case Nil
  then have "st\<lparr>rx_wire := [], phase := Active k', rx_plain := rx_plain st @ concat ps\<rparr> = st"
    by (cases st) (simp add: data_frames_def)
  with Nil show ?case by (simp add: drain_records.simps [of lib st] data_frames_def)
next
  case (Cons ct cts)
  from Cons.prems(1) obtain f fs' where f: "fs = f # fs'" "frame (CipherSuite_id (policy_suite st)) TYPE_DATA ct = Inr f"
    "data_frames (CipherSuite_id (policy_suite st)) cts fs'" by (auto simp: data_frames_def list_all2_Cons1)
  from Cons.prems(3) obtain p k1 ps' where o: "SessionKeys_open lib k ct = (Inr p, k1)"
    "run_rec (SessionKeys_open lib) k1 cts = (Inr ps', k')" "ps = p # ps'"
    by (auto simp only: run_rec_Cons_Inr)
  let ?st = "st\<lparr>rx_wire := concat fs', phase := Active k1, rx_plain := rx_plain st @ p\<rparr>"
  have pop: "try_pop_frame (rx_wire st) =
      (Inr (Some \<lparr>pf_suite_id = CipherSuite_id (policy_suite st), pf_tag = TYPE_DATA, pf_payload = ct\<rparr>), concat fs')"
    using try_pop_frame_frame [OF f(2)] Cons.prems(4) f(1) by simp
  have "append_rx_plain p (st\<lparr>rx_wire := concat fs', phase := Active k1\<rparr>) = (Inr (), ?st)"
    using rxp.append_fits [of "st\<lparr>rx_wire := concat fs', phase := Active k1\<rparr>" p] Cons.prems(5) o(3) by simp
  then have "drain_records lib st m = drain_records lib ?st m"
    using pop o(1) Cons.prems(2) by (simp add: drain_records.simps [of lib st])
  also have "\<dots> = (Inr (), ?st\<lparr>rx_wire := [], phase := Active k', rx_plain := rx_plain ?st @ concat ps'\<rparr>, m)"
    by (rule Cons.IH) (use f(3) o Cons.prems(5) in simp_all)
  finally show ?case using o(3) by simp
qed

lemma sealed_longer:
  assumes "aead_laws lib"
  shows "run_rec (SessionKeys_seal lib) k ps = (Inr cts, k') \<Longrightarrow> length (concat ps) \<le> length (concat cts)"
proof (induction ps arbitrary: k cts)
  case (Cons p ps)
  from Cons.prems obtain c k1 cs where s: "SessionKeys_seal lib k p = (Inr c, k1)"
    "run_rec (SessionKeys_seal lib) k1 ps = (Inr cs, k')" "cts = c # cs" by (auto simp only: run_rec_Cons_Inr)
  from s(1) have "length c = length p + 16"
    by (auto simp: SessionKeys_seal_Inr_iff Direction_seal_Inr_iff dest: aes_encrypt_length [OF assms])
  with Cons.IH [OF s(2)] s(3) show ?case by simp
qed simp

lemma framed_longer: "data_frames sid cts fs \<Longrightarrow> length (concat cts) \<le> length (concat fs)"
  unfolding data_frames_def
  by (induction rule: list_all2_induct) (auto simp: frame_Inr_iff)

text \<open>C10. End-to-end delivery: let an active session with an empty send queue send a non-empty
  plaintext, the call not failing, and let a peer session in step with it, pinned to the same suite
  and with empty buffers, receive the bytes the call produced (those accepted by the operating
  system followed by those still queued). Then the call reported the full length, the peer decodes
  exactly the plaintext, consumes every byte, and the two sessions are in step again.\<close>

theorem send_delivers:
  assumes "wire_log ops out" and "phase (io_st w) = Active ka" and "tx_backlog (io_st w) = []"
    and "pt \<noteq> []" and "overlay_send_locked lib ops fd pt flags w = Some (Ret n, w')" and "n \<noteq> - 1"
    and "out fd (io_os w') @ tx_backlog (io_st w') = out fd (io_os w) @ bs"
    and "in_sync lib ka kb" and "phase sb = Active kb" and "policy_suite sb = policy_suite (io_st w)"
    and "rx_wire sb = []" and "rx_plain sb = []" and "length bs \<le> MAX_WIRE_RX_BUFFER"
  shows "n = int (length pt) \<and>
    (\<exists>sb' ka' kb'. drain_records lib (sb\<lparr>rx_wire := bs\<rparr>) m = (Inr (), sb', m) \<and>
       rx_plain sb' = pt \<and> rx_wire sb' = [] \<and>
       phase (io_st w') = Active ka' \<and> phase sb' = Active kb' \<and> in_sync lib ka' kb')"
proof -
  from overlay_send_exact [OF assms(1,2,4-6)] obtain cts fs ka' where
    n: "n = int (length pt)" and s: "run_rec (SessionKeys_seal lib) ka (record_chunks pt) = (Inr cts, ka')"
    and f: "data_frames (CipherSuite_id (policy_suite (io_st w))) cts fs" and k: "phase (io_st w') = Active ka'"
    and wire: "wire_of out fd w' = wire_of out fd w @ concat fs" by blast
  have bs: "bs = concat fs" using wire assms(3,7) by (simp add: wire_of_def)
  from sess.stream_delivered [OF assms(8) s] obtain kb' where
    o: "run_rec (SessionKeys_open lib) kb cts = (Inr (record_chunks pt), kb')" "in_sync lib ka' kb'" by blast
  have "aead_laws lib" using assms(8) by (simp add: in_sync_def)
  from sealed_longer [OF this s] framed_longer [OF f] bs assms(13)
  have "length (concat (record_chunks pt)) \<le> MAX_PLAIN_RX_BUFFER"
    by (simp add: MAX_PLAIN_RX_BUFFER_def MAX_WIRE_RX_BUFFER_def)
  then have "drain_records lib (sb\<lparr>rx_wire := bs\<rparr>) m = (Inr (), (sb\<lparr>rx_wire := bs\<rparr>)\<lparr>rx_wire := [],
      phase := Active kb', rx_plain := rx_plain sb @ concat (record_chunks pt)\<rparr>, m)"
    using drain_records_exact [of "sb\<lparr>rx_wire := bs\<rparr>" cts fs kb lib "record_chunks pt" kb' m] f o(1) assms bs by simp
  with n k o(2) assms(12) show ?thesis by (simp add: concat_record_chunks)
qed

lemma toy_send:
  "\<exists>w'. overlay_send_locked toy_lib (toy_ops toy_c) 3 [1, 2, 3] 0 toy_w = Some (Ret 3, w') \<and>
     tx_backlog (io_st w') = [] \<and> length (t_out (io_os w')) = 25"
proof -
  let ?w = toy_w and ?ops = "toy_ops toy_c"
  have adm: "admit ?ops ?w = (True, ?w)"
    by (simp add: admit_def inherited_after_fork_def fail_if_stale_idle_config_def toy_io_def toy_active_def
        FdState_new_defs current_pid_def current_config_epoch_def toy_ops_def Let_def)
  have ph: "phase (io_st ?w) = Active (toy_session 1 2)" "tx_backlog (io_st ?w) = []"
    "policy_suite (io_st ?w) = NistStandard768" "t_out (io_os ?w) = []"
    by (simp_all add: toy_io_def toy_active_def FdState_new_defs)
  have "flush_backlog ?ops 3 0 ?w = (Ret (Inr True), ?w)" using ph by (simp add: flush_backlog.simps)
  moreover have "iterate (write_step toy_lib ?ops 3 0 False) ?w = Some (Ret (Inr ()), ?w)"
    by (rule iterate_leaves) (simp add: write_step_def ph)
  ultimately have drive: "drive_until_active_for_write toy_lib ?ops 3 0 False ?w = Some (Ret (Inr ()), ?w)"
    by (simp add: drive_until_active_for_write_def)
  obtain ct k' where seal: "SessionKeys_seal toy_lib (toy_session 1 2) [1, 2, 3] = (Inr ct, k')" "length ct = 19"
    by (simp add: SessionKeys_seal_def toy_session_def toy_seal)
  then obtain f where f: "frame (CipherSuite_id NistStandard768) TYPE_DATA ct = Inr f" "length f = 25"
    by (auto simp: frame_Inr_iff wire_consts)
  let ?w1 = "?w\<lparr>io_st := (io_st ?w)\<lparr>phase := Active k', tx_backlog := f\<rparr>\<rparr>"
  have "append_or_flush ?ops 3 f 0 False (?w\<lparr>io_st := (io_st ?w)\<lparr>phase := Active k'\<rparr>\<rparr>) = (Ret (Inr ()), ?w1)"
    using txb.append_fits [of "(io_st ?w)\<lparr>phase := Active k'\<rparr>" f] ph f by (simp add: append_or_flush_def wire_consts)
  then have send: "send_records toy_lib ?ops 3 (CipherSuite_id NistStandard768) 0 False [1, 2, 3] ?w = (Ret (Inr ()), ?w1)"
    using seal(1) f(1) ph by (simp add: send_records.simps MAX_RECORD_PLAINTEXT_def)
  have "f \<noteq> []" using f(2) by auto
  then have "flush_backlog ?ops 3 0 ?w1 =
      (Ret (Inr True), ?w1\<lparr>io_os := (io_os ?w)\<lparr>t_out := f\<rparr>, io_st := (io_st ?w)\<lparr>phase := Active k', tx_backlog := []\<rparr>\<rparr>)"
    using ph(4) by (simp add: flush_backlog.simps toy_ops_def)
  with adm drive send ph(3) f(2) toy_nonblocking show ?thesis by (simp add: overlay_send_locked_def)
qed

theorem send_delivers_witness:
  "\<exists>w' bs sb' m. overlay_send_locked toy_lib (toy_ops toy_c) 3 [1, 2, 3] 0 toy_w = Some (Ret 3, w') \<and>
     t_out (io_os w') = bs \<and>
     drain_records toy_lib ((toy_active toy_c (toy_session 2 1))\<lparr>rx_wire := bs\<rparr>) m = (Inr (), sb', m) \<and>
     rx_plain sb' = [1, 2, 3]"
proof -
  from toy_send obtain w' where s: "overlay_send_locked toy_lib (toy_ops toy_c) 3 [1, 2, 3] 0 toy_w = Some (Ret 3, w')"
    "tx_backlog (io_st w') = []" "length (t_out (io_os w')) = 25" by blast
  have st: "phase (io_st toy_w) = Active (toy_session 1 2)" "tx_backlog (io_st toy_w) = []"
    "toy_wire 3 (io_os w') @ tx_backlog (io_st w') = toy_wire 3 (io_os toy_w) @ t_out (io_os w')"
    by (simp_all add: toy_io_def toy_active_def toy_wire_def s FdState_new_defs)
  have len: "length (t_out (io_os w')) \<le> MAX_WIRE_RX_BUFFER" by (simp add: s(3) wire_consts)
  have "\<exists>sb'. drain_records toy_lib ((toy_active toy_c (toy_session 2 1))\<lparr>rx_wire := t_out (io_os w')\<rparr>) m = (Inr (), sb', m) \<and>
      rx_plain sb' = [1, 2, 3]" for m
    using send_delivers [OF toy_wire_log st(1,2) _ s(1) _ st(3) toy_session_sync _ _ _ _ len,
        where sb = "toy_active toy_c (toy_session 2 1)" and m = m]
    by (auto simp: toy_active_def FdState_new_defs toy_io_def)
  with s(1) show ?thesis by blast
qed

end
