(* ===== verification/End_To_End.thy ===== *)
theory End_To_End
  imports Delivery
begin

text \<open>
  Two nodes over a link, from the first call to the last byte: the handshake and the record exchange
  of \<open>overlay_send\<close> and \<open>overlay_recv\<close> (\<open>src/interceptor.rs\<close>) composed on both sides, on non-blocking
  descriptors, with a link that may cut the byte stream anywhere. The theorems on framing, handshake,
  negotiation and records meet here.
\<close>

section \<open>The link\<close>

text \<open>What stays the same in a process while the exchange runs; clock and random draws do not.\<close>

definition node :: "int \<Rightarrow> u64 \<Rightarrow> IdentityMaterial \<Rightarrow> ctx \<Rightarrow> bool" where
  "node pid epoch identity c \<longleftrightarrow>
     current_pid c = pid \<and> current_config_epoch c = epoch \<and> resolve_identity (ctx_config c) = Inr identity"

text \<open>One end of a link. \<open>out\<close> are the bytes under way to the peer, \<open>inp\<close> those under way from it. The
  operating system takes some of the bytes it is given and hands over some of those that have arrived,
  in order, and would block when there are none.\<close>

definition endpoint :: "(ctx \<Rightarrow> bool) \<Rightarrow> 'os os_ops \<Rightarrow> int \<Rightarrow> ('os \<Rightarrow> bytes) \<Rightarrow> ('os \<Rightarrow> bytes) \<Rightarrow> bool" where
  "endpoint P ops fd out inp \<longleftrightarrow>
     (\<forall>os. P (env ops os)) \<and>
     (\<forall>os. \<exists>fl. sys_getfl ops fd os = SysOk fl \<and> fl AND O_NONBLOCK \<noteq> 0) \<and>
     (\<forall>bs os. bs \<noteq> [] \<longrightarrow> (\<exists>n os'. sys_send ops fd bs 0 os = (SysOk n, os') \<and> 0 < n \<and> n \<le> length bs \<and>
        out os' = out os @ take n bs \<and> inp os' = inp os)) \<and>
     (\<forall>len os. inp os = [] \<longrightarrow> (\<exists>os'. sys_recv ops fd len 0 os = (RecvErr EAGAIN, os') \<and> out os' = out os \<and> inp os' = [])) \<and>
     (\<forall>len os. 0 < len \<longrightarrow> inp os \<noteq> [] \<longrightarrow> (\<exists>n os'. sys_recv ops fd len 0 os = (RecvOk (take n (inp os)), os') \<and>
        0 < n \<and> n \<le> len \<and> n \<le> length (inp os) \<and> out os' = out os \<and> inp os' = drop n (inp os)))"

lemma endpointD:
  assumes "endpoint P ops fd out inp"
  shows "P (env ops os)"
    and "\<exists>fl. sys_getfl ops fd os = SysOk fl \<and> fl AND O_NONBLOCK \<noteq> 0"
    and "bs \<noteq> [] \<Longrightarrow> \<exists>n os'. sys_send ops fd bs 0 os = (SysOk n, os') \<and> 0 < n \<and> n \<le> length bs \<and>
      out os' = out os @ take n bs \<and> inp os' = inp os"
    and "inp os = [] \<Longrightarrow> \<exists>os'. sys_recv ops fd len 0 os = (RecvErr EAGAIN, os') \<and> out os' = out os \<and> inp os' = []"
    and "0 < len \<Longrightarrow> inp os \<noteq> [] \<Longrightarrow> \<exists>n os'. sys_recv ops fd len 0 os = (RecvOk (take n (inp os)), os') \<and>
      0 < n \<and> n \<le> len \<and> n \<le> length (inp os) \<and> out os' = out os \<and> inp os' = drop n (inp os)"
  using assms unfolding endpoint_def by blast+

text \<open>A session of the process itself, under its current configuration.\<close>

definition own :: "int \<Rightarrow> u64 \<Rightarrow> FdState \<Rightarrow> bool" where
  "own pid epoch st \<longleftrightarrow> owner_pid st = pid \<and> config_epoch st = epoch"

lemma own_upd [simp]:
  "own pid epoch (st\<lparr>phase := x\<rparr>) = own pid epoch st" "own pid epoch (st\<lparr>tx_backlog := b\<rparr>) = own pid epoch st"
  "own pid epoch (st\<lparr>rx_wire := b\<rparr>) = own pid epoch st" "own pid epoch (st\<lparr>rx_plain := b\<rparr>) = own pid epoch st"
  "own pid epoch (fst (activate c k st m)) = own pid epoch st"
  by (simp_all add: own_def activate_def Let_def)

lemma own_admitted:
  assumes "endpoint (node pid epoch i) ops fd out inp" "own pid epoch (io_st w)"
  shows "admit ops w = (True, w)" and "is_blocking ops fd w = (False, w)"
proof -
  have "node pid epoch i (env ops (io_os w))" by (rule endpointD(1) [OF assms(1)])
  then show "admit ops w = (True, w)" using assms(2)
    by (simp add: admit_def inherited_after_fork_def fail_if_stale_idle_config_def node_def own_def Let_def)
  from endpointD(2) [OF assms(1)] obtain fl where "sys_getfl ops fd (io_os w) = SysOk fl" "fl AND O_NONBLOCK \<noteq> 0" by blast
  then show "is_blocking ops fd w = (False, w)" by (simp add: is_blocking_def)
qed

section \<open>Flushing and pulling on a link\<close>

lemma link_flush:
  assumes "endpoint P ops fd out inp"
  shows "\<exists>os'. flush_backlog ops fd 0 w = (Ret (Inr True), w\<lparr>io_st := (io_st w)\<lparr>tx_backlog := []\<rparr>, io_os := os'\<rparr>) \<and>
    out os' = out (io_os w) @ tx_backlog (io_st w) \<and> inp os' = inp (io_os w)"
proof (induction "length (tx_backlog (io_st w))" arbitrary: w rule: less_induct)
  case less
  show ?case
  proof (cases "tx_backlog (io_st w) = []")
    case True
    then have "w\<lparr>io_st := (io_st w)\<lparr>tx_backlog := []\<rparr>, io_os := io_os w\<rparr> = w" by (cases w; cases "io_st w") simp
    with True show ?thesis by (intro exI [of _ "io_os w"]) (simp add: flush_backlog.simps)
  next
    case False
    from endpointD(3) [OF assms False] obtain n os' where
      s: "sys_send ops fd (tx_backlog (io_st w)) 0 (io_os w) = (SysOk n, os')" "0 < n" "n \<le> length (tx_backlog (io_st w))"
        "out os' = out (io_os w) @ take n (tx_backlog (io_st w))" "inp os' = inp (io_os w)" by blast
    let ?w = "w\<lparr>io_os := os', io_st := (io_st w)\<lparr>tx_backlog := drop n (tx_backlog (io_st w))\<rparr>\<rparr>"
    have "flush_backlog ops fd 0 w = flush_backlog ops fd 0 ?w"
      using s False by (subst flush_backlog.simps) (simp add: Let_def)
    with less [of ?w] s False show ?thesis by auto
  qed
qed

lemma link_pull:
  assumes "endpoint P ops fd out inp"
  shows "inp (io_os w) = [] \<Longrightarrow> \<exists>os'. pull_wire ops fd 0 w = (Ret (Inr (- 1)), w\<lparr>io_errno := EAGAIN, io_os := os'\<rparr>) \<and>
      out os' = out (io_os w) \<and> inp os' = []"
    and "inp (io_os w) \<noteq> [] \<Longrightarrow> length (rx_wire (io_st w)) + 8192 \<le> MAX_WIRE_RX_BUFFER \<Longrightarrow>
      \<exists>n os'. 0 < n \<and> n \<le> 8192 \<and> n \<le> length (inp (io_os w)) \<and> pull_wire ops fd 0 w =
        (Ret (Inr (int n)), w\<lparr>io_st := (io_st w)\<lparr>rx_wire := rx_wire (io_st w) @ take n (inp (io_os w))\<rparr>, io_os := os'\<rparr>) \<and>
        out os' = out (io_os w) \<and> inp os' = drop n (inp (io_os w))"
proof -
  assume "inp (io_os w) = []"
  from endpointD(4) [OF assms this, of 8192] obtain os' where
    "sys_recv ops fd 8192 0 (io_os w) = (RecvErr EAGAIN, os')" "out os' = out (io_os w)" "inp os' = []" by blast
  then show "\<exists>os'. pull_wire ops fd 0 w = (Ret (Inr (- 1)), w\<lparr>io_errno := EAGAIN, io_os := os'\<rparr>) \<and>
      out os' = out (io_os w) \<and> inp os' = []" by (intro exI [of _ os']) (simp add: pull_wire_def)
next
  assume i: "inp (io_os w) \<noteq> []" and l: "length (rx_wire (io_st w)) + 8192 \<le> MAX_WIRE_RX_BUFFER"
  from endpointD(5) [OF assms _ i, of 8192] obtain n os' where
    r: "sys_recv ops fd 8192 0 (io_os w) = (RecvOk (take n (inp (io_os w))), os')" "0 < n" "n \<le> 8192"
      "n \<le> length (inp (io_os w))" "out os' = out (io_os w)" "inp os' = drop n (inp (io_os w))" by auto
  have "append_rx_wire (take n (inp (io_os w))) (io_st w) =
      (Inr (), (io_st w)\<lparr>rx_wire := rx_wire (io_st w) @ take n (inp (io_os w))\<rparr>)"
    using rxw.append_fits [of "io_st w" "take n (inp (io_os w))"] l r(3,4) by simp
  with r i show "\<exists>n os'. 0 < n \<and> n \<le> 8192 \<and> n \<le> length (inp (io_os w)) \<and> pull_wire ops fd 0 w =
        (Ret (Inr (int n)), w\<lparr>io_st := (io_st w)\<lparr>rx_wire := rx_wire (io_st w) @ take n (inp (io_os w))\<rparr>, io_os := os'\<rparr>) \<and>
        out os' = out (io_os w) \<and> inp os' = drop n (inp (io_os w))"
    by (intro exI [of _ n] exI [of _ os']) (simp add: pull_wire_def Let_def)
qed

section \<open>The handshake\<close>

lemma handshake_partial:
  assumes "frame i t p = Inr (rx_wire st @ y)" "y \<noteq> []"
  shows "drive_handshake lib c st m = (st, m)"
  using try_pop_frame_partial [OF assms] by (simp add: drive_handshake_eq)

text \<open>The frame \<open>g\<close> is an answer with which an initiator in state \<open>h\<close> gets keys that mirror \<open>ks\<close>.\<close>

definition finishes :: "crypto_lib \<Rightarrow> IdentityMaterial \<Rightarrow> CipherSuite \<Rightarrow> InitiatorState \<Rightarrow> bytes \<Rightarrow> SessionKeys \<Rightarrow> bool" where
  "finishes lib a suite h g ks \<longleftrightarrow>
     (\<exists>sh. frame (CipherSuite_id suite) TYPE_SERVER_HELLO sh = Inr g) \<and> length g \<le> 6963 \<and>
     (\<forall>c i m. resolve_identity (ctx_config c) = Inr a \<longrightarrow> phase i = InitiatorAwaitingServerHello h \<longrightarrow>
        policy_suite i = suite \<longrightarrow> rx_wire i = g \<longrightarrow>
        (\<exists>kc. fresh_mirror kc ks \<and> drive_handshake lib c i m = activate c kc (i\<lparr>rx_wire := [], phase := Failed\<rparr>) m))"

text \<open>The hello a connecting node queues, and the answer of any responder that it is pinned to.\<close>

lemma hello_exchange:
  assumes "mutual lib a b" "resolve_identity (ctx_config ca) = Inr a" "policy ca = Inr suite" "local_posture ca = FullPqc"
  obtains h ch f where "initiator_state lib ca = FdState_initiator ca suite h f"
    "frame (CipherSuite_id suite) TYPE_CLIENT_HELLO ch = Inr f" "length f \<le> 6963"
    "\<forall>cb r m. resolve_identity (ctx_config cb) = Inr b \<longrightarrow> phase r = ResponderAwaitingClientHello \<longrightarrow>
      policy_suite r = suite \<longrightarrow> rx_wire r = f \<longrightarrow> tx_backlog r = [] \<longrightarrow>
      (\<exists>g ks. finishes lib a suite h g ks \<and>
        drive_handshake lib cb r m = activate cb ks (r\<lparr>rx_wire := [], phase := Failed, tx_backlog := g\<rparr>) m)"
proof -
  note completes = engine.completes [OF assms(1), of suite "(ctx_x25519 ca, ctx_kem ca)"]
  from completes [of "(ctx_x25519 ca, ctx_kem ca)"] obtain h ch where
    h: "engine_begin_initiator lib suite (ctx_x25519 ca) (ctx_kem ca) a = Inr (h, ch)" "length ch \<le> 6957" by auto
  obtain f where f: "frame (CipherSuite_id suite) TYPE_CLIENT_HELLO ch = Inr f"
    using max_hello_fits(1) [OF h(2)] by (auto simp: frame_Inr_iff)
  have "\<exists>g ks. finishes lib a suite h g ks \<and>
      drive_handshake lib cb r m = activate cb ks (r\<lparr>rx_wire := [], phase := Failed, tx_backlog := g\<rparr>) m"
    if r: "resolve_identity (ctx_config cb) = Inr b" "phase r = ResponderAwaitingClientHello"
      "policy_suite r = suite" "rx_wire r = f" "tx_backlog r = []" for cb :: ctx and r :: FdState and m
  proof -
    from completes [of "(ctx_x25519 cb, ctx_kem cb)"] h(1) obtain ks sh kc where
      e: "engine_respond lib suite (ctx_x25519 cb) (ctx_kem cb) b ch = Inr (ks, sh)"
        "InitiatorState_finish lib h a sh = Inr kc" "fresh_mirror kc ks" "length sh \<le> 6957" by auto
    obtain g where g: "frame (CipherSuite_id suite) TYPE_SERVER_HELLO sh = Inr g"
      using max_hello_fits(1) [OF e(4)] by (auto simp: frame_Inr_iff)
    have "drive_handshake lib cb r m = activate cb ks (r\<lparr>rx_wire := [], phase := Failed, tx_backlog := g\<rparr>) m"
      using r e(1) queue_frame_fits [OF _ g, of "r\<lparr>rx_wire := [], phase := Failed\<rparr>"]
      by (subst drive_handshake_frame [OF f]) (simp_all add: handle_frame_def Let_def suite_id_known)
    moreover have "drive_handshake lib c i m' = activate c kc (i\<lparr>rx_wire := [], phase := Failed\<rparr>) m'"
      if "resolve_identity (ctx_config c) = Inr a" "phase i = InitiatorAwaitingServerHello h" "policy_suite i = suite"
        "rx_wire i = g" for c :: ctx and i :: FdState and m'
      using that e(2) by (subst drive_handshake_frame [OF g]) (simp_all add: handle_frame_def Let_def)
    then have "finishes lib a suite h g ks" using g frame_length [OF g] e(3,4) by (auto simp: finishes_def)
    ultimately show ?thesis by blast
  qed
  moreover have "initiator_state lib ca = FdState_initiator ca suite h f"
    using assms(2-4) h(1) f by (simp add: initiator_state_def build_pqc_initiator_def)
  moreover have "length f \<le> 6963" using frame_length [OF f] h(2) by simp
  ultimately show thesis using that [OF _ f, of h] by blast
qed

text \<open>A session between calls, with nothing buffered.\<close>

definition rests :: "int \<Rightarrow> u64 \<Rightarrow> CipherSuite \<Rightarrow> FdState \<Rightarrow> bool" where
  "rests pid epoch suite st \<longleftrightarrow>
     own pid epoch st \<and> policy_suite st = suite \<and> tx_backlog st = [] \<and> rx_wire st = [] \<and> rx_plain st = []"

lemma activate_rests:
  "rests pid epoch suite (fst (activate c k (st\<lparr>rx_wire := [], phase := x, tx_backlog := []\<rparr>) m)) \<longleftrightarrow>
     own pid epoch st \<and> policy_suite st = suite \<and> rx_plain st = []"
  by (auto simp: rests_def own_def activate_def Let_def)

lemma no_backlog: "tx_backlog (io_st w) = [] \<Longrightarrow> flush_backlog ops fd flags w = (Ret (Inr True), w)"
  by (simp add: flush_backlog.simps)

lemma drive_same: "drive_handshake lib (env ops (io_os w)) (io_st w) (io_metrics w) = (io_st w, io_metrics w) \<Longrightarrow> io_drive_handshake lib ops w = w"
  by (simp add: io_drive_handshake_def)

text \<open>A turn of the receive loop that finds nothing to hand over.\<close>

lemma recv_dry:
  assumes ep: "endpoint P ops fd out inp" and "rx_plain (io_st w) = []"
    and "(if \<not> (is_Active (phase (io_st w)) \<or> phase (io_st w) = Failed) then handshake_turn lib ops fd 0 w else (Ret (), w)) = (Ret (), w1)"
    and "is_Active (phase (io_st w1))" "rx_plain (io_st w1) = []" "inp (io_os w1) = []"
    and "drain_records lib (io_st w1) (io_metrics w1) = (Inr (), io_st w1, io_metrics w1)"
  shows "\<exists>os'. recv_step lib ops fd len 0 False w = Inl (Ret (- 1, []), w1\<lparr>io_errno := EAGAIN, io_os := os'\<rparr>) \<and>
    out os' = out (io_os w1) \<and> inp os' = []"
proof -
  from link_pull(1) [OF ep assms(6)] obtain os' where
    "pull_wire ops fd 0 w1 = (Ret (Inr (- 1)), w1\<lparr>io_errno := EAGAIN, io_os := os'\<rparr>)" "out os' = out (io_os w1)" "inp os' = []"
    by blast
  moreover have "phase (io_st w1) \<noteq> Failed" using assms(4) by auto
  ultimately show ?thesis using assms(2-5,7) by (intro exI [of _ os']) (simp add: recv_step_def recv_pull_def)
qed

text \<open>The responder takes the hello in whatever pieces it arrives, answers it, and has nothing for its
  application yet. \<open>A\<close> is what is known of the answer.\<close>

lemma recv_hello:
  assumes ep: "endpoint (node pid epoch b) ops fd out inp" and f: "frame i t p = Inr f" "length f \<le> 6963"
    and answer: "\<And>c r m. node pid epoch b c \<Longrightarrow> phase r = ResponderAwaitingClientHello \<Longrightarrow> policy_suite r = suite \<Longrightarrow>
      rx_wire r = f \<Longrightarrow> tx_backlog r = [] \<Longrightarrow> \<exists>g ks. A g ks \<and>
        drive_handshake lib c r m = activate c ks (r\<lparr>rx_wire := [], phase := Failed, tx_backlog := g\<rparr>) m"
    and st: "own pid epoch (io_st w)" "policy_suite (io_st w) = suite" "phase (io_st w) = ResponderAwaitingClientHello"
      "tx_backlog (io_st w) = []" "rx_plain (io_st w) = []" "rx_wire (io_st w) @ inp (io_os w) = f"
  shows "\<exists>g ks w'. A g ks \<and> iterate (recv_step lib ops fd len 0 False) w = Some (Ret (- 1, []), w') \<and> io_errno w' = EAGAIN \<and>
    phase (io_st w') = Active ks \<and> rests pid epoch suite (io_st w') \<and> out (io_os w') = out (io_os w) @ g \<and> inp (io_os w') = []"
  using st
proof (induction "length (inp (io_os w))" arbitrary: w rule: less_induct)
  case less
  show ?case
  proof (cases "inp (io_os w) = []")
    case False
    have "length (rx_wire (io_st w)) + 8192 \<le> MAX_WIRE_RX_BUFFER"
      using arg_cong [OF less.prems(6), of length] f(2) by (simp add: wire_consts)
    from link_pull(2) [OF ep False this] obtain n os' where
      n: "0 < n" "n \<le> length (inp (io_os w))" and pull: "pull_wire ops fd 0 w = (Ret (Inr (int n)),
          w\<lparr>io_st := (io_st w)\<lparr>rx_wire := rx_wire (io_st w) @ take n (inp (io_os w))\<rparr>, io_os := os'\<rparr>)"
      and os': "out os' = out (io_os w)" "inp os' = drop n (inp (io_os w))" by blast
    let ?w = "w\<lparr>io_st := (io_st w)\<lparr>rx_wire := rx_wire (io_st w) @ take n (inp (io_os w))\<rparr>, io_os := os'\<rparr>"
    have "drive_handshake lib c (io_st w) m = (io_st w, m)" for c m
      by (rule handshake_partial [of i t p _ "inp (io_os w)"]) (use f(1) less.prems(6) False in simp_all)
    then have "handshake_turn lib ops fd 0 w = (Ret (), w)"
      using less.prems(4) by (simp add: handshake_turn_def no_backlog drive_same)
    then have "recv_step lib ops fd len 0 False w = Inr ?w"
      using less.prems(3,5) pull n(1) by (simp add: recv_step_def recv_pull_def)
    moreover have "\<exists>g ks w'. A g ks \<and> iterate (recv_step lib ops fd len 0 False) ?w = Some (Ret (- 1, []), w') \<and>
        io_errno w' = EAGAIN \<and> phase (io_st w') = Active ks \<and> rests pid epoch suite (io_st w') \<and>
        out (io_os w') = out (io_os ?w) @ g \<and> inp (io_os w') = []"
      by (rule less.hyps) (use less.prems n os' False in simp_all)
    ultimately show ?thesis using os' by (simp add: iterate_again)
  next
    case True
    let ?c = "env ops (io_os w)" and ?m = "io_metrics w"
    from answer [where m = ?m, OF endpointD(1) [OF ep, of "io_os w"] less.prems(3,2) _ less.prems(4)] less.prems(6) True obtain g ks where
      g: "A g ks" "drive_handshake lib ?c (io_st w) ?m =
        activate ?c ks ((io_st w)\<lparr>rx_wire := [], phase := Failed, tx_backlog := g\<rparr>) ?m" by fastforce
    let ?w1 = "io_drive_handshake lib ops w"
    obtain s1 m1 where a: "activate ?c ks ((io_st w)\<lparr>rx_wire := [], phase := Failed, tx_backlog := g\<rparr>) ?m = (s1, m1)" by fastforce
    have s1: "tx_backlog s1 = g" "phase s1 = Active ks" "rests pid epoch suite (s1\<lparr>tx_backlog := []\<rparr>)"
      using a less.prems by (auto simp: activate_def Let_def rests_def own_def)
    have w1: "?w1 = w\<lparr>io_st := s1, io_metrics := m1\<rparr>" by (simp add: io_drive_handshake_def g(2) a)
    from link_flush [OF ep, of ?w1] w1 s1(1) True obtain w2 where
      fl: "flush_backlog ops fd 0 ?w1 = (Ret (Inr True), w2)" and w2: "io_st w2 = s1\<lparr>tx_backlog := []\<rparr>" "io_metrics w2 = m1"
        "out (io_os w2) = out (io_os w) @ g" "inp (io_os w2) = []" by auto
    have "handshake_turn lib ops fd 0 w = (Ret (), w2)"
      using less.prems(4) fl by (simp add: handshake_turn_def no_backlog)
    moreover have "drain_records lib (io_st w2) (io_metrics w2) = (Inr (), io_st w2, io_metrics w2)"
      using s1(3) w2(1) by (subst drain_records.simps) (simp add: rests_def)
    ultimately obtain os2 where
      "recv_step lib ops fd len 0 False w = Inl (Ret (- 1, []), w2\<lparr>io_errno := EAGAIN, io_os := os2\<rparr>)"
      and os2: "out os2 = out (io_os w2)" "inp os2 = []"
      using recv_dry [OF ep less.prems(5), of lib w2 len] less.prems(3) s1 w2(1,4) by (auto simp: rests_def)
    then have "iterate (recv_step lib ops fd len 0 False) w = Some (Ret (- 1, []), w2\<lparr>io_errno := EAGAIN, io_os := os2\<rparr>)"
      by (simp add: iterate_leaves)
    with g(1) s1 os2 w2 show ?thesis by (intro exI [of _ g] exI [of _ ks]) auto
  qed
qed

text \<open>The initiator finds its answer, in whatever pieces it arrives.\<close>

lemma write_hello:
  assumes ep: "endpoint (node pid epoch a) ops fd out inp" and g: "frame i t p = Inr g" "length g \<le> 6963"
    and accepts: "\<And>c s m. node pid epoch a c \<Longrightarrow> phase s = InitiatorAwaitingServerHello h \<Longrightarrow> policy_suite s = suite \<Longrightarrow>
      rx_wire s = g \<Longrightarrow> \<exists>k. K k \<and> drive_handshake lib c s m = activate c k (s\<lparr>rx_wire := [], phase := Failed\<rparr>) m"
    and st: "own pid epoch (io_st w)" "policy_suite (io_st w) = suite" "phase (io_st w) = InitiatorAwaitingServerHello h"
      "tx_backlog (io_st w) = []" "rx_plain (io_st w) = []" "rx_wire (io_st w) @ inp (io_os w) = g" "inp (io_os w) \<noteq> []"
  shows "\<exists>k w'. K k \<and> iterate (write_step lib ops fd 0 False) w = Some (Ret (Inr ()), w') \<and>
    phase (io_st w') = Active k \<and> rests pid epoch suite (io_st w') \<and> out (io_os w') = out (io_os w) \<and> inp (io_os w') = []"
  using st
proof (induction "length (inp (io_os w))" arbitrary: w rule: less_induct)
  case less
  have "length (rx_wire (io_st w)) + 8192 \<le> MAX_WIRE_RX_BUFFER"
    using arg_cong [OF less.prems(6), of length] g(2) by (simp add: wire_consts)
  from link_pull(2) [OF ep less.prems(7) this] less.prems obtain n w1 where
    n: "0 < n" "n \<le> length (inp (io_os w))" and pull: "pull_wire ops fd 0 w = (Ret (Inr (int n)), w1)"
    and w1: "io_st w1 = (io_st w)\<lparr>rx_wire := rx_wire (io_st w) @ take n (inp (io_os w))\<rparr>"
      "out (io_os w1) = out (io_os w)" "inp (io_os w1) = drop n (inp (io_os w))" by auto
  have step: "write_step lib ops fd 0 False w = Inr (io_drive_handshake lib ops w1)"
    using less.prems(3,4) pull n(1) by (simp add: write_step_def)
  show ?case
  proof (cases "inp (io_os w1) = []")
    case False
    have "drive_handshake lib c (io_st w1) m = (io_st w1, m)" for c m
      by (rule handshake_partial [of i t p _ "inp (io_os w1)"]) (use g(1) less.prems(6) False w1 in simp_all)
    then have "io_drive_handshake lib ops w1 = w1" by (simp add: drive_same)
    moreover have "\<exists>k w'. K k \<and> iterate (write_step lib ops fd 0 False) w1 = Some (Ret (Inr ()), w') \<and>
        phase (io_st w') = Active k \<and> rests pid epoch suite (io_st w') \<and> out (io_os w') = out (io_os w1) \<and> inp (io_os w') = []"
      by (rule less.hyps) (use less.prems n w1 False in simp_all)
    ultimately show ?thesis using step w1(2) by (simp add: iterate_again)
  next
    case True
    let ?c = "env ops (io_os w1)" and ?m = "io_metrics w1"
    have whole: "rx_wire (io_st w1) = g" using less.prems(6) w1 True n(2) by simp
    from accepts [where m = ?m, OF endpointD(1) [OF ep, of "io_os w1"] _ _ whole] less.prems(2,3) w1(1) obtain k where
      k: "K k" "drive_handshake lib ?c (io_st w1) ?m = activate ?c k ((io_st w1)\<lparr>rx_wire := [], phase := Failed\<rparr>) ?m" by auto
    let ?w = "io_drive_handshake lib ops w1"
    have w: "phase (io_st ?w) = Active k" "rests pid epoch suite (io_st ?w)" "io_os ?w = io_os w1"
      unfolding io_drive_handshake_def k(2) split_beta Let_def using less.prems w1(1)
      by (simp_all add: rests_def) (simp_all add: activate_def Let_def)
    then have "write_step lib ops fd 0 False ?w = Inl (Ret (Inr ()), ?w)" by (simp add: write_step_def)
    then have "iterate (write_step lib ops fd 0 False) w = Some (Ret (Inr ()), ?w)"
      using step by (simp add: iterate_again iterate_leaves)
    with k(1) w w1(2) True show ?thesis by (intro exI [of _ k] exI [of _ ?w]) simp
  qed
qed

section \<open>Sending\<close>

text \<open>Keys with which \<open>n\<close> more records can be sealed.\<close>

definition can_send :: "SessionKeys \<Rightarrow> nat \<Rightarrow> bool" where
  "can_send k n \<longleftrightarrow> length (dir_key (tx k)) = 32 \<and> unat (dir_counter (tx k)) + n < 2 ^ 64"

lemma next_record_seals:
  assumes "aead_laws lib" "can_send k (Suc n)" "length p \<le> MAX_RECORD_PLAINTEXT"
  obtains ct k' where "SessionKeys_seal lib k p = (Inr ct, k')" "length ct = length p + 16" "can_send k' n" "rx k' = rx k"
proof -
  have c: "dir_counter (tx k) \<noteq> - 1" "length (dir_key (tx k)) = 32"
    using assms(2) by (auto simp: can_send_def unsigned_minus_1_eq_mask mask_eq_exp_minus_1)
  have "length p < 2 ^ 36 - 31" using assms(3) by (simp add: wire_consts)
  from seal_succeeds [OF assms(1) c(2,1) this] obtain ct where
    "SessionKeys_seal lib k p = (Inr ct, k\<lparr>tx := (tx k)\<lparr>dir_counter := dir_counter (tx k) + 1\<rparr>\<rparr>)" "length ct = length p + 16" by blast
  moreover have "can_send (k\<lparr>tx := (tx k)\<lparr>dir_counter := dir_counter (tx k) + 1\<rparr>\<rparr>) n"
    using assms(2) unat_succ_not_max [OF c(1)] by (simp add: can_send_def)
  ultimately show thesis using that by auto
qed

lemma link_append:
  assumes ep: "endpoint P ops fd out inp" and "length f \<le> MAX_WRITE_BACKLOG" "length (tx_backlog (io_st w)) \<le> MAX_WRITE_BACKLOG"
  obtains w' b where "append_or_flush ops fd f 0 False w = (Ret (Inr ()), w')" "io_st w' = (io_st w)\<lparr>tx_backlog := b\<rparr>"
    "length b \<le> MAX_WRITE_BACKLOG" "out (io_os w') @ b = out (io_os w) @ tx_backlog (io_st w) @ f" "inp (io_os w') = inp (io_os w)"
proof (cases rule: txb.append_cases [OF assms(3), of f])
  case 1
  then show ?thesis using that [of "w\<lparr>io_st := (io_st w)\<lparr>tx_backlog := tx_backlog (io_st w) @ f\<rparr>\<rparr>" "tx_backlog (io_st w) @ f"]
    by (simp add: append_or_flush_def)
next
  case 2
  from link_flush [OF ep, of w] obtain w1 where fl: "flush_backlog ops fd 0 w = (Ret (Inr True), w1)"
    and w1: "io_st w1 = (io_st w)\<lparr>tx_backlog := []\<rparr>" "out (io_os w1) = out (io_os w) @ tx_backlog (io_st w)" "inp (io_os w1) = inp (io_os w)"
    by auto
  have "append_tx f (io_st w1) = (Inr (), (io_st w1)\<lparr>tx_backlog := f\<rparr>)"
    using txb.append_fits [of "io_st w1" f] assms(2) w1(1) by simp
  then show ?thesis using that [of "w1\<lparr>io_st := (io_st w1)\<lparr>tx_backlog := f\<rparr>\<rparr>" f] 2 fl w1 assms(2)
    by (simp add: append_or_flush_def)
qed

text \<open>The largest frame of a record.\<close>

abbreviation record_frame_max :: nat where
  "record_frame_max \<equiv> MAX_RECORD_PLAINTEXT + 22"

lemma link_send_records:
  assumes "endpoint P ops fd out inp" "aead_laws lib"
    and "phase (io_st w) = Active k" "can_send k (length (record_chunks pt))" "length (tx_backlog (io_st w)) \<le> MAX_WRITE_BACKLOG"
  shows "\<exists>cts fs k' b w'. send_records lib ops fd sid 0 False pt w = (Ret (Inr ()), w') \<and>
    run_rec (SessionKeys_seal lib) k (record_chunks pt) = (Inr cts, k') \<and> data_frames sid cts fs \<and>
    (\<forall>f \<in> set fs. length f \<le> record_frame_max) \<and> rx k' = rx k \<and>
    io_st w' = (io_st w)\<lparr>phase := Active k', tx_backlog := b\<rparr> \<and>
    out (io_os w') @ b = out (io_os w) @ tx_backlog (io_st w) @ concat fs \<and> inp (io_os w') = inp (io_os w)"
  using assms(3-)
proof (induction pt arbitrary: k w rule: record_chunks.induct)
  case (1 pt)
  show ?case
  proof (cases "pt = []")
    case True
    have "(io_st w)\<lparr>phase := Active k, tx_backlog := tx_backlog (io_st w)\<rparr> = io_st w" using "1.prems"(1) by (cases "io_st w") simp
    with True show ?thesis by (intro exI [of _ "[]"] exI [of _ k] exI [of _ "tx_backlog (io_st w)"] exI [of _ w])
        (simp add: send_records.simps record_chunks.simps data_frames_def)
  next
    case False
    let ?c = "take MAX_RECORD_PLAINTEXT pt" and ?rest = "drop MAX_RECORD_PLAINTEXT pt"
    have "can_send k (Suc (length (record_chunks ?rest)))"
      using "1.prems"(2) False by (simp add: record_chunks.simps [of pt])
    from next_record_seals [OF assms(2) this, of ?c] obtain ct k1 where
      s: "SessionKeys_seal lib k ?c = (Inr ct, k1)" "length ct = length ?c + 16" "can_send k1 (length (record_chunks ?rest))" "rx k1 = rx k"
      by auto
    obtain f where f: "frame sid TYPE_DATA ct = Inr f" "length f \<le> record_frame_max"
      using s(2) by (auto simp: frame_Inr_iff wire_consts)
    let ?w = "w\<lparr>io_st := (io_st w)\<lparr>phase := Active k1\<rparr>\<rparr>"
    obtain w1 b where a: "append_or_flush ops fd f 0 False ?w = (Ret (Inr ()), w1)" "io_st w1 = (io_st ?w)\<lparr>tx_backlog := b\<rparr>"
      "length b \<le> MAX_WRITE_BACKLOG" "out (io_os w1) @ b = out (io_os w) @ tx_backlog (io_st w) @ f" "inp (io_os w1) = inp (io_os w)"
      using link_append [OF assms(1) frame_fits [OF f(1)], of ?w] "1.prems"(3) by auto
    from "1.IH" [OF False, of w1 k1] a s(3) obtain cts fs k' b' w' where
      r: "send_records lib ops fd sid 0 False ?rest w1 = (Ret (Inr ()), w')"
        "run_rec (SessionKeys_seal lib) k1 (record_chunks ?rest) = (Inr cts, k')" "data_frames sid cts fs"
        "\<forall>f \<in> set fs. length f \<le> record_frame_max" "rx k' = rx k1" "io_st w' = (io_st w1)\<lparr>phase := Active k', tx_backlog := b'\<rparr>"
        "out (io_os w') @ b' = out (io_os w1) @ b @ concat fs" "inp (io_os w') = inp (io_os w1)" by auto
    have "send_records lib ops fd sid 0 False pt w = (Ret (Inr ()), w')"
      using False "1.prems"(1) s(1) f(1) a(1) r(1) by (subst send_records.simps) simp
    moreover have "run_rec (SessionKeys_seal lib) k (record_chunks pt) = (Inr (ct # cts), k')"
      using s(1) r(2) False by (simp add: record_chunks.simps [of pt])
    moreover have "data_frames sid (ct # cts) (f # fs)" using r(3) f(1) by (simp add: data_frames_def)
    moreover have "out (io_os w') @ b' = out (io_os w) @ tx_backlog (io_st w) @ concat (f # fs)"
      using r(7) a(4) by (metis append.assoc concat.simps(2))
    ultimately show ?thesis using r(4-6,8) f(2) s(4) a(2,5)
      by (intro exI [of _ "ct # cts"] exI [of _ "f # fs"] exI [of _ k'] exI [of _ b'] exI [of _ w']) simp
  qed
qed

text \<open>A call of \<open>overlay_send\<close> that finds its session active, or makes it so.\<close>

lemma link_send:
  assumes ep: "endpoint (node pid epoch i) ops fd out inp" and "aead_laws lib" and "own pid epoch (io_st w)"
    and "drive_until_active_for_write lib ops fd 0 False w = Some (Ret (Inr ()), w1)"
    and w1: "rests pid epoch suite (io_st w1)" "phase (io_st w1) = Active k" "can_send k (length (record_chunks pt))"
  obtains cts fs k' w' where "overlay_send_locked lib ops fd pt 0 w = Some (Ret (int (length pt)), w')"
    "run_rec (SessionKeys_seal lib) k (record_chunks pt) = (Inr cts, k')" "data_frames (CipherSuite_id suite) cts fs"
    "\<forall>f \<in> set fs. length f \<le> record_frame_max" "rx k' = rx k" "rests pid epoch suite (io_st w')" "phase (io_st w') = Active k'"
    "out (io_os w') = out (io_os w1) @ concat fs" "inp (io_os w') = inp (io_os w1)"
proof -
  have s1: "policy_suite (io_st w1) = suite" "tx_backlog (io_st w1) = []" using w1(1) by (simp_all add: rests_def)
  from link_send_records [OF ep assms(2) w1(2,3), of "CipherSuite_id suite"] s1(2) obtain cts fs k' b w2 where
    r: "send_records lib ops fd (CipherSuite_id suite) 0 False pt w1 = (Ret (Inr ()), w2)"
      "run_rec (SessionKeys_seal lib) k (record_chunks pt) = (Inr cts, k')" "data_frames (CipherSuite_id suite) cts fs"
      "\<forall>f \<in> set fs. length f \<le> record_frame_max" "rx k' = rx k" "io_st w2 = (io_st w1)\<lparr>phase := Active k', tx_backlog := b\<rparr>"
      "out (io_os w2) @ b = out (io_os w1) @ concat fs" "inp (io_os w2) = inp (io_os w1)" by auto
  from link_flush [OF ep, of w2] r(6-8) obtain w3 where
    f: "flush_backlog ops fd 0 w2 = (Ret (Inr True), w3)" "io_st w3 = (io_st w1)\<lparr>phase := Active k', tx_backlog := []\<rparr>"
      "out (io_os w3) = out (io_os w1) @ concat fs" "inp (io_os w3) = inp (io_os w1)" by auto
  have w3: "rests pid epoch suite (io_st w3)" "phase (io_st w3) = Active k'" using f(2) w1(1) by (simp_all add: rests_def)
  note call = overlay_send_locked_def [of lib ops fd pt 0 w] own_admitted [OF ep assms(3)] assms(4)
  show thesis
  proof (cases "pt = []")
    case True
    then have "k' = k" "fs = []" using r(2,3) by (simp_all add: record_chunks.simps data_frames_def)
    then show ?thesis using that [of w1 cts k' fs] True call r(2-5) w1 by simp
  next
    case False
    then show ?thesis using that [of w3 cts k' fs] call r(1-5) f w3 s1 by simp
  qed
qed

section \<open>Receiving\<close>

lemma open_shorter:
  assumes "aead_laws lib"
  shows "SessionKeys_open lib k ct = (Inr p, k') \<Longrightarrow> length p < length ct \<and> tx k' = tx k"
  using aes_encrypt_length [OF assms] assms
  by (fastforce simp: SessionKeys_open_Inr_iff Direction_open_Inr_iff aead_laws_def)

lemma run_open_tx: "run_rec (SessionKeys_open lib) k cts = (Inr ps, k') \<Longrightarrow> tx k' = tx k"
proof (induction cts arbitrary: k ps)
  case (Cons ct cts)
  from Cons.prems obtain p k1 ps' where "SessionKeys_open lib k ct = (Inr p, k1)" "run_rec (SessionKeys_open lib) k1 cts = (Inr ps', k')"
    by (auto simp only: run_rec_Cons_Inr)
  with Cons.IH show ?case by (auto simp: SessionKeys_open_Inr_iff)
qed simp

text \<open>Draining a receive buffer that ends inside a frame: the complete records are opened, in order.\<close>

lemma drain_partial:
  assumes "aead_laws lib"
  shows "data_frames (CipherSuite_id (policy_suite st)) cts fs \<Longrightarrow> phase st = Active k \<Longrightarrow>
    run_rec (SessionKeys_open lib) k cts = (Inr ps, k') \<Longrightarrow> rx_wire st @ y = concat fs \<Longrightarrow>
    length (rx_plain st) + length (rx_wire st) \<le> MAX_PLAIN_RX_BUFFER \<Longrightarrow>
    \<exists>n k1 rest. drain_records lib st m =
        (Inr (), st\<lparr>rx_wire := rest, phase := Active k1, rx_plain := rx_plain st @ concat (take n ps)\<rparr>, m) \<and>
      run_rec (SessionKeys_open lib) k1 (drop n cts) = (Inr (drop n ps), k') \<and> rest @ y = concat (drop n fs) \<and>
      (n = 0 \<longrightarrow> k1 = k) \<and> n \<le> length fs \<and> (\<forall>f \<in> set (take 1 (drop n fs)). length rest < length f)"
proof (induction cts arbitrary: fs st k ps)
  case Nil
  then have "st\<lparr>rx_wire := [], phase := Active k, rx_plain := rx_plain st @ concat []\<rparr> = st" "rx_wire st = []" "y = []" "fs = []" "ps = []" "k' = k"
    by (auto simp: data_frames_def)
  then show ?case by (intro exI [of _ 0] exI [of _ k] exI [of _ "[]"]) (simp add: drain_records.simps [of lib st])
next
  case (Cons ct cts)
  from Cons.prems(1) obtain f fs' where f: "fs = f # fs'" "frame (CipherSuite_id (policy_suite st)) TYPE_DATA ct = Inr f"
    "data_frames (CipherSuite_id (policy_suite st)) cts fs'" by (auto simp: data_frames_def list_all2_Cons1)
  show ?case
  proof (cases "length (rx_wire st) < length f")
    case True
    let ?z = "drop (length (rx_wire st)) f"
    have "take (length (rx_wire st)) (rx_wire st @ y) = take (length (rx_wire st)) (f @ concat fs')"
      using Cons.prems(4) f(1) by simp
    then have "rx_wire st = take (length (rx_wire st)) f" using True by simp
    then have "f = rx_wire st @ ?z" by (metis append_take_drop_id)
    with try_pop_frame_partial [of "CipherSuite_id (policy_suite st)" TYPE_DATA ct "rx_wire st" ?z] f(2) True
    have "try_pop_frame (rx_wire st) = (Inr None, rx_wire st)" by simp
    then have "drain_records lib st m = (Inr (), st, m)" by (subst drain_records.simps) simp
    moreover have "st\<lparr>rx_wire := rx_wire st, phase := Active k, rx_plain := rx_plain st @ concat (take 0 ps)\<rparr> = st"
      using Cons.prems(2) by (cases st) simp
    ultimately show ?thesis using Cons.prems(3,4) f(1) True by (intro exI [of _ 0] exI [of _ k] exI [of _ "rx_wire st"]) simp
  next
    case False
    define x where "x = drop (length f) (rx_wire st)"
    have "take (length f) (rx_wire st @ y) = f" using Cons.prems(4) f(1) by simp
    then have x: "rx_wire st = f @ x" using False unfolding x_def by (metis append_take_drop_id linorder_not_less take_append diff_is_0_eq' take_0 append_Nil2)
    from Cons.prems(3) obtain p k1 ps' where o: "SessionKeys_open lib k ct = (Inr p, k1)"
      "run_rec (SessionKeys_open lib) k1 cts = (Inr ps', k')" "ps = p # ps'" by (auto simp only: run_rec_Cons_Inr)
    have len: "length p < length f" using open_shorter [OF assms o(1)] frame_length [OF f(2)] by simp
    let ?st = "st\<lparr>rx_wire := x, phase := Active k1, rx_plain := rx_plain st @ p\<rparr>"
    have "append_rx_plain p (st\<lparr>rx_wire := x, phase := Active k1\<rparr>) = (Inr (), ?st)"
      using rxp.append_fits [of "st\<lparr>rx_wire := x, phase := Active k1\<rparr>" p] Cons.prems(5) x len by simp
    then have "drain_records lib st m = drain_records lib ?st m"
      using try_pop_frame_frame [OF f(2), of x] x o(1) Cons.prems(2) by (simp add: drain_records.simps [of lib st])
    moreover have "x @ y = concat fs'" using Cons.prems(4) f(1) x by simp
    then obtain n k2 rest where "drain_records lib ?st m =
        (Inr (), ?st\<lparr>rx_wire := rest, phase := Active k2, rx_plain := rx_plain ?st @ concat (take n ps')\<rparr>, m)"
      "run_rec (SessionKeys_open lib) k2 (drop n cts) = (Inr (drop n ps'), k')" "rest @ y = concat (drop n fs')"
      "n \<le> length fs'" "\<forall>f \<in> set (take 1 (drop n fs')). length rest < length f"
      using Cons.IH [of ?st fs' k1 ps'] f(3) o(2) Cons.prems(5) x len by auto
    ultimately show ?thesis using f(1) o(3)
      by (intro exI [of _ "Suc n"] exI [of _ k2] exI [of _ rest]) simp
  qed
qed

text \<open>The byte string \<open>wire\<close> is \<open>bs\<close> sealed in records, for a receiver that has keys \<open>k\<close> and will have keys \<open>k'\<close>.\<close>

definition sealed :: "crypto_lib \<Rightarrow> CipherSuite \<Rightarrow> SessionKeys \<Rightarrow> SessionKeys \<Rightarrow> bytes \<Rightarrow> bytes \<Rightarrow> bool" where
  "sealed lib suite k k' wire bs \<longleftrightarrow>
     (\<exists>cts fs ps. data_frames (CipherSuite_id suite) cts fs \<and> (\<forall>f \<in> set fs. length f \<le> record_frame_max) \<and>
        wire = concat fs \<and> run_rec (SessionKeys_open lib) k cts = (Inr ps, k') \<and> [] \<notin> set ps \<and> bs = concat ps)"

text \<open>The bytes \<open>bs\<close> are still to be handed to the application: the head of them is decrypted already, the
  rest is sealed in records that are in the receive buffer or under way. \<open>k'\<close> are the keys after all
  of them.\<close>

definition pending :: "crypto_lib \<Rightarrow> int \<Rightarrow> u64 \<Rightarrow> CipherSuite \<Rightarrow> ('os \<Rightarrow> bytes) \<Rightarrow> SessionKeys \<Rightarrow> bytes \<Rightarrow> 'os io \<Rightarrow> bool" where
  "pending lib pid epoch suite inp k' bs w \<longleftrightarrow>
     own pid epoch (io_st w) \<and> policy_suite (io_st w) = suite \<and> tx_backlog (io_st w) = [] \<and>
     length (rx_wire (io_st w)) \<le> record_frame_max + 8192 \<and>
     (\<exists>k qs. phase (io_st w) = Active k \<and> sealed lib suite k k' (rx_wire (io_st w) @ inp (io_os w)) qs \<and>
        bs = rx_plain (io_st w) @ qs)"

lemma recv_decrypted:
  assumes "pending lib pid epoch suite inp k' bs w" "rx_plain (io_st w) \<noteq> []" "0 < len"
  shows "\<exists>n w'. iterate (recv_step lib ops fd len 0 False) w = Some (Ret (int n, take n bs), w') \<and> 0 < n \<and> n \<le> length bs \<and>
    pending lib pid epoch suite inp k' (drop n bs) w' \<and> io_os w' = io_os w"
proof -
  define n where "n = min len (length (rx_plain (io_st w)))"
  let ?w = "w\<lparr>io_st := (io_st w)\<lparr>rx_plain := drop n (rx_plain (io_st w))\<rparr>\<rparr>"
  from assms(1) obtain qs where bs: "bs = rx_plain (io_st w) @ qs" by (auto simp: pending_def)
  have n: "0 < n" "n \<le> length (rx_plain (io_st w))" using assms(2,3) by (auto simp: n_def)
  have "recv_step lib ops fd len 0 False w = Inl (Ret (int n, take n bs), ?w)"
    using assms(2) n bs by (simp add: recv_step_def copy_plaintext_to_app_def Let_def flip: n_def)
  then have "iterate (recv_step lib ops fd len 0 False) w = Some (Ret (int n, take n bs), ?w)" by (rule iterate_leaves)
  moreover have "pending lib pid epoch suite inp k' (drop n bs) ?w" using assms(1) n(2) by (auto simp: pending_def)
  ultimately show ?thesis using bs n by (intro exI [of _ n] exI [of _ ?w] conjI) simp_all
qed

lemma drain_pending:
  assumes aead: "aead_laws lib" and "pending lib pid epoch suite inp k' bs w" and plain: "rx_plain (io_st w) = []"
  obtains st where "drain_records lib (io_st w) (io_metrics w) = (Inr (), st, io_metrics w)"
    "pending lib pid epoch suite inp k' bs (w\<lparr>io_st := st\<rparr>)" "is_Active (phase st)"
    "rx_plain st = [] \<longrightarrow> st = io_st w \<and> length (rx_wire st) < record_frame_max \<and> (bs = [] \<longleftrightarrow> inp (io_os w) = [])"
proof -
  from assms(2) obtain k cts fs ps where st: "own pid epoch (io_st w)" "policy_suite (io_st w) = suite" "tx_backlog (io_st w) = []"
      "length (rx_wire (io_st w)) \<le> record_frame_max + 8192"
    and k: "phase (io_st w) = Active k" "data_frames (CipherSuite_id suite) cts fs" "\<forall>f \<in> set fs. length f \<le> record_frame_max"
      "rx_wire (io_st w) @ inp (io_os w) = concat fs" "run_rec (SessionKeys_open lib) k cts = (Inr ps, k')" "[] \<notin> set ps"
      "bs = concat ps" using plain by (auto simp: pending_def sealed_def)
  have fits: "length (rx_plain (io_st w)) + length (rx_wire (io_st w)) \<le> MAX_PLAIN_RX_BUFFER"
    using st(4) plain by (simp add: wire_consts)
  obtain n k1 rest where
    d: "drain_records lib (io_st w) (io_metrics w) =
        (Inr (), (io_st w)\<lparr>rx_wire := rest, phase := Active k1, rx_plain := concat (take n ps)\<rparr>, io_metrics w)"
      "run_rec (SessionKeys_open lib) k1 (drop n cts) = (Inr (drop n ps), k')" "rest @ inp (io_os w) = concat (drop n fs)"
      "n = 0 \<longrightarrow> k1 = k" "n \<le> length fs" "\<forall>f \<in> set (take 1 (drop n fs)). length rest < length f"
    using drain_partial [OF aead k(2) [folded st(2)] k(1,5,4) fits, of "io_metrics w"] plain by auto
  let ?st = "(io_st w)\<lparr>rx_wire := rest, phase := Active k1, rx_plain := concat (take n ps)\<rparr>"
  have big: "length rest < record_frame_max"
  proof (cases "drop n fs")
    case (Cons f l)
    then have "f \<in> set fs" by (metis in_set_dropD list.set_intros(1))
    then show ?thesis using d(6) k(3) Cons by fastforce
  qed (use d(3) in simp)
  have "data_frames (CipherSuite_id suite) (drop n cts) (drop n fs)" using k(2) by (simp add: data_frames_def list_all2_dropI)
  moreover have "\<forall>f \<in> set (drop n fs). length f \<le> record_frame_max" "[] \<notin> set (drop n ps)" using k(3,6) by (auto dest: in_set_dropD)
  moreover have "bs = concat (take n ps) @ concat (drop n ps)" using k(7) by (simp flip: concat_append)
  ultimately have p: "pending lib pid epoch suite inp k' bs (w\<lparr>io_st := ?st\<rparr>)"
    unfolding pending_def sealed_def using st d(2,3) big
    by (intro conjI exI [of _ k1] exI [of _ "concat (drop n ps)"] exI [of _ "drop n cts"] exI [of _ "drop n fs"] exI [of _ "drop n ps"]) simp_all
  have len: "length ps = length fs" using run_rec_length [OF k(5)] k(2) by (simp add: data_frames_def list_all2_lengthD)
  have "?st = io_st w \<and> length (rx_wire ?st) < record_frame_max \<and> (bs = [] \<longleftrightarrow> inp (io_os w) = [])" if e: "rx_plain ?st = []"
  proof -
    have "take n ps = []" using e k(6) set_take_subset [of n ps] by (cases "take n ps") auto
    then have n: "n = 0" using d(5) len by auto
    then have "rest @ inp (io_os w) = rx_wire (io_st w) @ inp (io_os w)" using d(3) k(4) by simp
    then have "rest = rx_wire (io_st w)" by (simp only: append_same_eq)
    moreover have "bs = [] \<longleftrightarrow> fs = []" using k(6,7) len by (cases ps) auto
    then have "bs = [] \<longleftrightarrow> inp (io_os w) = []" using d(3,6) n by (cases fs) (auto dest: arg_cong [of _ _ length])
    ultimately show ?thesis using n d(4) k(1) plain big by (cases "io_st w") simp
  qed
  then have "rx_plain ?st = [] \<longrightarrow> ?st = io_st w \<and> length (rx_wire ?st) < record_frame_max \<and> (bs = [] \<longleftrightarrow> inp (io_os w) = [])"
    by (rule impI)
  from that [OF d(1) p _ this] show thesis by simp
qed

lemma recv_some:
  assumes ep: "endpoint P ops fd out inp" and aead: "aead_laws lib" and "0 < len" "bs \<noteq> []"
    and "pending lib pid epoch suite inp k' bs w"
  shows "\<exists>n w'. iterate (recv_step lib ops fd len 0 False) w = Some (Ret (int n, take n bs), w') \<and> 0 < n \<and> n \<le> length bs \<and>
    pending lib pid epoch suite inp k' (drop n bs) w' \<and> out (io_os w') = out (io_os w)"
  using assms(5)
proof (induction "length (inp (io_os w))" arbitrary: w rule: less_induct)
  case less
  show ?case
  proof (cases "rx_plain (io_st w) = []")
    case False
    from recv_decrypted [OF less.prems this assms(3), of ops fd] show ?thesis by auto
  next
    case True
    have act: "is_Active (phase (io_st w))" using less.prems by (auto simp: pending_def)
    obtain st where
      d: "drain_records lib (io_st w) (io_metrics w) = (Inr (), st, io_metrics w)"
        "pending lib pid epoch suite inp k' bs (w\<lparr>io_st := st\<rparr>)" "is_Active (phase st)"
      and dry: "rx_plain st = [] \<longrightarrow> st = io_st w \<and> length (rx_wire st) < record_frame_max \<and> (bs = [] \<longleftrightarrow> inp (io_os w) = [])"
      by (rule drain_pending [OF aead less.prems True])
    have f: "phase (io_st w) \<noteq> Failed" using act by auto
    have same: "w\<lparr>io_st := st, io_metrics := io_metrics w\<rparr> = w\<lparr>io_st := st\<rparr>" by simp
    show ?thesis
    proof (cases "rx_plain st = []")
      case False
      then have "recv_step lib ops fd len 0 False w = Inr (w\<lparr>io_st := st\<rparr>)"
        using True act f d(1) by (simp add: recv_step_def)
      with recv_decrypted [OF d(2) _ assms(3), of ops fd] False show ?thesis by (auto simp: iterate_again)
    next
      case dry': True
      note st = dry [rule_format, OF dry']
      have "length (rx_wire (io_st w)) + 8192 \<le> MAX_WIRE_RX_BUFFER" "inp (io_os w) \<noteq> []" using st assms(4) by (auto simp: wire_consts)
      from link_pull(2) [OF ep this(2,1)] obtain n os' where
        n: "0 < n" "n \<le> 8192" "n \<le> length (inp (io_os w))" and pull: "pull_wire ops fd 0 w = (Ret (Inr (int n)),
            w\<lparr>io_st := (io_st w)\<lparr>rx_wire := rx_wire (io_st w) @ take n (inp (io_os w))\<rparr>, io_os := os'\<rparr>)"
        and os': "out os' = out (io_os w)" "inp os' = drop n (inp (io_os w))" by blast
      let ?w = "w\<lparr>io_st := (io_st w)\<lparr>rx_wire := rx_wire (io_st w) @ take n (inp (io_os w))\<rparr>, io_os := os'\<rparr>"
      have "recv_step lib ops fd len 0 False w = Inr ?w"
        using True act f d(1) dry' pull n(1) st by (simp add: recv_step_def recv_pull_def)
      moreover have "pending lib pid epoch suite inp k' bs ?w"
        using less.prems st n(2) os'(2) unfolding pending_def by auto
      with less.hyps [of ?w] n os' have "\<exists>n w'. iterate (recv_step lib ops fd len 0 False) ?w = Some (Ret (int n, take n bs), w') \<and> 0 < n \<and>
          n \<le> length bs \<and> pending lib pid epoch suite inp k' (drop n bs) w' \<and> out (io_os w') = out (io_os ?w)" by simp
      ultimately show ?thesis using os'(1) by (simp add: iterate_again)
    qed
  qed
qed

lemma recv_none:
  assumes ep: "endpoint P ops fd out inp" and aead: "aead_laws lib" and p: "pending lib pid epoch suite inp k' [] w"
  shows "\<exists>w'. iterate (recv_step lib ops fd len 0 False) w = Some (Ret (- 1, []), w') \<and> io_errno w' = EAGAIN \<and>
    pending lib pid epoch suite inp k' [] w' \<and> out (io_os w') = out (io_os w)"
proof -
  have plain: "rx_plain (io_st w) = []" and act: "is_Active (phase (io_st w))" using p by (auto simp: pending_def)
  obtain st where d: "drain_records lib (io_st w) (io_metrics w) = (Inr (), st, io_metrics w)"
      "pending lib pid epoch suite inp k' [] (w\<lparr>io_st := st\<rparr>)" "is_Active (phase st)"
      "rx_plain st = [] \<longrightarrow> st = io_st w \<and> length (rx_wire st) < record_frame_max \<and> (([] :: bytes) = [] \<longleftrightarrow> inp (io_os w) = [])"
    by (rule drain_pending [OF aead p plain])
  from d(2) have "rx_plain st = []" by (auto simp: pending_def)
  with d(4) have st: "st = io_st w" "inp (io_os w) = []" by simp_all
  from recv_dry [OF ep plain _ act plain st(2), of lib len] act d(1) st(1) obtain os' where
    s: "recv_step lib ops fd len 0 False w = Inl (Ret (- 1, []), w\<lparr>io_errno := EAGAIN, io_os := os'\<rparr>)"
    and os': "out os' = out (io_os w)" "inp os' = []" by auto
  from s have "iterate (recv_step lib ops fd len 0 False) w = Some (Ret (- 1, []), w\<lparr>io_errno := EAGAIN, io_os := os'\<rparr>)"
    by (rule iterate_leaves)
  moreover have "pending lib pid epoch suite inp k' [] (w\<lparr>io_errno := EAGAIN, io_os := os'\<rparr>)"
    using p st(2) os'(2) by (auto simp: pending_def)
  ultimately show ?thesis using os'(1) by (intro exI [of _ "w\<lparr>io_errno := EAGAIN, io_os := os'\<rparr>"]) simp
qed

text \<open>An application that calls \<open>recv\<close> with a buffer of each of the given lengths in turn, and what it gets.\<close>

fun recv_calls :: "crypto_lib \<Rightarrow> 'os os_ops \<Rightarrow> int \<Rightarrow> nat list \<Rightarrow> 'os io \<Rightarrow> (bytes \<times> 'os io) option" where
  "recv_calls lib ops fd [] w = Some ([], w)"
| "recv_calls lib ops fd (len # lens) w =
     (case overlay_recv_locked lib ops fd len 0 w of
        Some (Ret (n, bs), w1) \<Rightarrow> map_option (\<lambda>(bs', w2). (bs @ bs', w2)) (recv_calls lib ops fd lens w1)
      | _ \<Rightarrow> None)"

lemma link_recv_calls:
  assumes ep: "endpoint (node pid epoch i) ops fd out inp" and aead: "aead_laws lib"
  shows "pending lib pid epoch suite inp k' bs w \<Longrightarrow> \<forall>len \<in> set lens. 0 < len \<Longrightarrow>
    \<exists>n w'. recv_calls lib ops fd lens w = Some (take n bs, w') \<and> n \<le> length bs \<and> min (length lens) (length bs) \<le> n \<and>
      pending lib pid epoch suite inp k' (drop n bs) w' \<and> out (io_os w') = out (io_os w)"
proof (induction lens arbitrary: bs w)
  case Nil
  then show ?case by (intro exI [of _ 0] exI [of _ w]) simp
next
  case (Cons len lens)
  have own: "own pid epoch (io_st w)" using Cons.prems(1) by (simp add: pending_def)
  have call: "overlay_recv_locked lib ops fd len 0 w = iterate (recv_step lib ops fd len 0 False) w"
    using own_admitted [OF ep own] by (simp add: overlay_recv_locked_def)
  obtain r n1 w1 where c: "iterate (recv_step lib ops fd len 0 False) w = Some (Ret (r, take n1 bs), w1)" "n1 \<le> length bs"
    "bs \<noteq> [] \<longrightarrow> 0 < n1" "pending lib pid epoch suite inp k' (drop n1 bs) w1" "out (io_os w1) = out (io_os w)"
  proof (cases "bs = []")
    case True
    with recv_none [OF ep aead, of pid epoch suite k' w len] Cons.prems(1) that [of "- 1" 0] show thesis by auto
  next
    case False
    from recv_some [OF ep aead _ False Cons.prems(1), of len] Cons.prems(2) that False show thesis by auto
  qed
  from Cons.IH [OF c(4)] Cons.prems(2) obtain n2 w2 where
    r: "recv_calls lib ops fd lens w1 = Some (take n2 (drop n1 bs), w2)" "n2 \<le> length bs - n1"
      "min (length lens) (length bs - n1) \<le> n2" "pending lib pid epoch suite inp k' (drop (n1 + n2) bs) w2" "out (io_os w2) = out (io_os w1)"
    by (auto simp: add.commute)
  then show ?case using call c by (intro exI [of _ "n1 + n2"] exI [of _ w2]) (auto simp: take_add)
qed

lemma pending_done:
  assumes "pending lib pid epoch suite inp k' [] w"
  shows "rests pid epoch suite (io_st w)" and "phase (io_st w) = Active k'" and "inp (io_os w) = []"
proof -
  from assms obtain k cts fs ps where s: "phase (io_st w) = Active k" "data_frames (CipherSuite_id suite) cts fs"
      "rx_wire (io_st w) @ inp (io_os w) = concat fs" "run_rec (SessionKeys_open lib) k cts = (Inr ps, k')" "[] \<notin> set ps" "[] = rx_plain (io_st w) @ concat ps"
    unfolding pending_def sealed_def by blast
  then have "ps = []" by (cases ps) auto
  with run_rec_length [OF s(4)] s(2-4) have "rx_wire (io_st w) = []" "inp (io_os w) = []" "k' = k" by (auto simp: data_frames_def)
  with assms s(1) show "rests pid epoch suite (io_st w)" "phase (io_st w) = Active k'" "inp (io_os w) = []"
    by (auto simp: rests_def pending_def)
qed

lemma record_chunks_nonempty: "[] \<notin> set (record_chunks pt)"
  by (induction pt rule: record_chunks.induct) (subst record_chunks.simps, auto simp: MAX_RECORD_PLAINTEXT_def)

lemma length_record_chunks: "length (record_chunks pt) \<le> length pt"
proof (induction pt rule: record_chunks.induct)
  case (1 pt)
  then show ?case by (cases "pt = []") (auto simp: record_chunks.simps [of pt] record_chunks.simps [of "[]"] MAX_RECORD_PLAINTEXT_def neq_Nil_conv)
qed

section \<open>A conversation\<close>

text \<open>What one side has sent is what the other has still to receive.\<close>

lemma sent_is_pending:
  assumes "run_rec (SessionKeys_seal lib) ka (record_chunks pt) = (Inr cts, ka')" "data_frames (CipherSuite_id suite) cts fs"
    "\<forall>f \<in> set fs. length f \<le> record_frame_max" "in_sync lib ka kb"
    and "rests pid epoch suite (io_st w)" "phase (io_st w) = Active kb" "inp (io_os w) = concat fs"
  obtains kb' where "pending lib pid epoch suite inp kb' pt w" "in_sync lib ka' kb'" "tx kb' = tx kb"
proof -
  from sess.stream_delivered [OF assms(4,1)] obtain kb' where
    o: "run_rec (SessionKeys_open lib) kb cts = (Inr (record_chunks pt), kb')" "in_sync lib ka' kb'" by blast
  have "sealed lib suite kb kb' (concat fs) pt" unfolding sealed_def using assms(2,3) o(1)
    by (intro exI [of _ cts] exI [of _ fs] exI [of _ "record_chunks pt"]) (simp add: record_chunks_nonempty concat_record_chunks)
  then have "pending lib pid epoch suite inp kb' pt w" using assms(5-7) by (auto simp: pending_def rests_def)
  then show thesis using that o(2) run_open_tx [OF o(1)] by blast
qed

lemma idle_ready:
  assumes "endpoint P ops fd out inp" "rests pid epoch suite (io_st w)" "phase (io_st w) = Active k"
  shows "drive_until_active_for_write lib ops fd 0 False w = Some (Ret (Inr ()), w)"
proof -
  have "write_step lib ops fd 0 False w = Inl (Ret (Inr ()), w)" using assms(3) by (simp add: write_step_def)
  then show ?thesis using assms(2) by (simp add: drive_until_active_for_write_def no_backlog rests_def iterate_leaves)
qed

text \<open>The first call of a connecting session sends its hello and would block.\<close>

lemma first_send:
  assumes ep: "endpoint (node pid epoch a) ops fd out inp" and own: "own pid epoch (io_st w)"
    and "phase (io_st w) = InitiatorAwaitingServerHello h" "inp (io_os w) = []"
  obtains w' where "overlay_send_locked lib ops fd pt 0 w = Some (Ret (- 1), w')" "io_errno w' = EAGAIN"
    "io_st w' = (io_st w)\<lparr>tx_backlog := []\<rparr>" "out (io_os w') = out (io_os w) @ tx_backlog (io_st w)" "inp (io_os w') = []"
proof -
  from link_flush [OF ep, of w] assms(4) obtain w1 where
    fl: "flush_backlog ops fd 0 w = (Ret (Inr True), w1)" and w1: "io_st w1 = (io_st w)\<lparr>tx_backlog := []\<rparr>"
      "out (io_os w1) = out (io_os w) @ tx_backlog (io_st w)" "inp (io_os w1) = []" by auto
  from link_pull(1) [OF ep w1(3)] obtain os2 where
    pull: "pull_wire ops fd 0 w1 = (Ret (Inr (- 1)), w1\<lparr>io_errno := EAGAIN, io_os := os2\<rparr>)"
    and os2: "out os2 = out (io_os w1)" "inp os2 = []" by auto
  let ?w = "w1\<lparr>io_errno := EAGAIN, io_os := os2\<rparr>"
  have "write_step lib ops fd 0 False w1 = Inl (Ret (Inl EAGAIN), ?w)" using assms(3) w1(1) pull by (simp add: write_step_def)
  then have "iterate (write_step lib ops fd 0 False) w1 = Some (Ret (Inl EAGAIN), ?w)" by (rule iterate_leaves)
  then have "overlay_send_locked lib ops fd pt 0 w = Some (Ret (- 1), ?w\<lparr>io_errno := EAGAIN\<rparr>)"
    by (simp add: overlay_send_locked_def own_admitted [OF ep own] drive_until_active_for_write_def fl)
  from that [OF this] w1 os2 show thesis by simp
qed

text \<open>The first call of the accepting side answers the hello and would block; after that the connecting
  side finds itself connected.\<close>

lemma nodes_meet:
  assumes "mutual lib a b" and epA: "endpoint (node pa ea a) opsA fdA ab ba" and epB: "endpoint (node pb eb b) opsB fdB ba ab"
    and "node pa ea a ca" "policy ca = Inr suite" "local_posture ca = FullPqc" "node pb eb b cb" "ab os = []" "ba os = []"
  obtains wa1 wb1 wa ka kb where
    "overlay_send_locked lib opsA fdA pt 0 \<lparr>io_st = initiator_state lib ca, io_metrics = ma, io_errno = 0, io_os = os\<rparr> = Some (Ret (- 1), wa1)"
    "io_errno wa1 = EAGAIN" "own pa ea (io_st wa1)"
    "overlay_recv_locked lib opsB fdB len 0 \<lparr>io_st = FdState_responder cb suite, io_metrics = mb, io_errno = 0, io_os = io_os wa1\<rparr> =
       Some (Ret (- 1, []), wb1)" "io_errno wb1 = EAGAIN" "rests pb eb suite (io_st wb1)" "phase (io_st wb1) = Active kb"
    "drive_until_active_for_write lib opsA fdA 0 False (wa1\<lparr>io_os := io_os wb1\<rparr>) = Some (Ret (Inr ()), wa)"
    "rests pa ea suite (io_st wa)" "phase (io_st wa) = Active ka" "fresh_mirror ka kb" "ab (io_os wa) = []" "ba (io_os wa) = []"
proof -
  obtain h ch f where ini: "initiator_state lib ca = FdState_initiator ca suite h f"
    and f: "frame (CipherSuite_id suite) TYPE_CLIENT_HELLO ch = Inr f" "length f \<le> 6963"
    and answer: "\<forall>cb r m. resolve_identity (ctx_config cb) = Inr b \<longrightarrow> phase r = ResponderAwaitingClientHello \<longrightarrow>
      policy_suite r = suite \<longrightarrow> rx_wire r = f \<longrightarrow> tx_backlog r = [] \<longrightarrow> (\<exists>g ks. finishes lib a suite h g ks \<and>
        drive_handshake lib cb r m = activate cb ks (r\<lparr>rx_wire := [], phase := Failed, tx_backlog := g\<rparr>) m)"
    by (rule hello_exchange [OF assms(1) _ assms(5,6)]) (use assms(4) in \<open>auto simp: node_def\<close>)
  let ?wa = "\<lparr>io_st = initiator_state lib ca, io_metrics = ma, io_errno = 0, io_os = os\<rparr>"
  have sa: "own pa ea (io_st ?wa)" "tx_backlog (io_st ?wa) = f" "phase (io_st ?wa) = InitiatorAwaitingServerHello h"
    "policy_suite (io_st ?wa) = suite" "rx_wire (io_st ?wa) = []" "rx_plain (io_st ?wa) = []"
    using assms(4) by (simp_all add: ini own_def node_def FdState_new_defs)
  obtain wa1 where call1: "overlay_send_locked lib opsA fdA pt 0 ?wa = Some (Ret (- 1), wa1)" and
    wa1: "io_errno wa1 = EAGAIN" "io_st wa1 = (io_st ?wa)\<lparr>tx_backlog := []\<rparr>" "ab (io_os wa1) = f" "ba (io_os wa1) = []"
    using first_send [OF epA sa(1,3), of lib pt] sa(2) assms(8,9) by auto
  let ?wb = "\<lparr>io_st = FdState_responder cb suite, io_metrics = mb, io_errno = 0, io_os = io_os wa1\<rparr>"
  have sb: "own pb eb (io_st ?wb)" using assms(7) by (simp add: own_def node_def FdState_new_defs)
  have "\<exists>g ks wb1. finishes lib a suite h g ks \<and> iterate (recv_step lib opsB fdB len 0 False) ?wb = Some (Ret (- 1, []), wb1) \<and>
      io_errno wb1 = EAGAIN \<and> phase (io_st wb1) = Active ks \<and> rests pb eb suite (io_st wb1) \<and>
      ba (io_os wb1) = ba (io_os ?wb) @ g \<and> ab (io_os wb1) = []"
    by (rule recv_hello [OF epB f]) (use answer sb wa1(3) in \<open>simp_all add: FdState_new_defs node_def\<close>)
  then obtain g kb wb1 where g: "finishes lib a suite h g kb"
    and wb1: "iterate (recv_step lib opsB fdB len 0 False) ?wb = Some (Ret (- 1, []), wb1)" "io_errno wb1 = EAGAIN"
      "phase (io_st wb1) = Active kb" "rests pb eb suite (io_st wb1)" "ba (io_os wb1) = g" "ab (io_os wb1) = []"
    using wa1(4) by auto
  have call2: "overlay_recv_locked lib opsB fdB len 0 ?wb = Some (Ret (- 1, []), wb1)"
    using wb1(1) by (simp add: overlay_recv_locked_def own_admitted [OF epB sb])
  let ?w = "wa1\<lparr>io_os := io_os wb1\<rparr>"
  from g obtain sh where sh: "frame (CipherSuite_id suite) TYPE_SERVER_HELLO sh = Inr g" "length g \<le> 6963" by (auto simp: finishes_def)
  have "g \<noteq> []" using frame_length [OF sh(1)] by auto
  then have "\<exists>k w'. fresh_mirror k kb \<and> iterate (write_step lib opsA fdA 0 False) ?w = Some (Ret (Inr ()), w') \<and>
      phase (io_st w') = Active k \<and> rests pa ea suite (io_st w') \<and> ab (io_os w') = ab (io_os ?w) \<and> ba (io_os w') = []"
    by (intro write_hello [OF epA sh, where h = h]) (use g sa wa1(2) wb1(5) in \<open>auto simp: node_def finishes_def\<close>)
  moreover have "flush_backlog opsA fdA 0 ?w = (Ret (Inr True), ?w)" using wa1(2) by (simp add: no_backlog)
  ultimately show thesis
    using that [OF call1 wa1(1) _ call2 wb1(2,4,3)] sa(1) wa1(2) wb1(6) by (auto simp: drive_until_active_for_write_def)
qed

lemma fresh_can_send:
  assumes "fresh_mirror ka kb" "length pt < 2 ^ 64"
  shows "can_send ka (length (record_chunks pt))" "can_send kb (length (record_chunks pt))"
  using assms length_record_chunks [of pt] by (auto simp: can_send_def fresh_mirror_def)


section \<open>A concrete link\<close>

text \<open>Two queues; a read returns at most seven bytes.\<close>

record toy_link =
  to_b :: bytes
  to_a :: bytes

definition toy_end :: "ctx \<Rightarrow> (toy_link \<Rightarrow> bytes) \<Rightarrow> (bytes \<Rightarrow> toy_link \<Rightarrow> toy_link) \<Rightarrow> (toy_link \<Rightarrow> bytes) \<Rightarrow>
     (bytes \<Rightarrow> toy_link \<Rightarrow> toy_link) \<Rightarrow> toy_link os_ops" where
  "toy_end c out put inp take_in =
     \<lparr>env = (\<lambda>_. c), sys_send = (\<lambda>fd bs fl os. (SysOk (length bs), put (out os @ bs) os)),
      sys_recv = (\<lambda>fd len fl os. if inp os = [] then (RecvErr EAGAIN, os)
         else let n = min 7 (min len (length (inp os))) in (RecvOk (take n (inp os)), take_in (drop n (inp os)) os)),
      sys_getfl = (\<lambda>fd os. SysOk O_NONBLOCK), sys_so_type = (\<lambda>fd os. SysOk SOCK_STREAM)\<rparr>"

abbreviation toy_a :: "toy_link os_ops" where
  "toy_a \<equiv> toy_end (toy_ctx (toy_id 1 2) False) to_b (\<lambda>b. to_b_update (\<lambda>_. b)) to_a (\<lambda>b. to_a_update (\<lambda>_. b))"

abbreviation toy_b :: "toy_link os_ops" where
  "toy_b \<equiv> toy_end (toy_ctx (toy_id 2 1) False) to_a (\<lambda>b. to_a_update (\<lambda>_. b)) to_b (\<lambda>b. to_b_update (\<lambda>_. b))"

lemma toy_end_endpoint:
  assumes "P c" and "\<And>b os. out (put b os) = b \<and> inp (put b os) = inp os" and "\<And>b os. inp (take_in b os) = b \<and> out (take_in b os) = out os"
  shows "endpoint P (toy_end c out put inp take_in) fd out inp"
proof -
  have "\<exists>n os'. sys_recv (toy_end c out put inp take_in) fd len 0 os = (RecvOk (take n (inp os)), os') \<and>
      0 < n \<and> n \<le> len \<and> n \<le> length (inp os) \<and> out os' = out os \<and> inp os' = drop n (inp os)" if "0 < len" "inp os \<noteq> []" for len os
    using that assms(3) by (intro exI [of _ "min 7 (min len (length (inp os)))"])
      (auto simp: toy_end_def Let_def)
  then show ?thesis unfolding endpoint_def using assms(1,2) by (auto simp: toy_end_def O_NONBLOCK_def)
qed

lemma toy_nodes: "node 7 1 i (toy_ctx i False)"
  by (simp add: node_def toy_ctx_def current_pid_def current_config_epoch_def resolve_identity_def)


end
