(* ===== verification/Iovec.thy ===== *)
theory Iovec
  imports Wire_Io
begin

text \<open>
  Scatter/gather of application memory (\<open>input_slice\<close>, \<open>iov_total\<close>, \<open>gather_iov\<close> and
  \<open>scatter_iov\<close> of \<open>src/interceptor.rs\<close>). Memory is a map from addresses to bytes, a null pointer
  is \<open>None\<close>, and an iovec array is the list of its entries. The caller's contract, that non-null
  pointers are valid, is what lets a slice be read.
\<close>

type_synonym mem = "nat \<Rightarrow> u8"
type_synonym ptr = "nat option"

record iovec =
  iov_base :: ptr
  iov_len :: nat

definition mem_slice :: "mem \<Rightarrow> nat \<Rightarrow> nat \<Rightarrow> bytes" where
  "mem_slice mem a n = map mem [a..<a + n]"

fun mem_store :: "nat \<Rightarrow> bytes \<Rightarrow> mem \<Rightarrow> mem" where
  "mem_store a [] mem = mem"
| "mem_store a (b # bs) mem = mem_store (a + 1) bs (mem(a := b))"

section \<open>Operations\<close>

definition input_slice :: "mem \<Rightarrow> ptr \<Rightarrow> nat \<Rightarrow> int + bytes" where
  "input_slice mem buf len =
     (if len = 0 then Inr []
      else case buf of None \<Rightarrow> Inl EFAULT | Some a \<Rightarrow> Inr (mem_slice mem a len))"

text \<open>The accumulation loop: 64-bit \<open>checked_add\<close>, then the copy limit.\<close>

fun iov_sum :: "iovec list \<Rightarrow> nat \<Rightarrow> int + nat" where
  "iov_sum [] tot = Inr tot"
| "iov_sum (item # iovs) tot =
     (if tot + iov_len item \<ge> 2 ^ 64 then Inl EMSGSIZE
      else if tot + iov_len item > MAX_IOV_COPY then Inl EMSGSIZE
      else iov_sum iovs (tot + iov_len item))"

definition iov_total :: "iovec list option \<Rightarrow> nat \<Rightarrow> int + nat" where
  "iov_total iov iovcnt =
     (if iovcnt = 0 then Inr 0
      else case iov of None \<Rightarrow> Inl EFAULT | Some iovs \<Rightarrow> iov_sum (take iovcnt iovs) 0)"

fun gather_items :: "mem \<Rightarrow> iovec list \<Rightarrow> int + bytes" where
  "gather_items mem [] = Inr []"
| "gather_items mem (item # iovs) =
     (case iov_base item of
        None \<Rightarrow> if iov_len item > 0 then Inl EFAULT else gather_items mem iovs
      | Some a \<Rightarrow> rbind (gather_items mem iovs) (\<lambda>rest. Inr (mem_slice mem a (iov_len item) @ rest)))"

definition gather_iov :: "mem \<Rightarrow> iovec list option \<Rightarrow> nat \<Rightarrow> int + bytes" where
  "gather_iov mem iov iovcnt =
     rbind (iov_total iov iovcnt) (\<lambda>_.
       gather_items mem (if iovcnt = 0 then [] else take iovcnt (the iov)))"

text \<open>The copy loop; what was copied before a bad entry stays copied.\<close>

fun scatter_items :: "iovec list \<Rightarrow> bytes \<Rightarrow> mem \<Rightarrow> (int + unit) \<times> mem" where
  "scatter_items [] data mem = (Inr (), mem)"
| "scatter_items (item # iovs) data mem =
     (if data = [] then (Inr (), mem)
      else case iov_base item of
        None \<Rightarrow> if iov_len item > 0 then (Inl EFAULT, mem) else scatter_items iovs data mem
      | Some a \<Rightarrow>
          (let amt = min (iov_len item) (length data)
           in scatter_items iovs (drop amt data) (mem_store a (take amt data) mem)))"

definition scatter_iov :: "iovec list option \<Rightarrow> nat \<Rightarrow> bytes \<Rightarrow> mem \<Rightarrow> (int + unit) \<times> mem" where
  "scatter_iov iov iovcnt data mem =
     (if data = [] then (Inr (), mem)
      else case iov of None \<Rightarrow> (Inl EFAULT, mem) | Some iovs \<Rightarrow> scatter_items (take iovcnt iovs) data mem)"

section \<open>Correctness\<close>

text \<open>The addresses an iovec array covers, in order.\<close>

fun iov_addrs :: "iovec list \<Rightarrow> nat list" where
  "iov_addrs [] = []"
| "iov_addrs (item # iovs) =
     (case iov_base item of None \<Rightarrow> [] | Some a \<Rightarrow> [a..<a + iov_len item]) @ iov_addrs iovs"

definition iov_valid :: "iovec list \<Rightarrow> bool" where
  "iov_valid iovs \<longleftrightarrow> (\<forall>item \<in> set iovs. iov_len item > 0 \<longrightarrow> iov_base item \<noteq> None)"

lemma iov_sum_iff:
  "t \<le> MAX_IOV_COPY \<Longrightarrow> iov_sum iovs t = Inr n \<longleftrightarrow>
     n = t + sum_list (map iov_len iovs) \<and> t + sum_list (map iov_len iovs) \<le> MAX_IOV_COPY"
proof (induction iovs arbitrary: t)
  case (Cons item iovs)
  have "MAX_IOV_COPY < 2 ^ 64" by (simp add: MAX_IOV_COPY_def)
  then show ?case using Cons.IH [of "t + iov_len item"] by (auto simp: not_less add.assoc)
qed auto

lemma gather_items_eq: "iov_valid iovs \<Longrightarrow> gather_items mem iovs = Inr (map mem (iov_addrs iovs))"
  by (induction iovs) (auto simp: iov_valid_def mem_slice_def split: option.split)

lemma mem_store_eq: "mem_store a bs mem x = (if a \<le> x \<and> x < a + length bs then bs ! (x - a) else mem x)"
  by (induction bs arbitrary: a mem) (auto simp: nth_Cons')

lemma mem_store_range:
  "length bs \<le> n \<Longrightarrow> map (mem_store a bs mem) [a..<a + n] = bs @ drop (length bs) (map mem [a..<a + n])"
  by (rule nth_equalityI) (auto simp: mem_store_eq nth_append)

lemma scatter_items_spec:
  assumes "iov_valid iovs" and "distinct (iov_addrs iovs)" and "length data \<le> length (iov_addrs iovs)"
  shows "\<exists>mem'. scatter_items iovs data mem = (Inr (), mem') \<and>
    map mem' (iov_addrs iovs) = data @ drop (length data) (map mem (iov_addrs iovs)) \<and>
    (\<forall>x. x \<notin> set (iov_addrs iovs) \<longrightarrow> mem' x = mem x)"
  using assms
proof (induction iovs arbitrary: data mem)
  case Nil
  then show ?case by simp
next
  case (Cons item iovs)
  have valid: "iov_valid iovs" using Cons.prems(1) by (simp add: iov_valid_def)
  show ?case
  proof (cases "data = []")
    case False
    show ?thesis
    proof (cases "iov_base item")
      case None
      with Cons.prems(1) have "iov_len item = 0" by (auto simp: iov_valid_def)
      with None False Cons.IH [OF valid, of data mem] Cons.prems show ?thesis by simp
    next
      case (Some a)
      define amt where "amt = min (iov_len item) (length data)"
      define mem1 where "mem1 = mem_store a (take amt data) mem"
      have len: "length (drop amt data) \<le> length (iov_addrs iovs)"
        using Cons.prems(3) Some by (auto simp: amt_def)
      have dis: "distinct (iov_addrs iovs)" "set [a..<a + iov_len item] \<inter> set (iov_addrs iovs) = {}"
        using Cons.prems(2) Some by auto
      from Cons.IH [OF valid dis(1) len, of mem1] obtain mem' where
        m: "scatter_items iovs (drop amt data) mem1 = (Inr (), mem')"
          "map mem' (iov_addrs iovs) = drop amt data @ drop (length (drop amt data)) (map mem1 (iov_addrs iovs))"
          "\<forall>x. x \<notin> set (iov_addrs iovs) \<longrightarrow> mem' x = mem1 x" by blast
      have out: "mem1 x = mem x" if "x \<notin> set [a..<a + iov_len item]" for x
        using that by (auto simp: mem1_def mem_store_eq amt_def)
      have "map mem' [a..<a + iov_len item] = map mem1 [a..<a + iov_len item]"
        using m(3) dis(2) by auto
      also have "\<dots> = take amt data @ drop amt (map mem [a..<a + iov_len item])"
        using mem_store_range [of "take amt data" "iov_len item" a mem] by (simp add: mem1_def amt_def)
      finally have here: "map mem' [a..<a + iov_len item] = take amt data @ drop amt (map mem [a..<a + iov_len item])" .
      have there: "map mem1 (iov_addrs iovs) = map mem (iov_addrs iovs)"
        using dis(2) by (intro map_cong refl out) blast
      have "map mem' (iov_addrs (item # iovs)) = data @ drop (length data) (map mem (iov_addrs (item # iovs)))"
      proof (cases "iov_len item \<le> length data")
        case True
        then have "take amt data @ drop amt data = data" "amt = iov_len item" by (simp_all add: amt_def)
        with here m(2) there Some True show ?thesis by simp
      next
        case False
        then have "amt = length data" by (simp add: amt_def)
        with here m(2) there Some False show ?thesis by simp
      qed
      moreover have "scatter_items (item # iovs) data mem = (Inr (), mem')"
        using m(1) Some False by (simp add: amt_def mem1_def Let_def)
      moreover have "\<forall>x. x \<notin> set (iov_addrs (item # iovs)) \<longrightarrow> mem' x = mem x"
        using m(3) out Some by auto
      ultimately show ?thesis by blast
    qed
  qed simp
qed

text \<open>Scatter and gather are inverse: writing received data through an array of non-overlapping,
  non-null segments that is large enough and within the copy limit succeeds; gathering the array
  afterwards yields the data followed by the old contents of the rest, and no byte outside the
  segments changes.\<close>

lemma scatter_gather:
  assumes "iov_valid iovs" and "distinct (iov_addrs iovs)" and "sum_list (map iov_len iovs) \<le> MAX_IOV_COPY"
    and "data \<noteq> []" and "length data \<le> length (iov_addrs iovs)"
  shows "\<exists>mem' old. scatter_iov (Some iovs) (length iovs) data mem = (Inr (), mem') \<and>
    gather_iov mem (Some iovs) (length iovs) = Inr old \<and>
    gather_iov mem' (Some iovs) (length iovs) = Inr (data @ drop (length data) old) \<and>
    (\<forall>x. x \<notin> set (iov_addrs iovs) \<longrightarrow> mem' x = mem x)"
proof -
  from scatter_items_spec [OF assms(1,2,5), of mem] obtain mem' where
    m: "scatter_items iovs data mem = (Inr (), mem')"
      "map mem' (iov_addrs iovs) = data @ drop (length data) (map mem (iov_addrs iovs))"
      "\<forall>x. x \<notin> set (iov_addrs iovs) \<longrightarrow> mem' x = mem x" by blast
  have ne: "iovs \<noteq> []" using assms(4,5) by auto
  have "iov_total (Some iovs) (length iovs) = Inr (sum_list (map iov_len iovs))"
    using iov_sum_iff [of 0 iovs] assms(3) ne by (simp add: iov_total_def)
  then have "gather_iov x (Some iovs) (length iovs) = Inr (map x (iov_addrs iovs))" for x
    using gather_items_eq [OF assms(1)] ne by (simp add: gather_iov_def)
  with m assms(4) show ?thesis by (simp add: scatter_iov_def)
qed

lemma scatter_gather_example:
  "\<exists>mem'. scatter_iov (Some [\<lparr>iov_base = Some 100, iov_len = 2\<rparr>, \<lparr>iov_base = None, iov_len = 0\<rparr>,
         \<lparr>iov_base = Some 7, iov_len = 3\<rparr>]) 3 [1, 2, 3] (\<lambda>_. 0) = (Inr (), mem') \<and>
     mem' 100 = 1 \<and> mem' 101 = 2 \<and> mem' 7 = 3 \<and> mem' 8 = 0"
proof -
  let ?iovs = "[\<lparr>iov_base = Some 100, iov_len = 2\<rparr>, \<lparr>iov_base = None, iov_len = 0\<rparr>,
      \<lparr>iov_base = Some (7 :: nat), iov_len = 3\<rparr>]"
  have a: "iov_addrs ?iovs = [100, 101, 7, 8, 9]" by (simp add: upt_rec)
  have "iov_valid ?iovs" by (simp add: iov_valid_def)
  moreover have "sum_list (map iov_len ?iovs) \<le> MAX_IOV_COPY" by (simp add: MAX_IOV_COPY_def)
  ultimately obtain mem' old where
    m: "scatter_iov (Some ?iovs) (length ?iovs) [1, 2, 3] (\<lambda>_. 0) = (Inr (), mem')"
      "gather_iov mem' (Some ?iovs) (length ?iovs) = Inr ([1, 2, 3] @ drop (length [1, 2, 3 :: u8]) old)"
      "gather_iov (\<lambda>_. 0) (Some ?iovs) (length ?iovs) = Inr old"
    using scatter_gather [of ?iovs "[1, 2, 3]" "\<lambda>_. 0"] a by auto
  then show ?thesis
    by (auto simp: gather_iov_def iov_total_def MAX_IOV_COPY_def mem_slice_def upt_rec numeral_3_eq_3)
qed

end
