(* ===== verification/Interposer.thy ===== *)
theory Interposer
  imports Data_Path Iovec
begin

text \<open>
  The interposed C library functions of \<open>src/interceptor.rs\<close>: the descriptor registry with one
  lock per session, the panic shield around every function, and each hook from its first test to
  its return value. The functions the overlay shadows are a parameter, \<open>libc\<close>. A hook call is one
  step on the process state; calls that never return have the value \<open>None\<close>.
\<close>

section \<open>Process state\<close>

text \<open>An \<open>Arc<Mutex<FdState>>\<close>: a panic while the lock is held poisons it.\<close>

record cell =
  cell_poisoned :: bool
  cell_st :: FdState

record msghdr =
  msg_iov :: "iovec list option"
  msg_iovlen :: nat
  msg_controllen :: nat
  msg_flags :: int

datatype libcall =
    CConnect int ptr nat
  | CSend int ptr nat int
  | CSendto int ptr nat int ptr nat
  | CRecv int ptr nat int
  | CWrite int ptr nat
  | CRead int ptr nat
  | CWritev int "iovec list option" int
  | CReadv int "iovec list option" int
  | CSendmsg int "msghdr option" int
  | CRecvmsg int "msghdr option" int
  | CSendmmsg int ptr nat int
  | CSendfile int int ptr nat
  | CSendfile64 int int ptr nat
  | CSplice int ptr int ptr nat nat
  | CClose int

type_synonym 'os libc = "libcall \<Rightarrow> mem \<times> 'os \<Rightarrow> sysret \<times> mem \<times> 'os"

record 'os world =
  w_interpose :: bool
  w_registry :: "int \<rightharpoonup> cell"
  w_metrics :: RuntimeMetrics
  w_errno :: int
  w_mem :: mem
  w_os :: 'os

text \<open>\<open>INTERPOSITION_ENABLED\<close>: some entry of \<open>LD_PRELOAD\<close>, split at colons and spaces, contains
  the library's name.\<close>

fun str_starts :: "rstr \<Rightarrow> rstr \<Rightarrow> bool" where
  "str_starts [] s = True"
| "str_starts (p # ps) [] = False"
| "str_starts (p # ps) (c # s) \<longleftrightarrow> p = c \<and> str_starts ps s"

fun str_contains :: "rstr \<Rightarrow> rstr \<Rightarrow> bool" where
  "str_contains pat [] \<longleftrightarrow> str_starts pat []"
| "str_contains pat (c # s) \<longleftrightarrow> str_starts pat (c # s) \<or> str_contains pat s"

fun split_preload :: "rstr \<Rightarrow> rstr list" where
  "split_preload [] = [[]]"
| "split_preload (c # s) =
     (if c = 58 \<or> c = 32 then [] # split_preload s
      else case split_preload s of [] \<Rightarrow> [[c]] | e # es \<Rightarrow> (c # e) # es)"

definition INTERPOSITION_ENABLED :: "sources \<Rightarrow> bool" where
  "INTERPOSITION_ENABLED src =
     (case env_var src ''LD_PRELOAD'' of
        None \<Rightarrow> False
      | Some preload \<Rightarrow>
          list_ex (\<lambda>entry. str_contains (lit ''syntriass_overlay'') entry \<or>
                           str_contains (lit ''syntriass-overlay'') entry) (split_preload preload))"

section \<open>Errors, the real functions and the panic shield\<close>

definition fails :: "int \<Rightarrow> 'os world \<Rightarrow> int outcome \<times> 'os world" where
  "fails e w = (Ret (- 1), w\<lparr>w_errno := e\<rparr>)"

definition call_real :: "'os libc \<Rightarrow> libcall \<Rightarrow> 'os world \<Rightarrow> int outcome \<times> 'os world" where
  "call_real libc c w =
     (case libc c (w_mem w, w_os w) of
        (SysOk n, mem', os') \<Rightarrow> (Ret (int n), w\<lparr>w_mem := mem', w_os := os'\<rparr>)
      | (SysErr e, mem', os') \<Rightarrow> (Ret (- 1), w\<lparr>w_mem := mem', w_os := os', w_errno := e\<rparr>))"

text \<open>\<open>ffi_guard_c_int\<close> and \<open>ffi_guard_ssize\<close>.\<close>

definition ffi_guard :: "(int outcome \<times> 'os world) option \<Rightarrow> (int \<times> 'os world) option" where
  "ffi_guard r =
     (case r of
        None \<Rightarrow> None
      | Some (Ret v, w) \<Rightarrow> Some (v, w)
      | Some (Panic, w) \<Rightarrow> Some (- 1, w\<lparr>w_errno := EIO\<rparr>))"

section \<open>Registry\<close>

definition is_stream_socket :: "'os os_ops \<Rightarrow> int \<Rightarrow> 'os world \<Rightarrow> bool \<times> 'os world" where
  "is_stream_socket ops fd w =
     (case sys_so_type ops fd (w_os w) of
        SysOk stype \<Rightarrow> (stype = SOCK_STREAM, w)
      | SysErr e \<Rightarrow> (False, w\<lparr>w_errno := e\<rparr>))"

definition block_stream_egress :: "'os os_ops \<Rightarrow> int \<Rightarrow> 'os world \<Rightarrow> bool \<times> 'os world" where
  "block_stream_egress ops fd w =
     (case is_stream_socket ops fd w of
        (True, w1) \<Rightarrow> (True, w1\<lparr>w_metrics := record_blocked_bypass_attempt (w_metrics w1), w_errno := EOPNOTSUPP\<rparr>)
      | (False, w1) \<Rightarrow> (False, w1))"

definition lookup :: "int \<Rightarrow> 'os world \<Rightarrow> cell option" where
  "lookup fd w = w_registry w fd"

definition ensure_tracked :: "'os os_ops \<Rightarrow> int \<Rightarrow> 'os world \<Rightarrow> bool \<times> 'os world" where
  "ensure_tracked ops fd w =
     (if w_registry w fd \<noteq> None then (True, w)
      else case is_stream_socket ops fd w of
        (False, w1) \<Rightarrow> (False, w1)
      | (True, w1) \<Rightarrow>
          (let c = env ops (w_os w1);
               suite = failed_policy_suite c;
               st = (case policy c of Inr suite \<Rightarrow> FdState_responder c suite | Inl _ \<Rightarrow> FdState_failed c suite)
           in (True, w1\<lparr>w_registry := (w_registry w1)(fd \<mapsto> \<lparr>cell_poisoned = False, cell_st = st\<rparr>)\<rparr>)))"

text \<open>Replacing or removing a registry entry drops the old state.\<close>

definition drop_cell :: "cell option \<Rightarrow> RuntimeMetrics \<Rightarrow> RuntimeMetrics" where
  "drop_cell c m = (case c of None \<Rightarrow> m | Some cl \<Rightarrow> FdState_drop (cell_st cl) m)"

definition install_initiator_state :: "crypto_lib \<Rightarrow> 'os os_ops \<Rightarrow> int \<Rightarrow> 'os world \<Rightarrow> 'os world" where
  "install_initiator_state lib ops fd w =
     (let st = initiator_state lib (env ops (w_os w)) in
      w\<lparr>w_registry := (w_registry w)(fd \<mapsto> \<lparr>cell_poisoned = False, cell_st = st\<rparr>),
        w_metrics := drop_cell (w_registry w fd) (w_metrics w)\<rparr>)"

text \<open>Running a session function under the per-descriptor lock: an unknown descriptor, a poisoned
  lock, or the function on the locked state, whose panic poisons the lock.\<close>

definition with_session ::
  "int \<Rightarrow> ('os io \<Rightarrow> ('a outcome \<times> 'os io) option) \<Rightarrow> 'a \<Rightarrow> 'os world \<Rightarrow> ('a outcome \<times> 'os world) option" where
  "with_session fd body err w =
     (case lookup fd w of
        None \<Rightarrow> Some (Ret err, w\<lparr>w_errno := EBADF\<rparr>)
      | Some c \<Rightarrow>
          if cell_poisoned c then Some (Ret err, w\<lparr>w_errno := EIO\<rparr>)
          else (case body \<lparr>io_st = cell_st c, io_metrics = w_metrics w, io_errno = w_errno w, io_os = w_os w\<rparr> of
              None \<Rightarrow> None
            | Some (r, v) \<Rightarrow>
                Some (r, w\<lparr>w_registry := (w_registry w)(fd \<mapsto> \<lparr>cell_poisoned = (r = Panic), cell_st = io_st v\<rparr>),
                  w_metrics := io_metrics v, w_errno := io_errno v, w_os := io_os v\<rparr>)))"

definition overlay_send ::
  "crypto_lib \<Rightarrow> 'os os_ops \<Rightarrow> int \<Rightarrow> bytes \<Rightarrow> int \<Rightarrow> 'os world \<Rightarrow> (int outcome \<times> 'os world) option" where
  "overlay_send lib ops fd plaintext flags w =
     with_session fd (overlay_send_locked lib ops fd plaintext flags) (- 1) w"

text \<open>\<open>overlay_recv\<close> into the memory at \<open>buf\<close>.\<close>

definition overlay_recv ::
  "crypto_lib \<Rightarrow> 'os os_ops \<Rightarrow> int \<Rightarrow> ptr \<Rightarrow> nat \<Rightarrow> int \<Rightarrow> 'os world \<Rightarrow> (int outcome \<times> 'os world) option" where
  "overlay_recv lib ops fd buf len flags w =
     (if len = 0 then Some (Ret 0, w)
      else case buf of
        None \<Rightarrow> Some (fails EFAULT w)
      | Some a \<Rightarrow>
          (case with_session fd (overlay_recv_locked lib ops fd len flags) (- 1, []) w of
             None \<Rightarrow> None
           | Some (Panic, w1) \<Rightarrow> Some (Panic, w1)
           | Some (Ret (n, bs), w1) \<Rightarrow> Some (Ret n, w1\<lparr>w_mem := mem_store a bs (w_mem w1)\<rparr>)))"

definition overlay_write_iov ::
  "crypto_lib \<Rightarrow> 'os os_ops \<Rightarrow> int \<Rightarrow> iovec list option \<Rightarrow> nat \<Rightarrow> int \<Rightarrow> 'os world \<Rightarrow> (int outcome \<times> 'os world) option" where
  "overlay_write_iov lib ops fd iov iovcnt flags w =
     (case gather_iov (w_mem w) iov iovcnt of
        Inl e \<Rightarrow> Some (fails e w)
      | Inr data \<Rightarrow> overlay_send lib ops fd data flags w)"

text \<open>The temporary buffer of \<open>overlay_read_iov\<close> is not part of application memory: its contents are
  the bytes the session returned.\<close>

definition overlay_read_iov ::
  "crypto_lib \<Rightarrow> 'os os_ops \<Rightarrow> int \<Rightarrow> iovec list option \<Rightarrow> nat \<Rightarrow> int \<Rightarrow> 'os world \<Rightarrow> (int outcome \<times> 'os world) option" where
  "overlay_read_iov lib ops fd iov iovcnt flags w =
     (case iov_total iov iovcnt of
        Inl e \<Rightarrow> Some (fails e w)
      | Inr tot \<Rightarrow>
          (let tot = min tot MAX_IOV_COPY in
           if tot = 0 then Some (Ret 0, w)
           else (case with_session fd (overlay_recv_locked lib ops fd tot flags) (- 1, []) w of
               None \<Rightarrow> None
             | Some (Panic, w1) \<Rightarrow> Some (Panic, w1)
             | Some (Ret (n, bs), w1) \<Rightarrow>
                 if n > 0 then
                   (case scatter_iov iov iovcnt bs (w_mem w1) of
                      (Inl e, mem') \<Rightarrow> Some (fails e (w1\<lparr>w_mem := mem'\<rparr>))
                    | (Inr _, mem') \<Rightarrow> Some (Ret n, w1\<lparr>w_mem := mem'\<rparr>))
                 else Some (Ret n, w1))))"

section \<open>Hooks\<close>

definition hook_connect ::
  "crypto_lib \<Rightarrow> 'os os_ops \<Rightarrow> 'os libc \<Rightarrow> int \<Rightarrow> ptr \<Rightarrow> nat \<Rightarrow> 'os world \<Rightarrow> (int \<times> 'os world) option" where
  "hook_connect lib ops libc fd addr addrlen w = ffi_guard (
     if \<not> w_interpose w then Some (call_real libc (CConnect fd addr addrlen) w)
     else case call_real libc (CConnect fd addr addrlen) w of
       (Panic, w1) \<Rightarrow> Some (Panic, w1)
     | (Ret res, w1) \<Rightarrow>
         (let saved_errno = (if res < 0 then w_errno w1 else 0);
              w2 = (if res = 0 \<or> (res < 0 \<and> saved_errno = EINPROGRESS)
                    then install_initiator_state lib ops fd w1 else w1);
              w3 = (if res < 0 then w2\<lparr>w_errno := saved_errno\<rparr> else w2)
          in Some (Ret res, w3)))"

definition hook_send ::
  "crypto_lib \<Rightarrow> 'os os_ops \<Rightarrow> 'os libc \<Rightarrow> int \<Rightarrow> ptr \<Rightarrow> nat \<Rightarrow> int \<Rightarrow> 'os world \<Rightarrow> (int \<times> 'os world) option" where
  "hook_send lib ops libc fd buf len flags w = ffi_guard (
     if \<not> w_interpose w then Some (call_real libc (CSend fd buf len flags) w)
     else case ensure_tracked ops fd w of
       (False, w1) \<Rightarrow> Some (call_real libc (CSend fd buf len flags) w1)
     | (True, w1) \<Rightarrow>
         (case input_slice (w_mem w1) buf len of
            Inl e \<Rightarrow> Some (fails e w1)
          | Inr plaintext \<Rightarrow> overlay_send lib ops fd plaintext flags w1))"

definition hook_sendto ::
  "'os os_ops \<Rightarrow> 'os libc \<Rightarrow> int \<Rightarrow> ptr \<Rightarrow> nat \<Rightarrow> int \<Rightarrow> ptr \<Rightarrow> nat \<Rightarrow> 'os world \<Rightarrow> (int \<times> 'os world) option" where
  "hook_sendto ops libc fd buf len flags addr addrlen w = ffi_guard (
     if \<not> w_interpose w then Some (call_real libc (CSendto fd buf len flags addr addrlen) w)
     else case block_stream_egress ops fd w of
       (True, w1) \<Rightarrow> Some (Ret (- 1), w1)
     | (False, w1) \<Rightarrow> Some (call_real libc (CSendto fd buf len flags addr addrlen) w1))"

definition hook_recv ::
  "crypto_lib \<Rightarrow> 'os os_ops \<Rightarrow> 'os libc \<Rightarrow> int \<Rightarrow> ptr \<Rightarrow> nat \<Rightarrow> int \<Rightarrow> 'os world \<Rightarrow> (int \<times> 'os world) option" where
  "hook_recv lib ops libc fd buf len flags w = ffi_guard (
     if \<not> w_interpose w then Some (call_real libc (CRecv fd buf len flags) w)
     else case ensure_tracked ops fd w of
       (False, w1) \<Rightarrow> Some (call_real libc (CRecv fd buf len flags) w1)
     | (True, w1) \<Rightarrow> overlay_recv lib ops fd buf len flags w1)"

definition hook_write ::
  "crypto_lib \<Rightarrow> 'os os_ops \<Rightarrow> 'os libc \<Rightarrow> int \<Rightarrow> ptr \<Rightarrow> nat \<Rightarrow> 'os world \<Rightarrow> (int \<times> 'os world) option" where
  "hook_write lib ops libc fd buf len w = ffi_guard (
     if \<not> w_interpose w then Some (call_real libc (CWrite fd buf len) w)
     else case ensure_tracked ops fd w of
       (False, w1) \<Rightarrow> Some (call_real libc (CWrite fd buf len) w1)
     | (True, w1) \<Rightarrow>
         (case input_slice (w_mem w1) buf len of
            Inl e \<Rightarrow> Some (fails e w1)
          | Inr plaintext \<Rightarrow> overlay_send lib ops fd plaintext 0 w1))"

definition hook_read ::
  "crypto_lib \<Rightarrow> 'os os_ops \<Rightarrow> 'os libc \<Rightarrow> int \<Rightarrow> ptr \<Rightarrow> nat \<Rightarrow> 'os world \<Rightarrow> (int \<times> 'os world) option" where
  "hook_read lib ops libc fd buf len w = ffi_guard (
     if \<not> w_interpose w then Some (call_real libc (CRead fd buf len) w)
     else case ensure_tracked ops fd w of
       (False, w1) \<Rightarrow> Some (call_real libc (CRead fd buf len) w1)
     | (True, w1) \<Rightarrow> overlay_recv lib ops fd buf len 0 w1)"

definition hook_writev ::
  "crypto_lib \<Rightarrow> 'os os_ops \<Rightarrow> 'os libc \<Rightarrow> int \<Rightarrow> iovec list option \<Rightarrow> int \<Rightarrow> 'os world \<Rightarrow> (int \<times> 'os world) option" where
  "hook_writev lib ops libc fd iov iovcnt w = ffi_guard (
     if \<not> w_interpose w then Some (call_real libc (CWritev fd iov iovcnt) w)
     else if iovcnt < 0 then Some (fails EINVAL w)
     else case ensure_tracked ops fd w of
       (False, w1) \<Rightarrow> Some (call_real libc (CWritev fd iov iovcnt) w1)
     | (True, w1) \<Rightarrow> overlay_write_iov lib ops fd iov (nat iovcnt) 0 w1)"

definition hook_readv ::
  "crypto_lib \<Rightarrow> 'os os_ops \<Rightarrow> 'os libc \<Rightarrow> int \<Rightarrow> iovec list option \<Rightarrow> int \<Rightarrow> 'os world \<Rightarrow> (int \<times> 'os world) option" where
  "hook_readv lib ops libc fd iov iovcnt w = ffi_guard (
     if \<not> w_interpose w then Some (call_real libc (CReadv fd iov iovcnt) w)
     else if iovcnt < 0 then Some (fails EINVAL w)
     else case ensure_tracked ops fd w of
       (False, w1) \<Rightarrow> Some (call_real libc (CReadv fd iov iovcnt) w1)
     | (True, w1) \<Rightarrow> overlay_read_iov lib ops fd iov (nat iovcnt) 0 w1)"

definition hook_sendmsg ::
  "crypto_lib \<Rightarrow> 'os os_ops \<Rightarrow> 'os libc \<Rightarrow> int \<Rightarrow> msghdr option \<Rightarrow> int \<Rightarrow> 'os world \<Rightarrow> (int \<times> 'os world) option" where
  "hook_sendmsg lib ops libc fd msg flags w = ffi_guard (
     if \<not> w_interpose w then Some (call_real libc (CSendmsg fd msg flags) w)
     else case msg of
       None \<Rightarrow> Some (fails EFAULT w)
     | Some msg_ref \<Rightarrow>
         (case ensure_tracked ops fd w of
            (False, w1) \<Rightarrow> Some (call_real libc (CSendmsg fd msg flags) w1)
          | (True, w1) \<Rightarrow> overlay_write_iov lib ops fd (msg_iov msg_ref) (msg_iovlen msg_ref) flags w1))"

definition hook_sendmmsg ::
  "'os os_ops \<Rightarrow> 'os libc \<Rightarrow> int \<Rightarrow> ptr \<Rightarrow> nat \<Rightarrow> int \<Rightarrow> 'os world \<Rightarrow> (int \<times> 'os world) option" where
  "hook_sendmmsg ops libc fd msgvec vlen flags w = ffi_guard (
     if \<not> w_interpose w then Some (call_real libc (CSendmmsg fd msgvec vlen flags) w)
     else case block_stream_egress ops fd w of
       (True, w1) \<Rightarrow> Some (Ret (- 1), w1)
     | (False, w1) \<Rightarrow> Some (call_real libc (CSendmmsg fd msgvec vlen flags) w1))"

text \<open>\<open>recvmsg\<close> also clears two fields of the caller's header; the header after the call is the last
  component.\<close>

definition hook_recvmsg ::
  "crypto_lib \<Rightarrow> 'os os_ops \<Rightarrow> 'os libc \<Rightarrow> int \<Rightarrow> msghdr option \<Rightarrow> int \<Rightarrow> 'os world \<Rightarrow>
     (int \<times> 'os world) option \<times> msghdr option" where
  "hook_recvmsg lib ops libc fd msg flags w =
     (if \<not> w_interpose w then (ffi_guard (Some (call_real libc (CRecvmsg fd msg flags) w)), msg)
      else case msg of
        None \<Rightarrow> (ffi_guard (Some (fails EFAULT w)), None)
      | Some msg_ref \<Rightarrow>
          (case ensure_tracked ops fd w of
             (False, w1) \<Rightarrow> (ffi_guard (Some (call_real libc (CRecvmsg fd msg flags) w1)), msg)
           | (True, w1) \<Rightarrow>
               (ffi_guard (overlay_read_iov lib ops fd (msg_iov msg_ref) (msg_iovlen msg_ref) flags w1),
                Some (msg_ref\<lparr>msg_flags := 0, msg_controllen := 0\<rparr>))))"

definition hook_sendfile ::
  "'os os_ops \<Rightarrow> 'os libc \<Rightarrow> int \<Rightarrow> int \<Rightarrow> ptr \<Rightarrow> nat \<Rightarrow> 'os world \<Rightarrow> (int \<times> 'os world) option" where
  "hook_sendfile ops libc out_fd in_fd offset count w = ffi_guard (
     if \<not> w_interpose w then Some (call_real libc (CSendfile out_fd in_fd offset count) w)
     else case block_stream_egress ops out_fd w of
       (True, w1) \<Rightarrow> Some (Ret (- 1), w1)
     | (False, w1) \<Rightarrow> Some (call_real libc (CSendfile out_fd in_fd offset count) w1))"

definition hook_sendfile64 ::
  "'os os_ops \<Rightarrow> 'os libc \<Rightarrow> int \<Rightarrow> int \<Rightarrow> ptr \<Rightarrow> nat \<Rightarrow> 'os world \<Rightarrow> (int \<times> 'os world) option" where
  "hook_sendfile64 ops libc out_fd in_fd offset count w = ffi_guard (
     if \<not> w_interpose w then Some (call_real libc (CSendfile64 out_fd in_fd offset count) w)
     else case block_stream_egress ops out_fd w of
       (True, w1) \<Rightarrow> Some (Ret (- 1), w1)
     | (False, w1) \<Rightarrow> Some (call_real libc (CSendfile64 out_fd in_fd offset count) w1))"

definition hook_splice ::
  "'os os_ops \<Rightarrow> 'os libc \<Rightarrow> int \<Rightarrow> ptr \<Rightarrow> int \<Rightarrow> ptr \<Rightarrow> nat \<Rightarrow> nat \<Rightarrow> 'os world \<Rightarrow> (int \<times> 'os world) option" where
  "hook_splice ops libc fd_in off_in fd_out off_out len flags w = ffi_guard (
     if \<not> w_interpose w then Some (call_real libc (CSplice fd_in off_in fd_out off_out len flags) w)
     else case block_stream_egress ops fd_in w of
       (True, w1) \<Rightarrow> Some (Ret (- 1), w1)
     | (False, w1) \<Rightarrow>
         (case block_stream_egress ops fd_out w1 of
            (True, w2) \<Rightarrow> Some (Ret (- 1), w2)
          | (False, w2) \<Rightarrow> Some (call_real libc (CSplice fd_in off_in fd_out off_out len flags) w2)))"

definition hook_close :: "'os libc \<Rightarrow> int \<Rightarrow> 'os world \<Rightarrow> (int \<times> 'os world) option" where
  "hook_close libc fd w = ffi_guard (
     if \<not> w_interpose w then Some (call_real libc (CClose fd) w)
     else Some (call_real libc (CClose fd)
       (w\<lparr>w_registry := (w_registry w)(fd := None),
          w_metrics := drop_cell (w_registry w fd) (w_metrics w)\<rparr>)))"

section \<open>Invariant\<close>

definition cell_load :: "cell option \<Rightarrow> int" where
  "cell_load c = (case c of None \<Rightarrow> 0 | Some cl \<Rightarrow> load (cell_st cl))"

definition registry_load :: "(int \<rightharpoonup> cell) \<Rightarrow> int" where
  "registry_load reg = (\<Sum>fd \<in> dom reg. cell_load (reg fd))"

definition world_inv :: "'os world \<Rightarrow> bool" where
  "world_inv w \<longleftrightarrow>
     finite (dom (w_registry w)) \<and>
     (\<forall>fd c. w_registry w fd = Some c \<longrightarrow> fd_inv (cell_st c)) \<and>
     active_sessions (w_metrics w) = registry_load (w_registry w)"

lemma registry_load_del:
  assumes "finite (dom reg)"
  shows "registry_load (reg(fd := None)) = registry_load reg - cell_load (reg fd)"
proof (cases "fd \<in> dom reg")
  case True
  have "(\<Sum>x \<in> dom reg - {fd}. cell_load ((reg(fd := None)) x)) = (\<Sum>x \<in> dom reg - {fd}. cell_load (reg x))"
    by (rule sum.cong) auto
  then show ?thesis using sum.remove [OF assms True, of "\<lambda>x. cell_load (reg x)"]
    by (simp add: registry_load_def)
next
  case False
  then have "reg(fd := None) = reg" "reg fd = None" by (auto simp: domIff)
  then show ?thesis by (simp add: cell_load_def)
qed

lemma registry_load_upd:
  assumes "finite (dom reg)"
  shows "registry_load (reg(fd \<mapsto> c)) = registry_load reg - cell_load (reg fd) + load (cell_st c)"
proof -
  have "registry_load (reg(fd \<mapsto> c)) = load (cell_st c) + (\<Sum>x \<in> dom reg - {fd}. cell_load ((reg(fd \<mapsto> c)) x))"
    using sum.insert_remove [OF assms, of "\<lambda>x. cell_load ((reg(fd \<mapsto> c)) x)" fd]
    by (simp add: registry_load_def cell_load_def)
  also have "(\<Sum>x \<in> dom reg - {fd}. cell_load ((reg(fd \<mapsto> c)) x)) = registry_load (reg(fd := None))"
    unfolding registry_load_def by (rule sum.cong) auto
  finally show ?thesis using registry_load_del [OF assms, of fd] by linarith
qed

lemma world_inv_put:
  assumes "world_inv w" and "fd_inv (cell_st c)"
    and "active_sessions m = active_sessions (w_metrics w) - cell_load (w_registry w fd) + load (cell_st c)"
    and "w_registry w' = (w_registry w)(fd \<mapsto> c)" and "w_metrics w' = m"
  shows "world_inv w'"
  using assms by (auto simp: world_inv_def registry_load_upd)

lemma world_inv_cong:
  "w_registry w' = w_registry w \<Longrightarrow> active_sessions (w_metrics w') = active_sessions (w_metrics w) \<Longrightarrow>
     world_inv w \<Longrightarrow> world_inv w'"
  by (simp add: world_inv_def)

lemma call_real_inv: "world_inv w \<Longrightarrow> world_inv (snd (call_real libc c w))"
  by (rule world_inv_cong [of _ w])
    (auto simp: call_real_def split: sysret.split prod.split)

lemma is_stream_socket_inv: "world_inv w \<Longrightarrow> world_inv (snd (is_stream_socket ops fd w))"
  by (rule world_inv_cong [of _ w]) (auto simp: is_stream_socket_def split: sysret.split)

lemma block_stream_egress_inv: "world_inv w \<Longrightarrow> world_inv (snd (block_stream_egress ops fd w))"
  by (rule world_inv_cong [of _ w])
    (auto simp: block_stream_egress_def is_stream_socket_def record_blocked_bypass_attempt_def
      split: sysret.split bool.split)

lemma ensure_tracked_inv:
  assumes "world_inv w"
  shows "world_inv (snd (ensure_tracked ops fd w))"
proof (cases "w_registry w fd = None \<and> fst (is_stream_socket ops fd w)")
  case True
  obtain w1 where w1: "is_stream_socket ops fd w = (True, w1)"
    using True by (cases "is_stream_socket ops fd w") auto
  have same: "w_registry w1 = w_registry w" using w1 by (auto simp: is_stream_socket_def split: sysret.split_asm)
  have inv: "world_inv w1" using is_stream_socket_inv [OF assms, of ops fd] w1 by simp
  show ?thesis
    by (rule world_inv_put [OF inv, where fd = fd and m = "w_metrics w1" and
          c = "\<lparr>cell_poisoned = False, cell_st = (case policy (env ops (w_os w1)) of
            Inr suite \<Rightarrow> FdState_responder (env ops (w_os w1)) suite
          | Inl _ \<Rightarrow> FdState_failed (env ops (w_os w1)) (failed_policy_suite (env ops (w_os w1))))\<rparr>"])
      (use True w1 same in \<open>auto simp: ensure_tracked_def Let_def cell_load_def new_states_inv new_states_load
          split: sum.split\<close>)
next
  case False
  then show ?thesis using assms is_stream_socket_inv [OF assms, of ops fd]
    by (cases "is_stream_socket ops fd w") (auto simp: ensure_tracked_def)
qed

lemma initiator_state_inv: "fd_inv (initiator_state lib c) \<and> load (initiator_state lib c) = 0"
proof -
  have "fd_inv s \<and> load s = 0" if "s = build_pqc_initiator lib c suite \<or> s = build_fallback_initiator c suite" for s suite
    using that
    by (auto simp: build_pqc_initiator_def build_fallback_initiator_def new_states_load FallbackInitiator_begin_def
        intro!: new_states_inv frame_fits split: sum.split option.split)
  then show ?thesis
    by (auto simp: initiator_state_def Let_def new_states_inv new_states_load split: sum.split AvailabilityPosture.split)
qed

lemma install_initiator_state_inv: "world_inv w \<Longrightarrow> world_inv (install_initiator_state lib ops fd w)"
  by (rule world_inv_put [of w "\<lparr>cell_poisoned = False, cell_st = initiator_state lib (env ops (w_os w))\<rparr>" _ fd])
    (auto simp: install_initiator_state_def Let_def initiator_state_inv drop_cell_def drop_gauge cell_load_def
      split: option.split)

text \<open>A session function that evolves its session keeps the process invariant.\<close>

lemma with_session_inv:
  assumes "world_inv w" and "with_session fd body err w = Some (r, w')"
    and body: "\<And>v x v'. fd_inv (io_st v) \<Longrightarrow> body v = Some (x, v') \<Longrightarrow>
      balanced (io_st v, io_metrics v) (io_st v', io_metrics v')"
  shows "world_inv w'"
proof (cases "lookup fd w")
  case None
  then show ?thesis using assms(1,2) by (auto simp: with_session_def intro: world_inv_cong)
next
  case (Some c)
  show ?thesis
  proof (cases "cell_poisoned c")
    case True
    then show ?thesis using Some assms(1,2) by (auto simp: with_session_def intro: world_inv_cong)
  next
    case False
    let ?v = "\<lparr>io_st = cell_st c, io_metrics = w_metrics w, io_errno = w_errno w, io_os = w_os w\<rparr>"
    from assms(2) Some False obtain v' where v': "body ?v = Some (r, v')"
      "w' = w\<lparr>w_registry := (w_registry w)(fd \<mapsto> \<lparr>cell_poisoned = (r = Panic), cell_st = io_st v'\<rparr>),
          w_metrics := io_metrics v', w_errno := io_errno v', w_os := io_os v'\<rparr>"
      by (auto simp: with_session_def split: option.split_asm)
    have "fd_inv (cell_st c)" using assms(1) Some by (auto simp: world_inv_def lookup_def)
    with body [of ?v, OF _ v'(1)] have "balanced (cell_st c, w_metrics w) (io_st v', io_metrics v')" by simp
    then show ?thesis using Some v'(2)
      by (intro world_inv_put [OF assms(1), where fd = fd and m = "io_metrics v'" and
            c = "\<lparr>cell_poisoned = (r = Panic), cell_st = io_st v'\<rparr>"])
        (auto simp: balanced_def cell_load_def lookup_def)
  qed
qed

lemma overlay_send_inv: "world_inv w \<Longrightarrow> overlay_send lib ops fd pt flags w = Some (r, w') \<Longrightarrow> world_inv w'"
  unfolding overlay_send_def
  by (erule (1) with_session_inv) (drule (1) overlay_send_evolves [where out = "\<lambda>_ _. []"], simp add: evolves_def)

lemma recv_session_inv:
  "world_inv w \<Longrightarrow> with_session fd (overlay_recv_locked lib ops fd len flags) err w = Some (r, w') \<Longrightarrow> world_inv w'"
  by (erule (1) with_session_inv) (drule (1) overlay_recv_evolves [where out = "\<lambda>_ _. []"], simp add: evolves_def)

lemma overlay_recv_inv:
  assumes "world_inv w" and "overlay_recv lib ops fd buf len flags w = Some (r, w')"
  shows "world_inv w'"
proof -
  have "world_inv w1" if "with_session fd (overlay_recv_locked lib ops fd len flags) (- 1, []) w = Some (x, w1)" for x w1
    using recv_session_inv [OF assms(1) that] .
  then show ?thesis using assms
    by (auto simp: overlay_recv_def fails_def intro: world_inv_cong
        split: if_split_asm option.split_asm prod.split_asm outcome.split_asm)
qed

lemma overlay_write_iov_inv:
  "world_inv w \<Longrightarrow> overlay_write_iov lib ops fd iov n flags w = Some (r, w') \<Longrightarrow> world_inv w'"
  by (auto simp: overlay_write_iov_def fails_def intro: overlay_send_inv world_inv_cong split: sum.split_asm)

lemma overlay_read_iov_inv:
  assumes "world_inv w" and "overlay_read_iov lib ops fd iov n flags w = Some (r, w')"
  shows "world_inv w'"
proof -
  have "world_inv w1" if "with_session fd (overlay_recv_locked lib ops fd k flags) (- 1, []) w = Some (x, w1)" for k x w1
    using recv_session_inv [OF assms(1) that] .
  then show ?thesis using assms
    by (auto simp: overlay_read_iov_def fails_def Let_def intro: world_inv_cong
        split: if_split_asm option.split_asm prod.split_asm outcome.split_asm sum.split_asm)
qed

section \<open>Every hook keeps the invariant\<close>

lemma guard_inv:
  assumes "ffi_guard r = Some (v, w')" and "\<And>x w1. r = Some (x, w1) \<Longrightarrow> world_inv w1"
  shows "world_inv w'"
proof -
  from assms(1) obtain x w1 where "r = Some (x, w1)" "w' = w1 \<or> w' = w1\<lparr>w_errno := EIO\<rparr>"
    by (auto simp: ffi_guard_def split: option.split_asm prod.split_asm outcome.split_asm)
  with assms(2) [of x w1] show ?thesis by (auto intro: world_inv_cong [of _ w1])
qed

named_theorems world_invs

lemma call_real_pair [world_invs]: "call_real libc c w = (r, w1) \<Longrightarrow> world_inv w \<Longrightarrow> world_inv w1"
  using call_real_inv [of w libc c] by simp

lemma ensure_tracked_pair [world_invs]: "ensure_tracked ops fd w = (b, w1) \<Longrightarrow> world_inv w \<Longrightarrow> world_inv w1"
  using ensure_tracked_inv [of w ops fd] by simp

lemma block_stream_egress_pair [world_invs]: "block_stream_egress ops fd w = (b, w1) \<Longrightarrow> world_inv w \<Longrightarrow> world_inv w1"
  using block_stream_egress_inv [of w ops fd] by simp

lemma fails_pair [world_invs]: "fails e w = (r, w1) \<Longrightarrow> world_inv w \<Longrightarrow> world_inv w1"
  by (auto simp: fails_def intro: world_inv_cong [of _ w])

lemma hook_connect_inv [world_invs]:
  assumes "hook_connect lib ops libc fd addr addrlen w = Some (v, w')" and "world_inv w"
  shows "world_inv w'"
proof -
  have i: "world_inv (install_initiator_state lib ops fd w1)"
    "world_inv ((install_initiator_state lib ops fd w1)\<lparr>w_errno := e\<rparr>)" "world_inv (w1\<lparr>w_errno := e\<rparr>)"
    if "world_inv w1" for w1 e
    using that install_initiator_state_inv [OF that] by (auto intro: world_inv_cong)
  from assms(1) show ?thesis unfolding hook_connect_def
    by (rule guard_inv)
      (use assms(2) i in \<open>auto simp: Let_def dest: call_real_pair split: prod.split_asm outcome.split_asm if_split_asm\<close>)
qed

lemma hook_send_inv [world_invs]:
  "hook_send lib ops libc fd buf len flags w = Some (v, w') \<Longrightarrow> world_inv w \<Longrightarrow> world_inv w'"
  unfolding hook_send_def
  by (erule guard_inv)
    (auto intro: world_invs overlay_send_inv split: if_split_asm prod.split_asm bool.split_asm sum.split_asm)

lemma hook_sendto_inv [world_invs]:
  "hook_sendto ops libc fd buf len flags addr addrlen w = Some (v, w') \<Longrightarrow> world_inv w \<Longrightarrow> world_inv w'"
  unfolding hook_sendto_def
  by (erule guard_inv) (auto intro: world_invs split: if_split_asm prod.split_asm bool.split_asm)

lemma hook_recv_inv [world_invs]:
  "hook_recv lib ops libc fd buf len flags w = Some (v, w') \<Longrightarrow> world_inv w \<Longrightarrow> world_inv w'"
  unfolding hook_recv_def
  by (erule guard_inv)
    (auto intro: world_invs overlay_recv_inv split: if_split_asm prod.split_asm bool.split_asm)

lemma hook_write_inv [world_invs]:
  "hook_write lib ops libc fd buf len w = Some (v, w') \<Longrightarrow> world_inv w \<Longrightarrow> world_inv w'"
  unfolding hook_write_def
  by (erule guard_inv)
    (auto intro: world_invs overlay_send_inv split: if_split_asm prod.split_asm bool.split_asm sum.split_asm)

lemma hook_read_inv [world_invs]:
  "hook_read lib ops libc fd buf len w = Some (v, w') \<Longrightarrow> world_inv w \<Longrightarrow> world_inv w'"
  unfolding hook_read_def
  by (erule guard_inv)
    (auto intro: world_invs overlay_recv_inv split: if_split_asm prod.split_asm bool.split_asm)

lemma hook_writev_inv [world_invs]:
  "hook_writev lib ops libc fd iov n w = Some (v, w') \<Longrightarrow> world_inv w \<Longrightarrow> world_inv w'"
  unfolding hook_writev_def
  by (erule guard_inv)
    (auto intro: world_invs overlay_write_iov_inv split: if_split_asm prod.split_asm bool.split_asm)

lemma hook_readv_inv [world_invs]:
  "hook_readv lib ops libc fd iov n w = Some (v, w') \<Longrightarrow> world_inv w \<Longrightarrow> world_inv w'"
  unfolding hook_readv_def
  by (erule guard_inv)
    (auto intro: world_invs overlay_read_iov_inv split: if_split_asm prod.split_asm bool.split_asm)

lemma hook_sendmsg_inv [world_invs]:
  "hook_sendmsg lib ops libc fd msg flags w = Some (v, w') \<Longrightarrow> world_inv w \<Longrightarrow> world_inv w'"
  unfolding hook_sendmsg_def
  by (erule guard_inv)
    (auto intro: world_invs overlay_write_iov_inv split: if_split_asm prod.split_asm bool.split_asm option.split_asm)

lemma hook_recvmsg_inv [world_invs]:
  "hook_recvmsg lib ops libc fd msg flags w = (Some (v, w'), msg') \<Longrightarrow> world_inv w \<Longrightarrow> world_inv w'"
  unfolding hook_recvmsg_def
  by (auto elim!: guard_inv intro: world_invs overlay_read_iov_inv
      split: if_split_asm prod.split_asm bool.split_asm option.split_asm)

lemma hook_sendmmsg_inv [world_invs]:
  "hook_sendmmsg ops libc fd msgvec vlen flags w = Some (v, w') \<Longrightarrow> world_inv w \<Longrightarrow> world_inv w'"
  unfolding hook_sendmmsg_def
  by (erule guard_inv) (auto intro: world_invs split: if_split_asm prod.split_asm bool.split_asm)

lemma hook_sendfile_inv [world_invs]:
  "hook_sendfile ops libc out_fd in_fd offset count w = Some (v, w') \<Longrightarrow> world_inv w \<Longrightarrow> world_inv w'"
  unfolding hook_sendfile_def
  by (erule guard_inv) (auto intro: world_invs split: if_split_asm prod.split_asm bool.split_asm)

lemma hook_sendfile64_inv [world_invs]:
  "hook_sendfile64 ops libc out_fd in_fd offset count w = Some (v, w') \<Longrightarrow> world_inv w \<Longrightarrow> world_inv w'"
  unfolding hook_sendfile64_def
  by (erule guard_inv) (auto intro: world_invs split: if_split_asm prod.split_asm bool.split_asm)

lemma hook_splice_inv [world_invs]:
  "hook_splice ops libc fd_in off_in fd_out off_out len flags w = Some (v, w') \<Longrightarrow> world_inv w \<Longrightarrow> world_inv w'"
  unfolding hook_splice_def
  by (erule guard_inv)
    (auto dest: call_real_pair block_stream_egress_pair split: if_split_asm prod.split_asm bool.split_asm)

lemma hook_close_inv [world_invs]:
  assumes "hook_close libc fd w = Some (v, w')" and "world_inv w"
  shows "world_inv w'"
proof -
  have "world_inv (w\<lparr>w_registry := (w_registry w)(fd := None), w_metrics := drop_cell (w_registry w fd) (w_metrics w)\<rparr>)"
    using assms(2) by (auto simp: world_inv_def registry_load_del drop_cell_def drop_gauge cell_load_def
        split: option.split if_split_asm)
  with assms show ?thesis unfolding hook_close_def
    by (elim guard_inv) (auto intro: world_invs split: if_split_asm)
qed

end
