(* ===== verification/Config_Reload.thy ===== *)
theory Config_Reload
  imports Interposer
begin

text \<open>
  The configuration hot reloader of \<open>src/fd_state.rs\<close>: which inotify events matter, the scan of an
  inotify read buffer, the reload itself, and the retirement of idle sessions that still use the
  previous configuration. What the reloader thread finds when it runs (the configuration sources,
  the session locks other threads hold, the iteration order of the registry) is a snapshot.
\<close>

unbundle bit_operations_syntax

section \<open>Retiring idle sessions\<close>

definition CONFIG_DIR :: string where "CONFIG_DIR = ''/etc/syntriass''"
definition IDENTITY_FILE :: string where "IDENTITY_FILE = ''identity.toml''"
definition POLICY_FILE :: string where "POLICY_FILE = ''policy.toml''"

record reload_snap =
  rs_sources :: sources
  rs_locked :: "int list"
  rs_order :: "int list"

text \<open>\<open>try_lock\<close> fails on a lock another thread holds and on a poisoned one.\<close>

definition try_lock :: "int list \<Rightarrow> (int \<rightharpoonup> cell) \<Rightarrow> int \<Rightarrow> cell option" where
  "try_lock locked reg fd =
     (case reg fd of
        None \<Rightarrow> None
      | Some c \<Rightarrow> if fd \<in> set locked \<or> cell_poisoned c then None else Some c)"

definition retire_one ::
  "int list \<Rightarrow> u64 \<Rightarrow> int \<Rightarrow> (int \<rightharpoonup> cell) \<times> RuntimeMetrics \<Rightarrow> (int \<rightharpoonup> cell) \<times> RuntimeMetrics" where
  "retire_one locked epoch fd rm =
     (let (reg, m) = rm in
      case try_lock locked reg fd of
        None \<Rightarrow> (reg, m)
      | Some c \<Rightarrow>
          if config_epoch (cell_st c) \<noteq> epoch \<and> is_idle_for_config_reload (cell_st c) then
            (let (s, m') = fail_closed (cell_st c) m
             in (reg(fd \<mapsto> c\<lparr>cell_st := s\<lparr>config_epoch := epoch\<rparr>\<rparr>), m'))
          else (reg, m))"

definition retire_idle_sessions_for_new_config ::
  "reload_snap \<Rightarrow> u64 \<Rightarrow> 'os world \<Rightarrow> 'os world" where
  "retire_idle_sessions_for_new_config snap epoch w =
     (let (reg, m) = fold (retire_one (rs_locked snap) epoch) (rs_order snap) (w_registry w, w_metrics w)
      in w\<lparr>w_registry := reg, w_metrics := m\<rparr>)"

section \<open>Reload\<close>

text \<open>\<open>rl_turn\<close> counts the reloads attempted so far, which selects the snapshot of the next one.\<close>

record 'os reloader =
  rl_lock :: config_lock
  rl_epoch :: u64
  rl_world :: "'os world"
  rl_turn :: nat

definition advance_config_epoch :: "u64 \<Rightarrow> u64" where
  "advance_config_epoch e = e + 1"

definition handle_config_change ::
  "crypto_lib \<Rightarrow> (nat \<Rightarrow> reload_snap) \<Rightarrow> 'os reloader \<Rightarrow> 'os reloader" where
  "handle_config_change lib snaps r =
     (let snap = snaps (rl_turn r); r = r\<lparr>rl_turn := rl_turn r + 1\<rparr> in
      case reload_runtime_config lib (rs_sources snap) (rl_lock r) of
        (Inl _, lock) \<Rightarrow> r\<lparr>rl_lock := lock\<rparr>
      | (Inr _, lock) \<Rightarrow>
          (let epoch = advance_config_epoch (rl_epoch r);
               w = rl_world r;
               w1 = w\<lparr>w_metrics := record_config_epoch_reload (w_metrics w)\<rparr>
           in r\<lparr>rl_lock := lock, rl_epoch := epoch,
                rl_world := retire_idle_sessions_for_new_config snap epoch w1\<rparr>))"

section \<open>inotify events\<close>

definition IN_MODIFY :: u32 where "IN_MODIFY = 0x2"
definition IN_CLOSE_WRITE :: u32 where "IN_CLOSE_WRITE = 0x8"
definition IN_MOVED_TO :: u32 where "IN_MOVED_TO = 0x80"

text \<open>A byte string that is valid UTF-8 and equal to an ASCII name is the bytes of that name.\<close>

definition is_relevant_config_event :: "u32 \<Rightarrow> bytes \<Rightarrow> bool" where
  "is_relevant_config_event ev_mask raw_name =
     (if ev_mask AND (IN_CLOSE_WRITE OR IN_MODIFY OR IN_MOVED_TO) = 0 then False
      else let name = takeWhile (\<lambda>b. b \<noteq> 0) raw_name
           in name = as_bytes (lit IDENTITY_FILE) \<or> name = as_bytes (lit POLICY_FILE))"

text \<open>\<open>struct inotify_event\<close>: the fields wd, mask, cookie and len of four bytes each in the byte order
  of the machine (\<open>big\<close>), then len bytes of name.\<close>

definition INOTIFY_EVENT_SIZE :: nat where "INOTIFY_EVENT_SIZE = 16"

definition event_mask :: "bool \<Rightarrow> bytes \<Rightarrow> u32" where
  "event_mask big ev = word_of_nat (from_ne big (take 4 (drop 4 ev)))"

definition event_len :: "bool \<Rightarrow> bytes \<Rightarrow> nat" where
  "event_len big ev = from_ne big (take 4 (drop 12 ev))"

function scan_events :: "bool \<Rightarrow> ('s \<Rightarrow> 's) \<Rightarrow> bytes \<Rightarrow> nat \<Rightarrow> 's \<Rightarrow> 's" where
  "scan_events big change buf offset s =
     (if offset + INOTIFY_EVENT_SIZE \<le> length buf then
        (let event = drop offset buf;
             name_start = offset + INOTIFY_EVENT_SIZE;
             name_end = name_start + event_len big event in
         if name_end > length buf then s
         else scan_events big change buf name_end
           (if is_relevant_config_event (event_mask big event) (take (name_end - name_start) (drop name_start buf))
            then change s else s))
      else s)"
  by pat_completeness auto
termination
  by (relation "measure (\<lambda>(big, change, buf, offset, s). length buf - offset)")
    (auto simp: INOTIFY_EVENT_SIZE_def)

declare scan_events.simps [simp del]

section \<open>The watcher\<close>

definition EINTR :: int where "EINTR = 4"

datatype read_result = RdErr int | RdOk bytes

datatype watch_error = OsError int | UnexpectedEof

text \<open>The read loop of \<open>watch_config_dir_fd\<close> over the results of its successive reads. It only ends with
  an error; \<open>None\<close> means that it waits for the next read.\<close>

fun watch_reads :: "bool \<Rightarrow> ('s \<Rightarrow> 's) \<Rightarrow> read_result list \<Rightarrow> 's \<Rightarrow> watch_error option \<times> 's" where
  "watch_reads big change [] s = (None, s)"
| "watch_reads big change (RdErr e # rest) s =
     (if e = EINTR then watch_reads big change rest s else (Some (OsError e), s))"
| "watch_reads big change (RdOk buf # rest) s =
     (if buf = [] then (Some UnexpectedEof, s)
      else watch_reads big change rest (scan_events big change buf 0 s))"

definition watch_config_dir_fd ::
  "bool \<Rightarrow> ('s \<Rightarrow> 's) \<Rightarrow> sysret \<Rightarrow> read_result list \<Rightarrow> 's \<Rightarrow> watch_error option \<times> 's" where
  "watch_config_dir_fd big change add_watch reads s =
     (case add_watch of
        SysErr e \<Rightarrow> (Some (OsError e), s)
      | SysOk _ \<Rightarrow> watch_reads big change reads s)"

definition watch_config_dir_once ::
  "bool \<Rightarrow> ('s \<Rightarrow> 's) \<Rightarrow> sysret \<Rightarrow> sysret \<Rightarrow> read_result list \<Rightarrow> 's \<Rightarrow> watch_error option \<times> 's" where
  "watch_config_dir_once big change init add_watch reads s =
     (case init of
        SysErr e \<Rightarrow> (Some (OsError e), s)
      | SysOk _ \<Rightarrow> watch_config_dir_fd big change add_watch reads s)"

text \<open>\<open>config_reloader_loop\<close> over the turns it gets: a turn that ends with an error is followed by the
  next one after the retry delay.\<close>

type_synonym watch_turn = "sysret \<times> sysret \<times> read_result list"

fun config_reloader_loop :: "bool \<Rightarrow> ('s \<Rightarrow> 's) \<Rightarrow> watch_turn list \<Rightarrow> 's \<Rightarrow> 's" where
  "config_reloader_loop big change [] s = s"
| "config_reloader_loop big change ((init, add_watch, reads) # turns) s =
     config_reloader_loop big change turns (snd (watch_config_dir_once big change init add_watch reads s))"

section \<open>What a reload does to the sessions\<close>

text \<open>The effect of \<open>retire_one\<close> on the entry it visits.\<close>

definition retires :: "int list \<Rightarrow> u64 \<Rightarrow> int \<Rightarrow> cell \<Rightarrow> bool" where
  "retires locked epoch fd c \<longleftrightarrow>
     fd \<notin> set locked \<and> \<not> cell_poisoned c \<and> config_epoch (cell_st c) \<noteq> epoch \<and>
     is_idle_for_config_reload (cell_st c)"

definition retired :: "int list \<Rightarrow> u64 \<Rightarrow> int \<Rightarrow> cell \<Rightarrow> cell" where
  "retired locked epoch fd c =
     (if retires locked epoch fd c
      then c\<lparr>cell_st := (fst (fail_closed (cell_st c) RUNTIME_METRICS_new))\<lparr>config_epoch := epoch\<rparr>\<rparr> else c)"

lemma fail_closed_state: "fst (fail_closed s m) = fst (fail_closed s m')"
  by (simp add: fail_closed_def Let_def)

lemma retired_idem: "retired locked epoch fd (retired locked epoch fd c) = retired locked epoch fd c"
  by (auto simp: retired_def retires_def)

lemma retire_one_registry:
  "fst (retire_one locked epoch fd (reg, m)) = reg(fd := map_option (retired locked epoch fd) (reg fd))"
  using fail_closed_state [of _ m RUNTIME_METRICS_new]
  by (auto simp: retire_one_def try_lock_def retired_def retires_def split_beta fun_eq_iff split: option.split)

lemma retire_one_inv:
  assumes "world_inv (w\<lparr>w_registry := fst rm, w_metrics := snd rm\<rparr>)"
  shows "world_inv (w\<lparr>w_registry := fst (retire_one locked epoch fd rm), w_metrics := snd (retire_one locked epoch fd rm)\<rparr>)"
proof (cases "\<exists>c. fst rm fd = Some c \<and> retires locked epoch fd c")
  case True
  then obtain c where c: "fst rm fd = Some c" "retires locked epoch fd c" by blast
  obtain s m where f: "fail_closed (cell_st c) (snd rm) = (s, m)" by fastforce
  have b: "balanced (cell_st c, snd rm) (s, m)" using fail_closed_balanced [of "cell_st c" "snd rm"] f by simp
  have "retire_one locked epoch fd rm = ((fst rm)(fd \<mapsto> c\<lparr>cell_st := s\<lparr>config_epoch := epoch\<rparr>\<rparr>), m)"
    using c f by (simp add: retire_one_def try_lock_def retires_def split_beta)
  then show ?thesis
    by (intro world_inv_put [OF assms, where fd = fd and m = m and c = "c\<lparr>cell_st := s\<lparr>config_epoch := epoch\<rparr>\<rparr>"])
      (use b c in \<open>auto simp: balanced_def fd_inv_def load_def cell_load_def\<close>)
next
  case False
  then have "retire_one locked epoch fd rm = rm"
    by (auto simp: retire_one_def try_lock_def retires_def split_beta split: option.split)
  then show ?thesis using assms by simp
qed

lemma retire_all_registry:
  "fst (fold (retire_one locked epoch) order (reg, m)) fd =
     (if fd \<in> set order then map_option (retired locked epoch fd) (reg fd) else reg fd)"
proof (induction order arbitrary: reg m)
  case (Cons x order)
  obtain reg1 m1 where r: "retire_one locked epoch x (reg, m) = (reg1, m1)" by fastforce
  then have "reg1 fd = (if fd = x then map_option (retired locked epoch fd) (reg fd) else reg fd)"
    using arg_cong [OF retire_one_registry [of locked epoch x reg m], of "\<lambda>f. f fd"] by simp
  then show ?case using Cons.IH [of reg1 m1] r
    by (cases "fd = x") (simp_all add: option.map_comp o_def retired_idem)
qed simp

lemma retire_all_inv:
  "world_inv (w\<lparr>w_registry := fst rm, w_metrics := snd rm\<rparr>) \<Longrightarrow>
     world_inv (w\<lparr>w_registry := fst (fold (retire_one locked epoch) order rm),
                  w_metrics := snd (fold (retire_one locked epoch) order rm)\<rparr>)"
  by (induction order arbitrary: rm) (simp_all add: retire_one_inv)

lemma retire_all_count:
  "config_epoch_reloads (snd (fold (retire_one locked epoch) order rm)) = config_epoch_reloads (snd rm)"
proof (induction order arbitrary: rm)
  case (Cons x order)
  have "config_epoch_reloads (snd (retire_one locked epoch x rm)) = config_epoch_reloads (snd rm)"
    by (auto simp: retire_one_def fail_closed_def Let_def split_beta split: option.split)
  then show ?case by (simp add: Cons.IH)
qed simp

lemma handle_config_change_inv [world_invs]:
  assumes "world_inv (rl_world r)"
  shows "world_inv (rl_world (handle_config_change lib snaps r))"
proof -
  let ?w = "(rl_world r)\<lparr>w_metrics := record_config_epoch_reload (w_metrics (rl_world r))\<rparr>"
  have "world_inv (?w\<lparr>w_registry := fst (w_registry ?w, w_metrics ?w), w_metrics := snd (w_registry ?w, w_metrics ?w)\<rparr>)"
    using assms by (auto simp: record_config_epoch_reload_def intro: world_inv_cong)
  from retire_all_inv [OF this] assms show ?thesis
    by (auto simp: handle_config_change_def Let_def retire_idle_sessions_for_new_config_def split_beta
        split: sum.split)
qed


abbreviation toy_cell :: "FdState \<Rightarrow> cell" where
  "toy_cell st \<equiv> \<lparr>cell_poisoned = False, cell_st = st\<rparr>"

definition toy_reloader :: "toy_os reloader" where
  "toy_reloader =
     \<lparr>rl_lock = ctx_config toy_c, rl_epoch = ctx_epoch toy_c,
      rl_world = \<lparr>w_interpose = True, w_registry = [7 \<mapsto> toy_cell (FdState_responder toy_c NistStandard768)],
        w_metrics = RUNTIME_METRICS_new, w_errno = 0, w_mem = (\<lambda>_. 0), w_os = io_os toy_w\<rparr>,
      rl_turn = 0\<rparr>"

definition toy_snap :: "nat \<Rightarrow> reload_snap" where
  "toy_snap n = \<lparr>rs_sources = ctx_sources toy_c, rs_locked = [], rs_order = [7]\<rparr>"

lemma toy_reloader_inv: "world_inv (rl_world toy_reloader)"
  by (simp add: world_inv_def toy_reloader_def registry_load_def cell_load_def load_def fd_inv_def
      FdState_responder_def RUNTIME_METRICS_new_def)


section \<open>What the watcher reacts to\<close>

record inotify_event =
  ev_wd :: u32
  ev_mask :: u32
  ev_cookie :: u32
  ev_name :: bytes

definition inotify_bytes :: "bool \<Rightarrow> inotify_event \<Rightarrow> bytes" where
  "inotify_bytes big e =
     to_ne big 4 (unat (ev_wd e)) @ to_ne big 4 (unat (ev_mask e)) @ to_ne big 4 (unat (ev_cookie e)) @
     to_ne big 4 (length (ev_name e)) @ ev_name e"

lemma scan_one_event:
  assumes "length (ev_name e) < 2 ^ 32"
  shows "scan_events big change (pre @ inotify_bytes big e @ rest) (length pre) s =
    scan_events big change (pre @ inotify_bytes big e @ rest) (length (pre @ inotify_bytes big e))
      (if is_relevant_config_event (ev_mask e) (ev_name e) then change s else s)"
proof -
  let ?b = "pre @ inotify_bytes big e @ rest"
  have len: "length (inotify_bytes big e) = 16 + length (ev_name e)" by (simp add: inotify_bytes_def)
  have l: "event_len big (drop (length pre) ?b) = length (ev_name e)"
    using assms by (simp add: event_len_def inotify_bytes_def from_ne_to_ne)
  have m: "event_mask big (drop (length pre) ?b) = ev_mask e"
    using unsigned_less [of "ev_mask e", where 'a = nat] by (simp add: event_mask_def inotify_bytes_def from_ne_to_ne)
  have n: "take (length (ev_name e)) (drop (length pre + 16) ?b) = ev_name e"
    by (simp add: inotify_bytes_def)
  show ?thesis
    using l m n len by (subst scan_events.simps) (simp add: INOTIFY_EVENT_SIZE_def Let_def add.assoc)
qed

lemma scan_all_events:
  "list_all (\<lambda>e. length (ev_name e) < 2 ^ 32) evs \<Longrightarrow> length tail < 16 \<Longrightarrow>
     scan_events big change (pre @ concat (map (inotify_bytes big) evs) @ tail) (length pre) s =
     (change ^^ length (filter (\<lambda>e. is_relevant_config_event (ev_mask e) (ev_name e)) evs)) s"
proof (induction evs arbitrary: pre s)
  case Nil
  then show ?case by (subst scan_events.simps) (simp add: INOTIFY_EVENT_SIZE_def)
next
  case (Cons e evs)
  then show ?case
    using scan_one_event [of e big change pre "concat (map (inotify_bytes big) evs) @ tail" s]
      Cons.IH [of "pre @ inotify_bytes big e"]
    by (simp add: funpow_swap1)
qed

text \<open>The scan of an inotify read reloads exactly once for every event that concerns the identity
  or policy file. A buffer of any number of complete events, in either byte order, followed by fewer
  bytes than an event header, causes as many reloads as it has relevant events, in sequence; and an
  event is relevant exactly when it reports a completed write, a modification or a move into the
  directory and its zero-padded name is one of the two file names.\<close>

lemma scan_reloads_per_relevant_event:
  assumes "\<forall>e \<in> set evs. length (ev_name e) < 2 ^ 32" and "length tail < 16" and "0 \<notin> set name"
  shows "scan_events big (handle_config_change lib snaps)
      (concat (map (inotify_bytes big) evs) @ tail) 0 r =
    (handle_config_change lib snaps ^^ length (filter (\<lambda>e. is_relevant_config_event (ev_mask e) (ev_name e)) evs)) r \<and>
    (is_relevant_config_event m (name @ replicate n 0) \<longleftrightarrow>
      m AND 0x8A \<noteq> 0 \<and> name \<in> {as_bytes (lit ''identity.toml''), as_bytes (lit ''policy.toml'')})"
proof
  show "scan_events big (handle_config_change lib snaps) (concat (map (inotify_bytes big) evs) @ tail) 0 r =
    (handle_config_change lib snaps ^^ length (filter (\<lambda>e. is_relevant_config_event (ev_mask e) (ev_name e)) evs)) r"
    using scan_all_events [of evs tail big _ "[]"] assms by (simp add: list_all_iff)
  have "takeWhile (\<lambda>b. b \<noteq> 0) (name @ replicate n 0) = name"
    using assms(3) by (induction name) auto
  moreover have "IN_CLOSE_WRITE OR IN_MODIFY OR IN_MOVED_TO = 0x8A"
    by (simp add: IN_CLOSE_WRITE_def IN_MODIFY_def IN_MOVED_TO_def)
  ultimately show "is_relevant_config_event m (name @ replicate n 0) \<longleftrightarrow>
      m AND 0x8A \<noteq> 0 \<and> name \<in> {as_bytes (lit ''identity.toml''), as_bytes (lit ''policy.toml'')}"
    by (simp add: is_relevant_config_event_def IDENTITY_FILE_def POLICY_FILE_def Let_def)
qed

lemma scan_reloads_per_relevant_event_example:
  "is_relevant_config_event 0x8 (as_bytes (lit ''policy.toml'') @ replicate 5 0) \<and>
   scan_events False (handle_config_change toy_lib toy_snap)
     (inotify_bytes False \<lparr>ev_wd = 1, ev_mask = 8, ev_cookie = 0, ev_name = as_bytes (lit ''policy.toml'') @ replicate 5 0\<rparr> @ [])
     0 toy_reloader = handle_config_change toy_lib toy_snap toy_reloader"
proof -
  let ?n = "as_bytes (lit ''policy.toml'')"
  let ?e = "\<lparr>ev_wd = 1, ev_mask = 8, ev_cookie = 0, ev_name = ?n @ replicate 5 0\<rparr>"
  have n: "0 \<notin> set ?n" "length ?n = 11" by code_simp+
  then have rel: "is_relevant_config_event 8 (?n @ replicate 5 0)"
    using scan_reloads_per_relevant_event [of "[]" "[]" ?n False toy_lib toy_snap toy_reloader 8 5] by simp
  show ?thesis
    using scan_reloads_per_relevant_event [of "[?e]" "[]" ?n False toy_lib toy_snap toy_reloader 8 5] n rel
    by simp
qed

end
