(* ===== verification/Interposition.thy ===== *)
theory Interposition
  imports Config_Reload
begin

text \<open>
  The interposed process as a whole: every call of an intercepted function, every reload of the
  configuration and everything the application and the operating system do in between are the
  steps of one transition system over the process state. Calls on different descriptors hold
  different locks and the registry lock is never held across a call, so a hook call is one step.
  The theorems say what holds in every reachable state, which calls can reach the C library, and
  how a crash inside a session is contained.
\<close>

section \<open>The transition system\<close>

text \<open>The hook that serves a call.\<close>

fun hook :: "crypto_lib \<Rightarrow> 'os os_ops \<Rightarrow> 'os libc \<Rightarrow> libcall \<Rightarrow> 'os world \<Rightarrow> (int \<times> 'os world) option" where
  "hook lib ops libc (CConnect fd addr len) = hook_connect lib ops libc fd addr len"
| "hook lib ops libc (CSend fd buf len flags) = hook_send lib ops libc fd buf len flags"
| "hook lib ops libc (CSendto fd buf len flags addr alen) = hook_sendto ops libc fd buf len flags addr alen"
| "hook lib ops libc (CRecv fd buf len flags) = hook_recv lib ops libc fd buf len flags"
| "hook lib ops libc (CWrite fd buf len) = hook_write lib ops libc fd buf len"
| "hook lib ops libc (CRead fd buf len) = hook_read lib ops libc fd buf len"
| "hook lib ops libc (CWritev fd iov n) = hook_writev lib ops libc fd iov n"
| "hook lib ops libc (CReadv fd iov n) = hook_readv lib ops libc fd iov n"
| "hook lib ops libc (CSendmsg fd msg flags) = hook_sendmsg lib ops libc fd msg flags"
| "hook lib ops libc (CRecvmsg fd msg flags) = (\<lambda>w. fst (hook_recvmsg lib ops libc fd msg flags w))"
| "hook lib ops libc (CSendmmsg fd msgvec n flags) = hook_sendmmsg ops libc fd msgvec n flags"
| "hook lib ops libc (CSendfile out_fd in_fd off n) = hook_sendfile ops libc out_fd in_fd off n"
| "hook lib ops libc (CSendfile64 out_fd in_fd off n) = hook_sendfile64 ops libc out_fd in_fd off n"
| "hook lib ops libc (CSplice fd_in off_in fd_out off_out n flags) = hook_splice ops libc fd_in off_in fd_out off_out n flags"
| "hook lib ops libc (CClose fd) = hook_close libc fd"

lemma hook_recvmsg_result [world_invs]:
  "fst (hook_recvmsg lib ops libc fd msg flags w) = Some (v, w') \<Longrightarrow> world_inv w \<Longrightarrow> world_inv w'"
  by (cases "hook_recvmsg lib ops libc fd msg flags w") (auto intro: hook_recvmsg_inv)

lemma hook_inv: "hook lib ops libc c w = Some (v, w') \<Longrightarrow> world_inv w \<Longrightarrow> world_inv w'"
  by (cases c) (auto intro: world_invs)

inductive process_step :: "crypto_lib \<Rightarrow> 'os os_ops \<Rightarrow> 'os libc \<Rightarrow> 'os world \<Rightarrow> 'os world \<Rightarrow> bool"
  for lib ops libc where
  call: "hook lib ops libc c w = Some (v, w') \<Longrightarrow> process_step lib ops libc w w'"
| reload: "rl_world r = w \<Longrightarrow> process_step lib ops libc w (rl_world (handle_config_change lib snaps r))"
| outside: "process_step lib ops libc w (w\<lparr>w_mem := mem, w_os := os, w_errno := e\<rparr>)"

inductive_cases process_stepE: "process_step lib ops libc w w'"

inductive reachable :: "crypto_lib \<Rightarrow> 'os os_ops \<Rightarrow> 'os libc \<Rightarrow> 'os world \<Rightarrow> bool" for lib ops libc where
  start: "reachable lib ops libc \<lparr>w_interpose = INTERPOSITION_ENABLED src, w_registry = Map.empty,
    w_metrics = RUNTIME_METRICS_new, w_errno = e, w_mem = mem, w_os = os\<rparr>"
| step: "reachable lib ops libc w \<Longrightarrow> process_step lib ops libc w w' \<Longrightarrow> reachable lib ops libc w'"

lemma reachable_inv: "reachable lib ops libc w \<Longrightarrow> world_inv w"
proof (induction rule: reachable.induct)
  case (start src e mem os)
  show ?case by (simp add: world_inv_def registry_load_def RUNTIME_METRICS_new_def)
next
  case (step w w')
  from step.hyps(2) step.IH show ?case
    by (cases rule: process_step.cases) (auto intro: hook_inv handle_config_change_inv world_inv_cong)
qed

section \<open>Reachable states\<close>

lemma registry_load_card:
  assumes "finite (dom reg)" and "\<And>fd c. reg fd = Some c \<Longrightarrow> fd_inv (cell_st c)"
  shows "registry_load reg = int (card {fd. \<exists>c. reg fd = Some c \<and> is_Active (phase (cell_st c))})"
proof -
  let ?A = "{fd. \<exists>c. reg fd = Some c \<and> is_Active (phase (cell_st c))}"
  have "registry_load reg = (\<Sum>fd \<in> dom reg. if fd \<in> ?A then 1 else 0)"
    unfolding registry_load_def
    by (rule sum.cong) (use assms(2) in \<open>auto simp: cell_load_def load_def fd_inv_def\<close>)
  also have "\<dots> = int (card (dom reg \<inter> ?A))"
    using assms(1) by (simp add: sum.If_cases)
  also have "dom reg \<inter> ?A = ?A" by auto
  finally show ?thesis .
qed

text \<open>C7. In every reachable state of the process the session registry is sound: the active-session
  gauge counts exactly the registered sessions that hold traffic keys, no buffer of any session
  exceeds its limit, and a failed session holds no buffered bytes.\<close>

theorem process_invariant:
  assumes "reachable lib ops libc w"
  shows "active_sessions (w_metrics w) =
      int (card {fd. \<exists>c. w_registry w fd = Some c \<and> is_Active (phase (cell_st c))}) \<and>
    (\<forall>fd c. w_registry w fd = Some c \<longrightarrow>
       length (tx_backlog (cell_st c)) \<le> MAX_WRITE_BACKLOG \<and>
       length (rx_wire (cell_st c)) \<le> MAX_WIRE_RX_BUFFER \<and>
       length (rx_plain (cell_st c)) \<le> MAX_PLAIN_RX_BUFFER \<and>
       (phase (cell_st c) = Failed \<longrightarrow>
          tx_backlog (cell_st c) = [] \<and> rx_wire (cell_st c) = [] \<and> rx_plain (cell_st c) = []))"
  using reachable_inv [OF assms] registry_load_card [of "w_registry w"]
  by (simp add: world_inv_def fd_inv_def)

section \<open>Hooks that block, hooks that serve a session\<close>

text \<open>The two shapes of the hooks that can carry data. Under the first a stream socket is refused;
  under the second a tracked socket is served by the session alone.\<close>

locale egress_guard =
  fixes guarded :: "'os os_ops \<Rightarrow> int \<Rightarrow> 'os libc \<Rightarrow> 'os world \<Rightarrow> (int \<times> 'os world) option"
  assumes blocked: "w_interpose w \<Longrightarrow> block_stream_egress ops fd w = (True, w1) \<Longrightarrow>
    guarded ops fd libc w = Some (- 1, w1)"
begin

lemma refused:
  "w_interpose w \<Longrightarrow> sys_so_type ops fd (w_os w) = SysOk SOCK_STREAM \<Longrightarrow>
     guarded ops fd libc w =
       Some (- 1, w\<lparr>w_metrics := record_blocked_bypass_attempt (w_metrics w), w_errno := EOPNOTSUPP\<rparr>)"
  by (rule blocked) (simp_all add: block_stream_egress_def is_stream_socket_def)

end

definition covered :: "'os os_ops \<Rightarrow> 'os world \<Rightarrow> int \<Rightarrow> bool" where
  "covered ops w fd \<longleftrightarrow> w_registry w fd \<noteq> None \<or> sys_so_type ops fd (w_os w) = SysOk SOCK_STREAM"

definition backlog :: "'os world \<Rightarrow> int \<Rightarrow> bytes" where
  "backlog w fd = (case w_registry w fd of None \<Rightarrow> [] | Some c \<Rightarrow> tx_backlog (cell_st c))"

lemma covered_tracked:
  assumes "covered ops w fd"
  obtains w1 where "ensure_tracked ops fd w = (True, w1)" "w_os w1 = w_os w" "backlog w1 = backlog w"
    "w_registry w1 fd \<noteq> None" "\<forall>fd'. fd' \<noteq> fd \<longrightarrow> w_registry w1 fd' = w_registry w fd'"
    "w_registry w fd \<noteq> None \<longrightarrow> w1 = w" "w_mem w1 = w_mem w"
proof (cases "w_registry w fd")
  case None
  with assms show ?thesis
    by (intro that [OF prod.collapse [symmetric, THEN trans, of _ "(True, snd (ensure_tracked ops fd w))"]])
      (auto simp: covered_def ensure_tracked_def is_stream_socket_def Let_def backlog_def fun_eq_iff
        FdState_new_defs split: sum.split)
next
  case (Some c)
  then show ?thesis by (intro that [of w]) (simp_all add: ensure_tracked_def)
qed

text \<open>What one step may do to the byte streams of all descriptors.\<close>

definition wire_safe :: "crypto_lib \<Rightarrow> (int \<Rightarrow> 'os \<Rightarrow> bytes) \<Rightarrow> 'os world \<Rightarrow> 'os world \<Rightarrow> bool" where
  "wire_safe lib out w w' \<longleftrightarrow>
     (\<forall>fd. \<exists>x y. protected lib x \<and>
        out fd (w_os w) @ backlog w fd @ x = out fd (w_os w') @ backlog w' fd @ y \<and>
        (y \<noteq> [] \<longrightarrow> (\<exists>c. w_registry w' fd = Some c \<and> phase (cell_st c) = Failed)))"

lemma wire_safe_same: "w_os w' = w_os w \<Longrightarrow> backlog w' = backlog w \<Longrightarrow> wire_safe lib out w w'"
  unfolding wire_safe_def by (metis append_Nil2 protected_Nil)

lemma wire_safe_from:
  "wire_safe lib out w1 w' \<Longrightarrow> w_os w1 = w_os w \<Longrightarrow> backlog w1 = backlog w \<Longrightarrow> wire_safe lib out w w'"
  by (simp add: wire_safe_def)

lemma wire_safe_refl [simp]: "wire_safe lib out w w"
  by (simp add: wire_safe_same)

lemma wire_safe_errno [simp]: "wire_safe lib out w (w'\<lparr>w_errno := e\<rparr>) = wire_safe lib out w w'"
  by (simp add: wire_safe_def backlog_def)

lemma wire_safe_mem [simp]: "wire_safe lib out w (w'\<lparr>w_mem := mem\<rparr>) = wire_safe lib out w w'"
  by (simp add: wire_safe_def backlog_def)

lemma wire_safe_metrics [simp]: "wire_safe lib out w (w'\<lparr>w_metrics := m\<rparr>) = wire_safe lib out w w'"
  by (simp add: wire_safe_def backlog_def)

lemma with_session_wire:
  assumes "world_inv w" and "wire_log ops out" and "with_session fd body err w = Some (r, w')"
    and body: "\<And>v x v'. fd_inv (io_st v) \<Longrightarrow> body v = Some (x, v') \<Longrightarrow> evolves lib ops out fd v v'"
  shows "wire_safe lib out w w'"
proof (cases "\<exists>c. lookup fd w = Some c \<and> \<not> cell_poisoned c")
  case False
  with assms(3) show ?thesis
    by (intro wire_safe_same) (auto simp: with_session_def backlog_def split: option.split_asm if_split_asm)
next
  case True
  then obtain c where c: "w_registry w fd = Some c" "\<not> cell_poisoned c" by (auto simp: lookup_def)
  let ?v = "\<lparr>io_st = cell_st c, io_metrics = w_metrics w, io_errno = w_errno w, io_os = w_os w\<rparr>"
  from assms(3) c obtain v' where v': "body ?v = Some (r, v')" and
    w': "w_os w' = io_os v'" "w_registry w' = (w_registry w)(fd \<mapsto> \<lparr>cell_poisoned = (r = Panic), cell_st = io_st v'\<rparr>)"
    by (auto simp: with_session_def lookup_def split: option.split_asm prod.split_asm)
  have "fd_inv (io_st ?v)" using assms(1) c by (simp add: world_inv_def)
  from body [OF this v'] assms(2) have e: "emits lib out fd ?v v'" by (simp add: evolves_def)
  show ?thesis unfolding wire_safe_def
  proof
    fix fd'
    show "\<exists>x y. protected lib x \<and>
        out fd' (w_os w) @ backlog w fd' @ x = out fd' (w_os w') @ backlog w' fd' @ y \<and>
        (y \<noteq> [] \<longrightarrow> (\<exists>c. w_registry w' fd' = Some c \<and> phase (cell_st c) = Failed))"
    proof (cases "fd' = fd")
      case True
      with e c w' show ?thesis by (auto simp: emits_def wire_of_def backlog_def)
    next
      case False
      with e w' show ?thesis
        by (intro exI [of _ "[]"]) (auto simp: emits_def backlog_def protected_Nil)
    qed
  qed
qed

lemma overlay_send_wire:
  "world_inv w \<Longrightarrow> wire_log ops out \<Longrightarrow> overlay_send lib ops fd pt flags w = Some (r, w') \<Longrightarrow> wire_safe lib out w w'"
  unfolding overlay_send_def by (erule (2) with_session_wire) (rule overlay_send_evolves)

lemma recv_session_wire:
  "world_inv w \<Longrightarrow> wire_log ops out \<Longrightarrow>
     with_session fd (overlay_recv_locked lib ops fd len flags) err w = Some (r, w') \<Longrightarrow> wire_safe lib out w w'"
  by (erule (2) with_session_wire) (rule overlay_recv_evolves)

lemma overlay_recv_wire:
  assumes "world_inv w" and "wire_log ops out" and "overlay_recv lib ops fd buf len flags w = Some (r, w')"
  shows "wire_safe lib out w w'"
  using assms(3) recv_session_wire [OF assms(1,2)]
  by (auto simp: overlay_recv_def fails_def
      split: if_split_asm option.split_asm prod.split_asm outcome.split_asm)

lemma overlay_write_iov_wire:
  "world_inv w \<Longrightarrow> wire_log ops out \<Longrightarrow> overlay_write_iov lib ops fd iov n flags w = Some (r, w') \<Longrightarrow>
     wire_safe lib out w w'"
  by (auto simp: overlay_write_iov_def fails_def intro: overlay_send_wire split: sum.split_asm)

lemma overlay_read_iov_wire:
  assumes "world_inv w" and "wire_log ops out" and "overlay_read_iov lib ops fd iov n flags w = Some (r, w')"
  shows "wire_safe lib out w w'"
  using assms(3) recv_session_wire [OF assms(1,2)]
  by (auto simp: overlay_read_iov_def Let_def fails_def
      split: if_split_asm option.split_asm prod.split_asm outcome.split_asm sum.split_asm)

lemma ffi_guard_wire:
  "ffi_guard r = Some (v, w') \<Longrightarrow> (\<And>x w1. r = Some (x, w1) \<Longrightarrow> wire_safe lib out w w1) \<Longrightarrow> wire_safe lib out w w'"
  by (auto simp: ffi_guard_def split: option.split_asm prod.split_asm outcome.split_asm)

lemma poisoned_session:
  "w_registry w fd = Some c \<Longrightarrow> cell_poisoned c \<Longrightarrow> with_session fd body err w = Some (Ret err, w\<lparr>w_errno := EIO\<rparr>)"
  by (simp add: with_session_def lookup_def)

definition inert :: "'os world \<Rightarrow> (int outcome \<times> 'os world) option \<Rightarrow> bool" where
  "inert w x \<longleftrightarrow> (\<exists>r e. x = Some (Ret r, w\<lparr>w_errno := e\<rparr>) \<and> r \<le> 0)"

lemma inertI: "x = Some (Ret r, w\<lparr>w_errno := e\<rparr>) \<Longrightarrow> r \<le> 0 \<Longrightarrow> inert w x"
  by (auto simp: inert_def)

lemma inert_fails: "inert w (Some (fails e w))"
  by (rule inertI [where r = "- 1" and e = e]) (simp_all add: fails_def)

lemma inert_zero: "inert w (Some (Ret 0, w))"
  by (rule inertI [where r = 0 and e = "w_errno w"]) simp_all

lemma inert_refused: "inert w (Some (Ret (- 1), w\<lparr>w_errno := e\<rparr>))"
  by (rule inertI [where r = "- 1" and e = e]) simp_all

lemmas inert_results = inert_fails inert_zero inert_refused

lemma poisoned_operations:
  assumes "w_registry w fd = Some c" and "cell_poisoned c"
  shows "inert w (overlay_send lib ops fd pt flags w)"
    and "inert w (overlay_recv lib ops fd buf len flags w)"
    and "inert w (overlay_write_iov lib ops fd iov n flags w)"
    and "inert w (overlay_read_iov lib ops fd iov n flags w)"
proof -
  show s: "inert w (overlay_send lib ops fd pt flags w)" for pt
    by (simp add: overlay_send_def poisoned_session [OF assms] inert_results)
  show "inert w (overlay_recv lib ops fd buf len flags w)"
    by (simp add: overlay_recv_def poisoned_session [OF assms] inert_results split: option.split)
  show "inert w (overlay_write_iov lib ops fd iov n flags w)"
    by (simp add: overlay_write_iov_def s inert_results split: sum.split)
  show "inert w (overlay_read_iov lib ops fd iov n flags w)"
    by (simp add: overlay_read_iov_def Let_def poisoned_session [OF assms] inert_results split: sum.split)
qed

locale session_guard =
  fixes lib :: crypto_lib
    and served :: "'os os_ops \<Rightarrow> int \<Rightarrow> 'os libc \<Rightarrow> 'os world \<Rightarrow> (int \<times> 'os world) option"
    and body :: "'os os_ops \<Rightarrow> int \<Rightarrow> 'os world \<Rightarrow> (int outcome \<times> 'os world) option"
  assumes served_by: "w_interpose w \<Longrightarrow> ensure_tracked ops fd w = (True, w1) \<Longrightarrow>
      served ops fd libc w = ffi_guard (body ops fd w1)"
    and body_wire: "world_inv w \<Longrightarrow> wire_log ops out \<Longrightarrow> body ops fd w = Some (r, w') \<Longrightarrow> wire_safe lib out w w'"
    and body_inert: "w_registry w fd = Some c \<Longrightarrow> cell_poisoned c \<Longrightarrow> inert w (body ops fd w)"
begin

lemma no_libc:
  assumes "w_interpose w" and "covered ops w fd"
  shows "served ops fd libc w = served ops fd libc' w"
proof -
  from assms(2) obtain w1 where "ensure_tracked ops fd w = (True, w1)" by (rule covered_tracked)
  then show ?thesis using served_by [OF assms(1)] by simp
qed

lemma wire:
  assumes "w_interpose w" and "covered ops w fd" and "world_inv w" and "wire_log ops out"
    and "served ops fd libc w = Some (v, w')"
  shows "wire_safe lib out w w'"
proof -
  from assms(2) obtain w1 where e: "ensure_tracked ops fd w = (True, w1)"
    and same: "w_os w1 = w_os w" "backlog w1 = backlog w" by (rule covered_tracked)
  have "world_inv w1" by (rule ensure_tracked_pair [OF e assms(3)])
  with assms(4) body_wire have "wire_safe lib out w1 w2" if "body ops fd w1 = Some (x, w2)" for x w2
    using that by blast
  then have "wire_safe lib out w1 w'"
    using assms(5) served_by [OF assms(1) e] by (metis ffi_guard_wire)
  then show ?thesis using same by (rule wire_safe_from)
qed

lemma poisoned_inert:
  assumes "w_interpose w" and "w_registry w fd = Some c" and "cell_poisoned c"
  shows "\<exists>r e. served ops fd libc w = Some (r, w\<lparr>w_errno := e\<rparr>) \<and> r \<le> 0"
proof -
  from assms(2) have e: "ensure_tracked ops fd w = (True, w)" by (simp add: ensure_tracked_def)
  from body_inert [OF assms(2,3), of ops] show ?thesis
    unfolding served_by [OF assms(1) e] by (auto simp: inert_def ffi_guard_def)
qed

end

interpretation sg_send: session_guard lib "\<lambda>ops fd libc. hook_send lib ops libc fd buf len flags"
  "\<lambda>ops fd w. case input_slice (w_mem w) buf len of Inl e \<Rightarrow> Some (fails e w)
     | Inr pt \<Rightarrow> overlay_send lib ops fd pt flags w" for lib buf len flags
  by unfold_locales
    (auto simp: hook_send_def fails_def intro: overlay_send_wire poisoned_operations inert_fails [unfolded fails_def]
      split: sum.split sum.split_asm)

interpretation sg_write: session_guard lib "\<lambda>ops fd libc. hook_write lib ops libc fd buf len"
  "\<lambda>ops fd w. case input_slice (w_mem w) buf len of Inl e \<Rightarrow> Some (fails e w)
     | Inr pt \<Rightarrow> overlay_send lib ops fd pt 0 w" for lib buf len
  by unfold_locales
    (auto simp: hook_write_def fails_def intro: overlay_send_wire poisoned_operations inert_fails [unfolded fails_def]
      split: sum.split sum.split_asm)

interpretation sg_recv: session_guard lib "\<lambda>ops fd libc. hook_recv lib ops libc fd buf len flags"
  "\<lambda>ops fd. overlay_recv lib ops fd buf len flags" for lib buf len flags
  by unfold_locales (auto simp: hook_recv_def intro: overlay_recv_wire poisoned_operations)

interpretation sg_read: session_guard lib "\<lambda>ops fd libc. hook_read lib ops libc fd buf len"
  "\<lambda>ops fd. overlay_recv lib ops fd buf len 0" for lib buf len
  by unfold_locales (auto simp: hook_read_def intro: overlay_recv_wire poisoned_operations)

interpretation sg_writev: session_guard lib "\<lambda>ops fd libc. hook_writev lib ops libc fd iov (int n)"
  "\<lambda>ops fd. overlay_write_iov lib ops fd iov n 0" for lib iov n
  by unfold_locales (auto simp: hook_writev_def intro: overlay_write_iov_wire poisoned_operations)

interpretation sg_readv: session_guard lib "\<lambda>ops fd libc. hook_readv lib ops libc fd iov (int n)"
  "\<lambda>ops fd. overlay_read_iov lib ops fd iov n 0" for lib iov n
  by unfold_locales (auto simp: hook_readv_def intro: overlay_read_iov_wire poisoned_operations)

interpretation sg_sendmsg: session_guard lib "\<lambda>ops fd libc. hook_sendmsg lib ops libc fd (Some msg) flags"
  "\<lambda>ops fd. overlay_write_iov lib ops fd (msg_iov msg) (msg_iovlen msg) flags" for lib msg flags
  by unfold_locales (auto simp: hook_sendmsg_def intro: overlay_write_iov_wire poisoned_operations)

interpretation sg_recvmsg: session_guard lib
  "\<lambda>ops fd libc w. fst (hook_recvmsg lib ops libc fd (Some msg) flags w)"
  "\<lambda>ops fd. overlay_read_iov lib ops fd (msg_iov msg) (msg_iovlen msg) flags" for lib msg flags
  by unfold_locales (auto simp: hook_recvmsg_def intro: overlay_read_iov_wire poisoned_operations)

interpretation eg_sendto: egress_guard "\<lambda>ops fd libc. hook_sendto ops libc fd buf len flags addr alen"
  for buf len flags addr alen
  by unfold_locales (simp add: hook_sendto_def ffi_guard_def)

interpretation eg_sendmmsg: egress_guard "\<lambda>ops fd libc. hook_sendmmsg ops libc fd msgvec n flags"
  for msgvec n flags
  by unfold_locales (simp add: hook_sendmmsg_def ffi_guard_def)

interpretation eg_sendfile: egress_guard "\<lambda>ops fd libc. hook_sendfile ops libc fd in_fd off n"
  for in_fd off n
  by unfold_locales (simp add: hook_sendfile_def ffi_guard_def)

interpretation eg_sendfile64: egress_guard "\<lambda>ops fd libc. hook_sendfile64 ops libc fd in_fd off n"
  for in_fd off n
  by unfold_locales (simp add: hook_sendfile64_def ffi_guard_def)

interpretation eg_splice_in: egress_guard "\<lambda>ops fd libc. hook_splice ops libc fd off_in fd_out off_out n flags"
  for off_in fd_out off_out n flags
  by unfold_locales (simp add: hook_splice_def ffi_guard_def)

section \<open>No way around the overlay\<close>

text \<open>The calls the overlay answers for: data calls on a tracked or stream socket, and the calls it
  cannot protect when they concern a stream socket.\<close>

fun shielded :: "'os os_ops \<Rightarrow> 'os world \<Rightarrow> libcall \<Rightarrow> bool" where
  "shielded ops w (CSend fd _ _ _) = covered ops w fd"
| "shielded ops w (CWrite fd _ _) = covered ops w fd"
| "shielded ops w (CRecv fd _ _ _) = covered ops w fd"
| "shielded ops w (CRead fd _ _) = covered ops w fd"
| "shielded ops w (CWritev fd _ _) = covered ops w fd"
| "shielded ops w (CReadv fd _ _) = covered ops w fd"
| "shielded ops w (CSendmsg fd _ _) = covered ops w fd"
| "shielded ops w (CRecvmsg fd _ _) = covered ops w fd"
| "shielded ops w (CSendto fd _ _ _ _ _) \<longleftrightarrow> sys_so_type ops fd (w_os w) = SysOk SOCK_STREAM"
| "shielded ops w (CSendmmsg fd _ _ _) \<longleftrightarrow> sys_so_type ops fd (w_os w) = SysOk SOCK_STREAM"
| "shielded ops w (CSendfile fd _ _ _) \<longleftrightarrow> sys_so_type ops fd (w_os w) = SysOk SOCK_STREAM"
| "shielded ops w (CSendfile64 fd _ _ _) \<longleftrightarrow> sys_so_type ops fd (w_os w) = SysOk SOCK_STREAM"
| "shielded ops w (CSplice fd _ fd' _ _ _) \<longleftrightarrow> sys_so_type ops fd (w_os w) = SysOk SOCK_STREAM \<or>
     sys_so_type ops fd' (w_os w) = SysOk SOCK_STREAM"
| "shielded ops w (CConnect _ _ _) = False"
| "shielded ops w (CClose _) = False"

definition refusal :: "'os world \<Rightarrow> (int \<times> 'os world) option" where
  "refusal w = Some (- 1, w\<lparr>w_metrics := record_blocked_bypass_attempt (w_metrics w), w_errno := EOPNOTSUPP\<rparr>)"

lemma splice_refused:
  assumes "w_interpose w" and "shielded ops w (CSplice fd off_in fd' off_out n flags)"
  shows "hook_splice ops libc fd off_in fd' off_out n flags w = refusal w"
proof (cases "sys_so_type ops fd (w_os w) = SysOk SOCK_STREAM")
  case True
  with assms(1) show ?thesis by (simp add: eg_splice_in.refused refusal_def)
next
  case False
  then obtain e where fd: "block_stream_egress ops fd w = (False, w\<lparr>w_errno := e\<rparr>)"
    by (cases "sys_so_type ops fd (w_os w)")
      (auto simp: block_stream_egress_def is_stream_socket_def intro: that [of "w_errno w"])
  have "sys_so_type ops fd' (w_os w) = SysOk SOCK_STREAM" using False assms(2) by simp
  then have "block_stream_egress ops fd' (w\<lparr>w_errno := e\<rparr>) =
      (True, w\<lparr>w_metrics := record_blocked_bypass_attempt (w_metrics w), w_errno := EOPNOTSUPP\<rparr>)"
    by (simp add: block_stream_egress_def is_stream_socket_def)
  with fd assms(1) show ?thesis by (simp add: hook_splice_def ffi_guard_def refusal_def)
qed

lemmas refused = eg_sendto.refused eg_sendmmsg.refused eg_sendfile.refused eg_sendfile64.refused

lemma negative_iov:
  assumes "w_interpose w" and "n < 0"
  shows "hook_writev lib ops libc fd iov n w = Some (- 1, w\<lparr>w_errno := EINVAL\<rparr>)"
    and "hook_readv lib ops libc fd iov n w = Some (- 1, w\<lparr>w_errno := EINVAL\<rparr>)"
  using assms by (simp_all add: hook_writev_def hook_readv_def fails_def ffi_guard_def)

lemma null_msg:
  assumes "w_interpose w"
  shows "hook_sendmsg lib ops libc fd None flags w = Some (- 1, w\<lparr>w_errno := EFAULT\<rparr>)"
    and "fst (hook_recvmsg lib ops libc fd None flags w) = Some (- 1, w\<lparr>w_errno := EFAULT\<rparr>)"
  using assms by (simp_all add: hook_sendmsg_def hook_recvmsg_def fails_def ffi_guard_def)



text \<open>The functions whose data the overlay cannot protect are refused on stream sockets:
  \<open>sendto\<close>, \<open>sendmmsg\<close>, \<open>sendfile\<close>, \<open>sendfile64\<close>, and \<open>splice\<close> on either side, return \<open>-1\<close> with
  \<open>EOPNOTSUPP\<close>, count one blocked bypass attempt and change nothing else.\<close>

lemma egress_refused:
  assumes "w_interpose w" and "shielded ops w c"
    and "c \<in> {CSendto fd buf n flags addr k, CSendmmsg fd buf n flags, CSendfile fd fd' off n,
      CSendfile64 fd fd' off n, CSplice fd off fd' off' n k}"
  shows "hook lib ops libc c w = Some (- 1, w\<lparr>w_metrics :=
      (w_metrics w)\<lparr>blocked_bypass_attempts := blocked_bypass_attempts (w_metrics w) + 1\<rparr>, w_errno := EOPNOTSUPP\<rparr>)"
  using assms by (auto simp: refused splice_refused refusal_def record_blocked_bypass_attempt_def)

section \<open>Crash containment\<close>

lemma session_panic:
  assumes "w_registry w fd = Some c" and "\<not> cell_poisoned c"
    and "body \<lparr>io_st = cell_st c, io_metrics = w_metrics w, io_errno = w_errno w, io_os = w_os w\<rparr> = Some (Panic, v)"
  shows "with_session fd body err w =
    Some (Panic, w\<lparr>w_registry := (w_registry w)(fd \<mapsto> \<lparr>cell_poisoned = True, cell_st = io_st v\<rparr>),
      w_metrics := io_metrics v, w_errno := io_errno v, w_os := io_os v\<rparr>)"
  using assms by (simp add: with_session_def lookup_def)

text \<open>C30. A crash inside a session is contained. When sending on a tracked descriptor panics, the call
  returns \<open>-1\<close> with \<open>EIO\<close> to the application, only that session's lock is poisoned, and every other
  session is untouched. From then on no call that moves data over the poisoned descriptor does
  anything: it returns no data and changes neither the session, the memory nor the operating
  system, but only \<open>errno\<close>.\<close>

theorem crash_contained:
  assumes "w_interpose w" and "w_registry w fd = Some c" and "\<not> cell_poisoned c"
    and "input_slice (w_mem w) buf len = Inr pt"
    and "overlay_send_locked lib ops fd pt flags
      \<lparr>io_st = cell_st c, io_metrics = w_metrics w, io_errno = w_errno w, io_os = w_os w\<rparr> = Some (Panic, v)"
  shows "\<exists>w'. hook lib ops libc (CSend fd buf len flags) w = Some (- 1, w') \<and> w_errno w' = EIO \<and>
    w_mem w' = w_mem w \<and>
    (\<forall>fd'. fd' \<noteq> fd \<longrightarrow> w_registry w' fd' = w_registry w fd') \<and>
    (\<forall>call \<in> {CSend fd buf' n fl, CWrite fd buf' n, CRecv fd buf' n fl, CRead fd buf' n,
        CWritev fd iov (int n), CReadv fd iov (int n), CSendmsg fd (Some msg) fl, CRecvmsg fd (Some msg) fl}.
      \<exists>r e. hook lib ops libc call w' = Some (r, w'\<lparr>w_errno := e\<rparr>) \<and> r \<le> 0)"
proof -
  let ?w = "w\<lparr>w_registry := (w_registry w)(fd \<mapsto> \<lparr>cell_poisoned = True, cell_st = io_st v\<rparr>),
      w_metrics := io_metrics v, w_os := io_os v, w_errno := EIO\<rparr>"
  have "ensure_tracked ops fd w = (True, w)" using assms(2) by (simp add: ensure_tracked_def)
  then have call: "hook lib ops libc (CSend fd buf len flags) w = Some (- 1, ?w)"
    using assms(1,4) session_panic [where body = "overlay_send_locked lib ops fd pt flags", OF assms(2,3,5)]
    by (simp add: hook_send_def overlay_send_def ffi_guard_def)
  have p: "w_interpose ?w" "w_registry ?w fd = Some \<lparr>cell_poisoned = True, cell_st = io_st v\<rparr>"
    "cell_poisoned \<lparr>cell_poisoned = True, cell_st = io_st v\<rparr>" using assms(1) by simp_all
  note inert = sg_send.poisoned_inert [OF p] sg_write.poisoned_inert [OF p] sg_recv.poisoned_inert [OF p]
    sg_read.poisoned_inert [OF p] sg_writev.poisoned_inert [OF p] sg_readv.poisoned_inert [OF p]
    sg_sendmsg.poisoned_inert [OF p] sg_recvmsg.poisoned_inert [OF p]
  show ?thesis by (rule exI [of _ ?w]) (use call inert in auto)
qed

text \<open>A node without a valid policy does not talk in the clear: sending on a new stream socket
  returns \<open>-1\<close> with \<open>EPIPE\<close>, the socket is registered as failed, and the operating system is not
  touched.\<close>

lemma unconfigured_socket_refused:
  assumes "w_interpose w" and "w_registry w fd = None"
    and "sys_so_type ops fd (w_os w) = SysOk SOCK_STREAM"
    and "policy (env ops (w_os w)) = Inl e" and "input_slice (w_mem w) buf len = Inr pt"
  shows "\<exists>w' c. hook lib ops libc (CSend fd buf len flags) w = Some (- 1, w') \<and> w_errno w' = EPIPE \<and>
    w_os w' = w_os w \<and> w_registry w' fd = Some c \<and> phase (cell_st c) = Failed"
proof -
  let ?c = "env ops (w_os w)"
  let ?st = "FdState_failed ?c (failed_policy_suite ?c)"
  let ?w = "w\<lparr>w_registry := (w_registry w)(fd \<mapsto> \<lparr>cell_poisoned = False, cell_st = ?st\<rparr>)\<rparr>"
  let ?v = "\<lparr>io_st = ?st, io_metrics = w_metrics w, io_errno = w_errno w, io_os = w_os w\<rparr>"
  have t: "ensure_tracked ops fd w = (True, ?w)"
    using assms by (simp add: ensure_tracked_def is_stream_socket_def Let_def)
  have "fd_inv (io_st ?v)" "phase (io_st ?v) = Failed" by (simp_all add: new_states_inv) (simp add: FdState_failed_def)
  from failed_session_refused [OF this, of lib ops fd pt flags 0] obtain v where
    "overlay_send_locked lib ops fd pt flags ?v = Some (Ret (- 1), v)" "phase (io_st v) = Failed"
    "io_errno v = EPIPE" "io_os v = w_os w" by auto
  then show ?thesis using assms(1,5) t
    by (simp add: hook_send_def overlay_send_def with_session_def lookup_def ffi_guard_def)
qed

section \<open>Instances\<close>

definition toy_preload :: sources where
  "toy_preload = \<lparr>env_var = (\<lambda>_. Some (lit ''/lib/libc_trace.so:/lib/libsyntriass_overlay.so'')),
     policy_toml = None, identity_toml = None\<rparr>"

definition toy_libc :: "sysret \<Rightarrow> toy_os libc" where
  "toy_libc r c = (\<lambda>(mem, os). (r, mem, os))"

definition toy_world :: "toy_os world" where
  "toy_world = \<lparr>w_interpose = True, w_registry = Map.empty, w_metrics = RUNTIME_METRICS_new, w_errno = 0,
     w_mem = (\<lambda>_. 1), w_os = \<lparr>t_out = [], t_in = []\<rparr>\<rparr>"

lemma toy_preload_on: "INTERPOSITION_ENABLED toy_preload"
  by code_simp

lemma toy_world_reachable: "reachable lib ops libc toy_world"
  using reachable.start [of lib ops libc toy_preload] by (simp add: toy_world_def toy_preload_on)

lemma toy_stream: "sys_so_type (toy_ops c) 3 os = SysOk SOCK_STREAM"
  by (simp add: toy_ops_def SOCK_STREAM_def)

lemma toy_input: "input_slice (w_mem toy_world) (Some 0) 3 = Inr [1, 1, 1]"
  by (simp add: input_slice_def mem_slice_def toy_world_def numeral_eq_Suc upt_rec)

lemma toy_send_returns:
  "\<exists>v w'. hook toy_lib (toy_ops toy_c) libc (CSend 3 (Some 0) 3 0) toy_world = Some (v, w')"
proof -
  let ?st = "FdState_responder toy_c NistStandard768"
  let ?v = "\<lparr>io_st = ?st, io_metrics = RUNTIME_METRICS_new, io_errno = 0, io_os = \<lparr>t_out = [], t_in = []\<rparr>\<rparr>"
  have "ensure_tracked (toy_ops toy_c) 3 toy_world = (True, toy_world\<lparr>w_registry := [3 \<mapsto> toy_cell ?st]\<rparr>)"
    by (simp add: ensure_tracked_def is_stream_socket_def toy_stream Let_def) (simp add: toy_world_def toy_ops_def)
  moreover have "fd_inv (io_st ?v)" by (simp add: new_states_inv)
  from overlay_send_returns [OF this, of "toy_ops toy_c" 3 toy_lib "[1, 1, 1]" 0] obtain r v where
    "overlay_send_locked toy_lib (toy_ops toy_c) 3 [1, 1, 1] 0 ?v = Some (r, v)" by (auto simp: toy_nonblocking)
  ultimately show ?thesis using toy_input
    by (cases r) (simp_all add: hook_send_def overlay_send_def with_session_def lookup_def ffi_guard_def toy_world_def)
qed

theorem process_invariant_witness:
  "\<exists>w. reachable toy_lib (toy_ops toy_c) (toy_libc (SysErr EBADF)) w \<and>
     active_sessions (w_metrics w) =
       int (card {fd. \<exists>c. w_registry w fd = Some c \<and> is_Active (phase (cell_st c))})"
proof -
  from toy_send_returns obtain v w where
    "hook toy_lib (toy_ops toy_c) (toy_libc (SysErr EBADF)) (CSend 3 (Some 0) 3 0) toy_world = Some (v, w)" by blast
  then have "reachable toy_lib (toy_ops toy_c) (toy_libc (SysErr EBADF)) w"
    by (rule reachable.step [OF toy_world_reachable process_step.call])
  from process_invariant [OF this] this show ?thesis by blast
qed



lemma egress_refused_example:
  "\<exists>w'. hook toy_lib (toy_ops toy_c) (toy_libc (SysOk 9)) (CSplice 5 None 3 None 9 0) toy_world = Some (- 1, w') \<and>
     blocked_bypass_attempts (w_metrics w') = 1 \<and> w_errno w' = EOPNOTSUPP"
proof -
  have "w_interpose toy_world" "shielded (toy_ops toy_c) toy_world (CSplice 5 None 3 None 9 0)"
    by (simp_all add: toy_stream) (simp add: toy_world_def)
  from egress_refused [OF this, of 5 None 9 0 None 0 3 None None] show ?thesis
    by (simp add: toy_world_def RUNTIME_METRICS_new_def)
qed

definition toy_msg :: msghdr where
  "toy_msg = \<lparr>msg_iov = None, msg_iovlen = 0, msg_controllen = 0, msg_flags = 0\<rparr>"

definition broken_ops :: "toy_os os_ops" where
  "broken_ops = (toy_ops toy_c)\<lparr>sys_send := \<lambda>fd bs fl os. (SysOk (length bs + 1), os)\<rparr>"

theorem crash_contained_witness:
  "\<exists>w'. hook toy_lib broken_ops (toy_libc (SysOk 3)) (CSend 3 (Some 0) 3 0)
      (toy_world\<lparr>w_registry := [3 \<mapsto> toy_cell ((FdState_responder toy_c NistStandard768)\<lparr>tx_backlog := [5]\<rparr>)]\<rparr>) = Some (- 1, w') \<and>
    w_errno w' = EIO \<and>
    (\<exists>r e. hook toy_lib broken_ops (toy_libc (SysOk 3)) (CWrite 3 (Some 0) 3) w' = Some (r, w'\<lparr>w_errno := e\<rparr>) \<and> r \<le> 0)"
proof -
  let ?st = "(FdState_responder toy_c NistStandard768)\<lparr>tx_backlog := [5]\<rparr>"
  let ?w = "toy_world\<lparr>w_registry := [3 \<mapsto> toy_cell ?st]\<rparr>"
  let ?v = "\<lparr>io_st = cell_st (toy_cell ?st), io_metrics = w_metrics ?w, io_errno = w_errno ?w, io_os = w_os ?w\<rparr>"
  have a: "admit broken_ops ?v = (True, ?v)"
    by (simp add: admit_def inherited_after_fork_def fail_if_stale_idle_config_def Let_def
        is_idle_for_config_reload_def FdState_new_defs broken_ops_def toy_ops_def current_pid_def current_config_epoch_def)
  have b: "is_blocking broken_ops 3 ?v = (False, ?v)" by (simp add: is_blocking_def broken_ops_def toy_ops_def O_NONBLOCK_def)
  have "flush_backlog broken_ops 3 0 ?v = (Panic, ?v)"
    by (subst flush_backlog.simps) (simp add: broken_ops_def)
  then have p: "overlay_send_locked toy_lib broken_ops 3 [1, 1, 1] 0 ?v = Some (Panic, ?v)"
    using a b by (simp add: overlay_send_locked_def drive_until_active_for_write_def)
  have h: "w_interpose ?w" "w_registry ?w 3 = Some (toy_cell ?st)" "\<not> cell_poisoned (toy_cell ?st)"
    "input_slice (w_mem ?w) (Some 0) 3 = Inr [1, 1, 1]"
    using toy_input by (simp_all add: toy_world_def)
  from crash_contained [OF h p, of "toy_libc (SysOk 3)" "Some 0" 3] obtain w' where
    w': "hook toy_lib broken_ops (toy_libc (SysOk 3)) (CSend 3 (Some 0) 3 0) ?w = Some (- 1, w')" "w_errno w' = EIO"
    and all: "\<forall>call \<in> {CSend 3 (Some 0) 3 0, CWrite 3 (Some 0) 3, CRecv 3 (Some 0) 3 0, CRead 3 (Some 0) 3,
        CWritev 3 None (int 3), CReadv 3 None (int 3), CSendmsg 3 (Some toy_msg) 0, CRecvmsg 3 (Some toy_msg) 0}.
      \<exists>r e. hook toy_lib broken_ops (toy_libc (SysOk 3)) call w' = Some (r, w'\<lparr>w_errno := e\<rparr>) \<and> r \<le> 0"
    by blast
  have "\<exists>r e. hook toy_lib broken_ops (toy_libc (SysOk 3)) (CWrite 3 (Some 0) 3) w' = Some (r, w'\<lparr>w_errno := e\<rparr>) \<and> r \<le> 0"
    by (rule bspec [OF all]) blast
  with w' show ?thesis by blast
qed

lemma unconfigured_socket_refused_example:
  "\<exists>w' c. hook toy_lib (toy_ops (toy_c\<lparr>ctx_config := (ctx_config toy_c)\<lparr>lock_poisoned := True\<rparr>\<rparr>)) (toy_libc (SysOk 3))
      (CSend 3 (Some 0) 3 0) toy_world = Some (- 1, w') \<and> w_errno w' = EPIPE \<and>
    t_out (w_os w') = [] \<and> w_registry w' 3 = Some c \<and> phase (cell_st c) = Failed"
proof -
  let ?ops = "toy_ops (toy_c\<lparr>ctx_config := (ctx_config toy_c)\<lparr>lock_poisoned := True\<rparr>\<rparr>)"
  have "policy (env ?ops (w_os toy_world)) = Inl e" if "e = ()" for e
    by (simp add: policy_def toy_ops_def resolve_policy_def map_err_def)
  from unconfigured_socket_refused [OF _ _ toy_stream this toy_input, of "()" toy_lib "toy_libc (SysOk 3)" 0]
  show ?thesis by (force simp: toy_world_def)
qed

end
