(* ===== verification/Hook_Equivalence.thy ===== *)
theory Hook_Equivalence
  imports Interposition
begin

text \<open>
  The different functions an application may use on a protected socket are equivalent: \<open>write\<close> and
  \<open>read\<close> to \<open>send\<close> and \<open>recv\<close> without flags, and the vectored functions to the plain ones on a
  contiguous buffer with the same bytes (\<open>src/interceptor.rs\<close>).
\<close>

section \<open>Results of a receive\<close>

lemma recv_step_result:
  "recv_step lib ops fd len flags blocking w = Inl (Ret (n, bs), w') \<Longrightarrow>
     length bs \<le> len \<and> (n = int (length bs) \<or> n = - 1 \<and> bs = [])"
  by (auto simp: recv_step_def copy_plaintext_to_app_def recv_error_def recv_pull_def Let_def
      split: if_split_asm prod.split_asm outcome.split_asm sum.split_asm)

lemma recv_result:
  assumes "overlay_recv_locked lib ops fd len flags w = Some (Ret (n, bs), w')"
  shows "length bs \<le> len \<and> (n = int (length bs) \<or> n = - 1 \<and> bs = [])"
proof (cases "admit ops w")
  case (Pair ok w1)
  obtain blocking w2 where b: "is_blocking ops fd w1 = (blocking, w2)" by fastforce
  show ?thesis
  proof (cases ok)
    case True
    with assms Pair b have "iterate (recv_step lib ops fd len flags blocking) w2 = Some (Ret (n, bs), w')"
      by (simp add: overlay_recv_locked_def)
    then have "(\<lambda>x. \<forall>n bs w'. x = (Ret (n, bs), w') \<longrightarrow> length bs \<le> len \<and> (n = int (length bs) \<or> n = - 1 \<and> bs = [])) (Ret (n, bs), w')"
      by (rule iterate_invariant [where I = "\<lambda>_. True"]) (auto dest: recv_step_result)
    then show ?thesis by blast
  qed (use assms Pair in \<open>simp add: overlay_recv_locked_def\<close>)
qed

lemma session_recv_result:
  assumes "with_session fd (overlay_recv_locked lib ops fd len flags) (- 1, []) w = Some (Ret (n, bs), w')"
  shows "length bs \<le> len \<and> (n = int (length bs) \<or> n = - 1 \<and> bs = []) \<and> w_mem w' = w_mem w"
  using assms by (auto simp: with_session_def dest!: recv_result split: option.split_asm if_split_asm)

section \<open>Vectored calls\<close>

lemma iov_addrs_length: "iov_valid iovs \<Longrightarrow> length (iov_addrs iovs) = sum_list (map iov_len iovs)"
  by (induction iovs) (auto simp: iov_valid_def split: option.split)

text \<open>A valid vector whose bytes also lie contiguously at \<open>a\<close>.\<close>

lemma gather_contiguous:
  assumes "iov_valid (take n iovs)" "sum_list (map iov_len (take n iovs)) = tot" "tot \<le> MAX_IOV_COPY"
    and "mem_slice mem a tot = map mem (iov_addrs (take n iovs))"
  shows "gather_iov mem (Some iovs) n = input_slice mem (Some a) tot"
proof -
  have t: "iov_total (Some iovs) n = Inr tot"
    using assms(2,3) iov_sum_iff [of 0 "take n iovs" tot] by (auto simp: iov_total_def)
  show ?thesis
  proof (cases "n = 0")
    case True
    then show ?thesis using assms(2) t by (simp add: gather_iov_def input_slice_def)
  next
    case False
    then show ?thesis using t assms(1,4)
      by (auto simp: gather_iov_def input_slice_def gather_items_eq mem_slice_def)
  qed
qed

lemma write_iov_contiguous:
  assumes "iov_valid (take n iovs)" "sum_list (map iov_len (take n iovs)) = tot" "tot \<le> MAX_IOV_COPY"
    and "mem_slice (w_mem w) a tot = map (w_mem w) (iov_addrs (take n iovs))"
  shows "overlay_write_iov lib ops fd (Some iovs) n flags w =
    (case input_slice (w_mem w) (Some a) tot of Inl e \<Rightarrow> Some (fails e w) | Inr pt \<Rightarrow> overlay_send lib ops fd pt flags w)"
  using gather_contiguous [OF assms] by (simp add: overlay_write_iov_def)

lemma read_iov_contiguous:
  assumes "iov_valid (take n iovs)" "sum_list (map iov_len (take n iovs)) = tot" "tot \<le> MAX_IOV_COPY"
    and "distinct (iov_addrs (take n iovs))"
    and "overlay_recv lib ops fd (Some b) tot flags w = Some (r, w1)"
  shows "\<exists>mem'. overlay_read_iov lib ops fd (Some iovs) n flags w = Some (r, w1\<lparr>w_mem := mem'\<rparr>) \<and>
    (\<forall>v. r = Ret v \<longrightarrow> take (nat v) (map mem' (iov_addrs (take n iovs))) = mem_slice (w_mem w1) b (nat v))"
proof -
  have t: "iov_total (Some iovs) n = Inr tot"
    using assms(2,3) iov_sum_iff [of 0 "take n iovs" tot] by (auto simp: iov_total_def)
  show ?thesis
  proof (cases "tot = 0")
    case True
    then show ?thesis using assms(5) t
      by (intro exI [of _ "w_mem w1"]) (auto simp: overlay_recv_def overlay_read_iov_def mem_slice_def)
  next
    case False
    then obtain x w2 where s: "with_session fd (overlay_recv_locked lib ops fd tot flags) (- 1, []) w = Some (x, w2)"
      using assms(5) by (auto simp: overlay_recv_def split: option.split_asm)
    have run: "overlay_read_iov lib ops fd (Some iovs) n flags w =
        (case x of Panic \<Rightarrow> Some (Panic, w2) | Ret (v, bs) \<Rightarrow>
           if v > 0 then (case scatter_iov (Some iovs) n bs (w_mem w2) of
              (Inl e, mem') \<Rightarrow> Some (fails e (w2\<lparr>w_mem := mem'\<rparr>)) | (Inr _, mem') \<Rightarrow> Some (Ret v, w2\<lparr>w_mem := mem'\<rparr>))
           else Some (Ret v, w2))"
      using False assms(3) s t by (simp add: overlay_read_iov_def min_def split: outcome.split)
    show ?thesis
    proof (cases x)
      case Panic
      then show ?thesis using run s assms(5) False by (intro exI [of _ "w_mem w1"]) (simp add: overlay_recv_def)
    next
      case (Ret y)
      obtain v bs where y: "y = (v, bs)" by fastforce
      have res: "length bs \<le> tot" "v = int (length bs) \<or> v = - 1 \<and> bs = []" using session_recv_result [of fd lib ops tot flags w v bs w2] s Ret y by simp_all
      have r: "r = Ret v" "w1 = w2\<lparr>w_mem := mem_store b bs (w_mem w2)\<rparr>" using s Ret y assms(5) False by (simp_all add: overlay_recv_def)
      show ?thesis
      proof (cases "v > 0")
        case False
        then show ?thesis using run Ret y r res by (intro exI [of _ "w_mem w2"]) (auto simp: mem_slice_def)
      next
        case True
        then have v: "v = int (length bs)" "bs \<noteq> []" using res by auto
        have "length (iov_addrs (take n iovs)) = tot" using iov_addrs_length [OF assms(1)] assms(2) by simp
        with scatter_items_spec [OF assms(1,4), of bs "w_mem w2"] res(1) obtain mem' where
          m: "scatter_items (take n iovs) bs (w_mem w2) = (Inr (), mem')"
            "map mem' (iov_addrs (take n iovs)) = bs @ drop (length bs) (map (w_mem w2) (iov_addrs (take n iovs)))" by auto
        have "mem_slice (w_mem w1) b (length bs) = bs" using mem_store_range [of bs "length bs" b "w_mem w2"] r by (simp add: mem_slice_def)
        then show ?thesis using run Ret y r v m True by (intro exI [of _ mem']) (simp add: scatter_iov_def)
      qed
    qed
  qed
qed



end
