(* ===== verification/Session_Types.thy ===== *)
theory Session_Types
  imports Interposition
begin

text \<open>
  The types of the session data. Where the source has arrays (\<open>[u8; 32]\<close> keys, nonces and pre-shared
  keys, the suite a type parameter of the initiator state) the model has byte strings and tags; here
  they are shown to have the source's types in every state a process can reach. The interface
  \<open>phase_property\<close> says what a property of session phases needs to hold of every registered session.
\<close>

section \<open>Properties of phases\<close>

definition sessions_have :: "(FdPhase \<Rightarrow> bool) \<Rightarrow> 'os world \<Rightarrow> bool" where
  "sessions_have T w \<longleftrightarrow> (\<forall>fd c. w_registry w fd = Some c \<longrightarrow> T (phase (cell_st c)))"

abbreviation io_has :: "(FdPhase \<Rightarrow> bool) \<Rightarrow> 'os io \<Rightarrow> bool" where
  "io_has T w \<equiv> T (phase (io_st w))"

lemma flush_phase: "flush_backlog ops fd flags w = (r, w') \<Longrightarrow> phase (io_st w') = phase (io_st w)"
  using flush_backlog_exact [of ops fd flags w r w'] by fastforce

lemma pull_phase: "pull_wire ops fd flags w = (r, w') \<Longrightarrow> phase (io_st w') = phase (io_st w)"
  by (auto simp: pull_wire_def append_rx_wire_def Let_def
      split: prod.split_asm recvret.split_asm if_split_asm sum.split_asm)

lemma append_or_flush_phase:
  "append_or_flush ops fd bs flags blocking w = (r, w') \<Longrightarrow> phase (io_st w') = phase (io_st w) \<or> phase (io_st w') = Failed"
  by (auto simp: append_or_flush_def append_tx_def Let_def dest!: flush_phase
      split: prod.split_asm outcome.split_asm sum.split_asm if_split_asm)

lemma iterate_has:
  assumes "iterate step v = Some (r, w')" and "io_has T v"
    and leave: "\<And>v r v'. io_has T v \<Longrightarrow> step v = Inl (r, v') \<Longrightarrow> io_has T v'"
    and keep: "\<And>v v'. io_has T v \<Longrightarrow> step v = Inr v' \<Longrightarrow> io_has T v'"
  shows "io_has T w'"
proof -
  have "io_has T (snd (r, w'))"
  proof (rule iterate_invariant [OF assms(1), where I = "io_has T" and Q = "\<lambda>x. io_has T (snd x)"])
    show "io_has T (snd x)" if "io_has T v" "step v = Inl x" for v x
      using leave [OF that(1), of "fst x" "snd x"] that(2) by simp
  qed (fact assms(2), fact keep)
  then show ?thesis by simp
qed

named_theorems keeps_sessions

lemma sessions_have_simps [simp]:
  "sessions_have T (w\<lparr>w_errno := e\<rparr>) = sessions_have T w"
  "sessions_have T (w\<lparr>w_mem := mem\<rparr>) = sessions_have T w"
  "sessions_have T (w\<lparr>w_os := os\<rparr>) = sessions_have T w"
  "sessions_have T (w\<lparr>w_metrics := m\<rparr>) = sessions_have T w"
  by (simp_all add: sessions_have_def)

lemma sessions_have_put [simp]:
  "sessions_have T w \<Longrightarrow> T (phase (cell_st c)) \<Longrightarrow> sessions_have T (w\<lparr>w_registry := (w_registry w)(fd \<mapsto> c)\<rparr>)"
  "sessions_have T w \<Longrightarrow> sessions_have T (w\<lparr>w_registry := (w_registry w)(fd := None)\<rparr>)"
  by (auto simp: sessions_have_def split: if_split_asm)

lemma call_real_keeps [keeps_sessions]: "call_real libc c w = (r, w') \<Longrightarrow> sessions_have T w \<Longrightarrow> sessions_have T w'"
  by (auto simp: call_real_def split: prod.split_asm sysret.split_asm)

lemma is_stream_socket_keeps: "is_stream_socket ops fd w = (b, w') \<Longrightarrow> sessions_have T w \<Longrightarrow> sessions_have T w'"
  by (auto simp: is_stream_socket_def split: sysret.split_asm)

lemma block_stream_egress_keeps [keeps_sessions]:
  "block_stream_egress ops fd w = (b, w') \<Longrightarrow> sessions_have T w \<Longrightarrow> sessions_have T w'"
  by (auto simp: block_stream_egress_def dest!: is_stream_socket_keeps [where T = T] split: prod.split_asm bool.split_asm)

lemma fails_keeps [keeps_sessions]: "fails e w = (r, w') \<Longrightarrow> sessions_have T w \<Longrightarrow> sessions_have T w'"
  by (auto simp: fails_def)

lemma guard_keeps:
  assumes "ffi_guard r = Some (v, w')" and "\<And>x w1. r = Some (x, w1) \<Longrightarrow> sessions_have T w1"
  shows "sessions_have T w'"
  using assms by (auto simp: ffi_guard_def split: option.split_asm prod.split_asm outcome.split_asm)

lemma with_session_keeps:
  assumes "sessions_have T w" and "with_session fd body err w = Some (r, w')"
    and body: "\<And>v x v'. io_has T v \<Longrightarrow> body v = Some (x, v') \<Longrightarrow> io_has T v'"
  shows "sessions_have T w'"
proof -
  have "io_has T v'" if "lookup fd w = Some c" "body \<lparr>io_st = cell_st c, io_metrics = w_metrics w, io_errno = w_errno w, io_os = w_os w\<rparr> = Some (x, v')" for c x v'
    using body [OF _ that(2)] assms(1) that(1) by (simp add: sessions_have_def lookup_def)
  then show ?thesis using assms(1,2)
    by (auto simp: with_session_def split: option.split_asm if_split_asm prod.split_asm)
qed

lemma retired_phase: "phase (cell_st (retired locked epoch fd c)) = phase (cell_st c) \<or> phase (cell_st (retired locked epoch fd c)) = Failed"
  by (auto simp: retired_def fail_closed_def Let_def)

lemma handle_config_change_keeps:
  assumes "sessions_have T (rl_world r)" and "T Failed"
  shows "sessions_have T (rl_world (handle_config_change lib snaps r))"
proof -
  have "T (phase (cell_st c'))" if "map_option (retired locked epoch fd) (w_registry (rl_world r) fd) = Some c'" for locked epoch fd c'
    using that retired_phase [of locked epoch fd] assms by (auto simp: sessions_have_def) metis
  then show ?thesis using assms(1)
    by (auto simp: sessions_have_def handle_config_change_def Let_def retire_idle_sessions_for_new_config_def split_beta
        retire_all_registry split: sum.split if_split_asm)
qed

text \<open>\<open>C\<close> is what is known of the surroundings of a call. The laws: the two phases without data have the
  property, sealing and opening keep it, new sessions and the handling of a frame establish it.\<close>

locale phase_property =
  fixes lib :: crypto_lib and C :: "ctx \<Rightarrow> bool" and T :: "FdPhase \<Rightarrow> bool"
  assumes failed: "T Failed" and responder: "T ResponderAwaitingClientHello"
    and initiating: "C c \<Longrightarrow> T (phase (initiator_state lib c))"
    and seals: "T (Active k) \<Longrightarrow> SessionKeys_seal lib k p = (r, k') \<Longrightarrow> T (Active k')"
    and opens: "T (Active k) \<Longrightarrow> SessionKeys_open lib k ct = (r', k') \<Longrightarrow> T (Active k')"
    and handling: "C c \<Longrightarrow> T (phase st) \<Longrightarrow> T (phase (fst (handle_frame lib c f st m)))"
begin

lemma failing: "T (phase (fst (fail_closed st m)))" "io_has T (io_fail_closed w)"
  by (simp_all add: failed)

lemma driving:
  assumes "C c" "T (phase st)"
  shows "T (phase (fst (drive_handshake lib c st m)))"
  using assms handling failed by (auto simp: drive_handshake_eq split: prod.split sum.split option.split)

lemma io_driving: "C (env ops (io_os w)) \<Longrightarrow> io_has T w \<Longrightarrow> io_has T (io_drive_handshake lib ops w)"
  using driving [of "env ops (io_os w)" "io_st w" "io_metrics w"] by (simp add: io_drive_handshake_def split_beta)

lemma admitting: "io_has T w \<Longrightarrow> admit ops w = (b, w') \<Longrightarrow> io_has T w'"
  using admit_refused [of ops w w'] admit_True [of ops w w'] failed by (cases b) auto

lemma write_stepping:
  assumes "\<And>os. C (env ops os)" "io_has T w"
  shows "write_step lib ops fd flags blocking w = Inl (r, w') \<Longrightarrow> io_has T w'"
    and "write_step lib ops fd flags blocking w = Inr w' \<Longrightarrow> io_has T w'"
  using assms failing(2)
  by (auto simp: write_step_def Let_def intro!: io_driving dest!: flush_phase pull_phase
      split: if_split_asm prod.split_asm outcome.split_asm sum.split_asm)

lemma preparing:
  assumes "\<And>os. C (env ops os)" "io_has T w" "drive_until_active_for_write lib ops fd flags blocking w = Some (r, w')"
  shows "io_has T w'"
proof -
  have "io_has T w'" if "iterate (write_step lib ops fd flags blocking) w1 = Some (r, w')" "io_has T w1" for w1
    by (rule iterate_has [where T = T, OF that]) (fact write_stepping [OF assms(1)])+
  then show ?thesis using assms(2,3) failing(2)
    by (auto simp: drive_until_active_for_write_def dest!: flush_phase split: prod.split_asm outcome.split_asm sum.split_asm)
qed

lemma sending_records: "io_has T w \<Longrightarrow> send_records lib ops fd sid flags blocking pt w = (r, w') \<Longrightarrow> io_has T w'"
proof (induction "length pt" arbitrary: pt w rule: less_induct)
  case less
  show ?case
  proof (cases "pt \<noteq> [] \<and> is_Active (phase (io_st w))")
    case False
    then show ?thesis using less.prems failing(2)
      by (subst (asm) send_records.simps) (auto split: if_split_asm FdPhase.split_asm)
  next
    case True
    then obtain k where k: "phase (io_st w) = Active k" by (cases "phase (io_st w)") auto
    have shorter: "length (drop MAX_RECORD_PLAINTEXT pt) < length pt" using True by (simp add: MAX_RECORD_PLAINTEXT_def)
    obtain x k1 where x: "SessionKeys_seal lib k (take MAX_RECORD_PLAINTEXT pt) = (x, k1)" by fastforce
    have k1: "T (Active k1)" using seals [OF _ x] less.prems(1) k by simp
    have "T (phase (io_st w2))" if "append_or_flush ops fd f flags blocking (w\<lparr>io_st := (io_st w)\<lparr>phase := Active k1\<rparr>\<rparr>) = (q, w2)" for f q w2
      using append_or_flush_phase [OF that] k1 failed by auto
    then show ?thesis using less.prems(2) True k x less.hyps [OF shorter] failing(2)
      by (subst (asm) send_records.simps) (auto simp: Let_def split: sum.split_asm prod.split_asm outcome.split_asm)
  qed
qed

lemma flush_looping:
  assumes "iterate (flush_step ops fd flags len) w = Some (r, w')" "io_has T w"
  shows "io_has T w'"
  by (rule iterate_has [where T = T, OF assms])
    (use failing(2) in \<open>auto simp: flush_step_def dest!: flush_phase split: prod.split_asm outcome.split_asm sum.split_asm if_split_asm\<close>)

lemma sending:
  assumes "\<And>os. C (env ops os)" "io_has T w" "overlay_send_locked lib ops fd pt flags w = Some (r, w')"
  shows "io_has T w'"
proof -
  obtain b w1 where a: "admit ops w = (b, w1)" by fastforce
  obtain bl w2 where bl: "is_blocking ops fd w1 = (bl, w2)" by fastforce
  have w2: "io_has T w1" "io_has T w2" using admitting [OF assms(2) a] is_blocking_state [OF bl] by simp_all
  note prep = preparing [OF assms(1) w2(2)]
  show ?thesis
  proof (cases "b \<and> (\<exists>w3. drive_until_active_for_write lib ops fd flags bl w2 = Some (Ret (Inr ()), w3) \<and> pt \<noteq> [])")
    case False
    then show ?thesis using assms(3) a bl w2
      by (auto simp: overlay_send_locked_def dest!: prep
          split: bool.split_asm option.split_asm prod.split_asm outcome.split_asm sum.split_asm if_split_asm)
  next
    case True
    then obtain w3 where b: "b" "pt \<noteq> []" and d: "drive_until_active_for_write lib ops fd flags bl w2 = Some (Ret (Inr ()), w3)"
      by blast
    obtain r4 w4 where s: "send_records lib ops fd (CipherSuite_id (policy_suite (io_st w3))) flags bl pt w3 = (r4, w4)"
      by fastforce
    obtain r5 w5 where f: "flush_backlog ops fd flags w4 = (r5, w5)" by fastforce
    have w4: "io_has T w4" by (rule sending_records [OF prep [OF d] s])
    then have w5: "io_has T w5" using flush_phase [OF f] by simp
    have loop: "io_has T w'" if "iterate (flush_step ops fd flags (length pt)) w5 = Some (r, w')"
      by (rule flush_looping [OF that w5])
    show ?thesis using assms(3) a bl b d s f w4 w5 loop failing(2) [of w5]
      by (auto simp: overlay_send_locked_def split: outcome.split_asm sum.split_asm if_split_asm)
  qed
qed

lemma opened: "T (Active k) \<Longrightarrow> T (Active (snd (SessionKeys_open lib k ct)))"
  using opens [of k ct] by (cases "SessionKeys_open lib k ct") simp

lemma draining: "T (phase st) \<Longrightarrow> drain_records lib st m = (r, st', m') \<Longrightarrow> T (phase st')"
proof (induction "length (rx_wire st)" arbitrary: st m rule: less_induct)
  case less
  have fc: "T (phase s)" if "fail_closed st1 m1 = (s, m2)" for st1 m1 s m2
    using failing(1) [of st1 m1] that by simp
  show ?case
  proof (cases "try_pop_frame (rx_wire st)")
    case (Pair x rest)
    have rec: "T (phase st')" if "drain_records lib st1 m = (r, st', m')" "x = Inr (Some f)" "rx_wire st1 = rest" "T (phase st1)" for f st1
      using less.hyps [of st1 m] try_pop_frame_shrinks [of "rx_wire st" f rest] Pair that by simp
    show ?thesis using less.prems Pair
      by (subst (asm) drain_records.simps)
        (auto elim!: rec intro: fc opened simp: Let_def append_rx_plain_def split_beta split: sum.split_asm option.split_asm if_split_asm FdPhase.split_asm prod.split_asm)
  qed
qed

lemma turning:
  assumes "\<And>os. C (env ops os)" "io_has T w" "handshake_turn lib ops fd flags w = (r, w')"
  shows "io_has T w'"
  using assms by (auto simp: handshake_turn_def intro!: io_driving dest!: flush_phase split: prod.split_asm outcome.split_asm)

lemma recv_pulling:
  assumes "io_has T w"
  shows "recv_pull ops fd flags blocking w = Inl (r, w') \<Longrightarrow> io_has T w'"
    and "recv_pull ops fd flags blocking w = Inr w' \<Longrightarrow> io_has T w'"
  using assms failing(2)
  by (auto simp: recv_pull_def recv_error_def Let_def dest!: pull_phase split: prod.split_asm outcome.split_asm sum.split_asm if_split_asm)

lemma recv_stepping:
  assumes C: "\<And>os. C (env ops os)" and "io_has T w"
  shows "recv_step lib ops fd len flags blocking w = Inl (r, w') \<Longrightarrow> io_has T w'"
    and "recv_step lib ops fd len flags blocking w = Inr w' \<Longrightarrow> io_has T w'"
proof -
  obtain q w1 where t: "(if \<not> (is_Active (phase (io_st w)) \<or> phase (io_st w) = Failed)
      then handshake_turn lib ops fd flags w else (Ret (), w)) = (q, w1)" by fastforce
  have w1: "io_has T w1" using t assms(2) turning [OF C assms(2)] by (auto split: if_split_asm)
  obtain d st m where d: "drain_records lib (io_st w1) (io_metrics w1) = (d, st, m)" by (metis prod.exhaust)
  have st: "io_has T (w1\<lparr>io_st := st, io_metrics := m\<rparr>)" using draining [OF w1 d] by simp
  have p: "case recv_pull ops fd flags blocking v of Inl x \<Rightarrow> io_has T (snd x) | Inr v' \<Rightarrow> io_has T v'" if "io_has T v" for v
    using recv_pulling [OF that] by (simp split: sum.split)
  have "case recv_step lib ops fd len flags blocking w of Inl x \<Rightarrow> io_has T (snd x) | Inr v \<Rightarrow> io_has T v"
    unfolding recv_step_def t prod.case d using assms(2) w1 st p [OF w1] p [OF st]
    by (cases d; cases q) (simp_all add: failed copy_plaintext_to_app_def recv_error_def Let_def)
  then show "recv_step lib ops fd len flags blocking w = Inl (r, w') \<Longrightarrow> io_has T w'"
    "recv_step lib ops fd len flags blocking w = Inr w' \<Longrightarrow> io_has T w'" by simp_all
qed

lemma receiving:
  assumes C: "\<And>os. C (env ops os)" and "io_has T w" "overlay_recv_locked lib ops fd len flags w = Some (r, w')"
  shows "io_has T w'"
proof -
  obtain b w1 where a: "admit ops w = (b, w1)" by fastforce
  obtain bl w2 where bl: "is_blocking ops fd w1 = (bl, w2)" by fastforce
  have w2: "io_has T w1" "io_has T w2" using admitting [OF assms(2) a] is_blocking_state [OF bl] by simp_all
  show ?thesis
  proof (cases b)
    case True
    then have it: "iterate (recv_step lib ops fd len flags bl) w2 = Some (r, w')"
      using assms(3) a bl by (simp add: overlay_recv_locked_def)
    show ?thesis by (rule iterate_has [where T = T, OF it w2(2)]) (fact recv_stepping [OF C])+
  qed (use assms(3) a w2(1) in \<open>auto simp: overlay_recv_locked_def\<close>)
qed

lemma tracking [keeps_sessions]: "ensure_tracked ops fd w = (b, w') \<Longrightarrow> sessions_have T w \<Longrightarrow> sessions_have T w'"
  by (auto simp: ensure_tracked_def Let_def FdState_new_defs failed responder dest!: is_stream_socket_keeps [where T = T]
      split: if_split_asm prod.split_asm bool.split_asm sum.split_asm)

lemma installing: "C (env ops (w_os w)) \<Longrightarrow> sessions_have T w \<Longrightarrow> sessions_have T (install_initiator_state lib ops fd w)"
  by (simp add: install_initiator_state_def Let_def initiating)

lemma hook_connecting:
  assumes "hook_connect lib ops libc fd addr len w = Some (v, w')" "\<And>os. C (env ops os)" "sessions_have T w"
  shows "sessions_have T w'"
  using assms(1) unfolding hook_connect_def
  by (rule guard_keeps)
    (use assms(2,3) in \<open>auto simp: Let_def dest!: call_real_keeps [where T = T] intro: installing split: prod.split_asm outcome.split_asm if_split_asm\<close>)

lemma session_sending [keeps_sessions]:
  assumes "overlay_send lib ops fd pt flags w = Some (r, w')" "\<forall>os. C (env ops os)" "sessions_have T w"
  shows "sessions_have T w'"
  using assms(1) unfolding overlay_send_def
  by (rule with_session_keeps [OF assms(3)]) (rule sending [of ops], use assms(2) in simp_all)

lemma session_receiving:
  assumes "with_session fd (overlay_recv_locked lib ops fd len flags) err w = Some (r, w')" "\<forall>os. C (env ops os)"
    "sessions_have T w"
  shows "sessions_have T w'"
  by (rule with_session_keeps [OF assms(3,1)]) (rule receiving [of ops], use assms(2) in simp_all)

lemma buffer_receiving [keeps_sessions]:
  assumes "overlay_recv lib ops fd buf len flags w = Some (r, w')" "\<forall>os. C (env ops os)" "sessions_have T w"
  shows "sessions_have T w'"
  using assms session_receiving [OF _ assms(2,3)]
  by (auto simp: overlay_recv_def fails_def split: if_split_asm option.split_asm prod.split_asm outcome.split_asm)

lemma iov_sending [keeps_sessions]:
  "overlay_write_iov lib ops fd iov n flags w = Some (r, w') \<Longrightarrow> \<forall>os. C (env ops os) \<Longrightarrow> sessions_have T w \<Longrightarrow>
     sessions_have T w'"
  by (auto simp: overlay_write_iov_def fails_def dest: session_sending split: sum.split_asm)

lemma iov_receiving [keeps_sessions]:
  assumes "overlay_read_iov lib ops fd iov n flags w = Some (r, w')" "\<forall>os. C (env ops os)" "sessions_have T w"
  shows "sessions_have T w'"
  using assms session_receiving [OF _ assms(2,3)]
  by (auto simp: overlay_read_iov_def Let_def fails_def
      split: if_split_asm option.split_asm prod.split_asm outcome.split_asm sum.split_asm)

lemma recvmsg_receiving:
  assumes "fst (hook_recvmsg lib ops libc fd msg flags w) = Some (v, w')" "\<forall>os. C (env ops os)" "sessions_have T w"
  shows "sessions_have T w'"
  using assms
  by (auto simp: hook_recvmsg_def elim!: guard_keeps intro: keeps_sessions
      split: if_split_asm prod.split_asm bool.split_asm option.split_asm)

lemma hooking:
  assumes "hook lib ops libc c w = Some (v, w')" "\<forall>os. C (env ops os)" "sessions_have T w"
  shows "sessions_have T w'"
proof (cases c)
  case (CConnect fd addr len)
  then show ?thesis using assms hook_connecting [of ops libc fd addr len w v w'] by simp
next
  case (CSplice fd_in off_in fd_out off_out n flags)
  then show ?thesis using assms
    by (auto simp: hook_splice_def elim!: guard_keeps
        dest: call_real_keeps [where T = T] block_stream_egress_keeps [where T = T]
        split: if_split_asm prod.split_asm bool.split_asm)
next
  case (CRecvmsg fd msg flags)
  then show ?thesis using assms recvmsg_receiving [of ops libc fd msg flags w v w'] by simp
qed (use assms in \<open>auto simp: hook_send_def hook_sendto_def hook_recv_def hook_write_def hook_read_def hook_writev_def
    hook_readv_def hook_sendmsg_def hook_sendmmsg_def hook_sendfile_def hook_sendfile64_def hook_close_def
    elim!: guard_keeps intro: keeps_sessions
    split: if_split_asm prod.split_asm bool.split_asm sum.split_asm option.split_asm\<close>)

theorem reaching:
  assumes "reachable lib ops libc w" "\<forall>os. C (env ops os)"
  shows "sessions_have T w"
  using assms(1)
proof (induction rule: reachable.induct)
  case (start src e mem os)
  show ?case by (simp add: sessions_have_def)
next
  case (step w w')
  from step.hyps(2) step.IH assms(2) show ?case
    by (cases rule: process_step.cases) (auto intro: hooking handle_config_change_keeps failed)
qed

end

section \<open>The types of phases\<close>

definition typed_keys :: "SessionKeys \<Rightarrow> bool" where
  "typed_keys k \<longleftrightarrow> length (dir_key (tx k)) = 32 \<and> length (dir_key (rx k)) = 32"

fun typed_phase :: "FdPhase \<Rightarrow> bool" where
  "typed_phase (InitiatorAwaitingServerHello (Nist768Init s)) \<longleftrightarrow>
     gis_suite_id s = nist768_SUITE_ID \<and> length (gis_x_secret s) = 32"
| "typed_phase (InitiatorAwaitingServerHello (Nist1024Init s)) \<longleftrightarrow>
     gis_suite_id s = nist1024_SUITE_ID \<and> length (gis_x_secret s) = 32"
| "typed_phase (InitiatorAwaitingFallbackFinished s) \<longleftrightarrow>
     length (fi_psk s) = FALLBACK_PSK_LEN \<and> length (fi_client_nonce s) = FALLBACK_NONCE_LEN"
| "typed_phase ResponderAwaitingClientHello \<longleftrightarrow> True"
| "typed_phase (Active k) \<longleftrightarrow> typed_keys k"
| "typed_phase Failed \<longleftrightarrow> True"

text \<open>The random values of a call: a 32-byte secret and a 16-byte nonce.\<close>

definition typed_ctx :: "ctx \<Rightarrow> bool" where
  "typed_ctx c \<longleftrightarrow> length (ctx_x25519 c) = 32 \<and> length (ctx_nonce c) = FALLBACK_NONCE_LEN"

lemma seal_typed: "typed_keys k \<Longrightarrow> SessionKeys_seal lib k p = (r, k') \<Longrightarrow> typed_keys k'"
  by (auto simp: typed_keys_def SessionKeys_seal_def Direction_seal_def split: prod.split_asm if_split_asm option.split_asm)

lemma open_typed: "typed_keys k \<Longrightarrow> SessionKeys_open lib k ct = (r, k') \<Longrightarrow> typed_keys k'"
  by (auto simp: typed_keys_def SessionKeys_open_def Direction_open_def split: prod.split_asm if_split_asm option.split_asm)

lemma derive_typed: "hkdf_laws lib \<Longrightarrow> derive lib ikm sid th b = Inr k \<Longrightarrow> typed_keys k"
  using hkdf_expand_ok [of lib 64 ikm "HKDF_LABEL_PREFIX @ [sid] @ th"]
  by (auto simp: derive_def Let_def typed_keys_def Direction_new_def split: if_split_asm)

lemma rbind_InrE: "rbind x f = Inr y \<Longrightarrow> (\<And>v. f v = Inr y \<Longrightarrow> P) \<Longrightarrow> P"
  by (auto simp: rbind_def split: sum.split_asm)

lemma finish_typed:
  assumes "hkdf_laws lib" and "InitiatorState_finish lib s i hello = Inr k"
  shows "typed_keys k"
proof -
  have "typed_keys k" if "finish lib K g n i hello = Inr k" for K g n
    using that unfolding finish_def Let_def
    by (auto elim!: rbind_InrE intro: derive_typed [OF assms(1)] split: if_split_asm prod.split_asm)
  then show ?thesis using assms(2) by (cases s) auto
qed

lemma respond_typed:
  assumes "hkdf_laws lib" and "engine_respond lib suite xr kr i hello = Inr (k, body)"
  shows "typed_keys k"
proof -
  have "typed_keys k" if "respond lib K xr kr sid n i hello = Inr (k, body)" for K sid n
    using that unfolding respond_def Let_def
    by (auto simp: rbind_def split: if_split_asm prod.split_asm sum.split_asm intro: derive_typed [OF assms(1)])
  then show ?thesis using assms(2) by (cases suite) (auto simp: nist768_respond_def nist1024_respond_def)
qed

lemma fallback_typed:
  assumes "hkdf_laws lib"
  shows "FallbackInitiator_finish lib s fin = Inr k \<Longrightarrow> typed_keys k"
    and "fallback_respond lib sn psk hello = Inr (k, body) \<Longrightarrow> typed_keys k"
  by (auto simp: fallback_defs derive_fallback_def rbind_def map_err_def dest!: derive_typed [OF assms]
      dest: open_typed seal_typed split: if_split_asm sum.split_asm prod.split_asm)

lemma psk_length: "resolve_fallback_psk src = Some psk \<Longrightarrow> length psk = FALLBACK_PSK_LEN"
  by (auto simp: resolve_fallback_psk_def decode_hex_exact_def dest: decode_hex_vec_length
      split: option.split_asm sum.split_asm)

lemma begin_typed:
  assumes "engine_begin_initiator lib suite xr kr i = Inr (s, body)" and "length xr = 32"
  shows "typed_phase (InitiatorAwaitingServerHello s)"
  using assms by (cases suite)
    (auto simp: nist768_begin_initiator_def nist1024_begin_initiator_def client_hello_def rbind_def Let_def
      split: sum.split_asm prod.split_asm)

lemma initiator_state_typed: "typed_ctx c \<Longrightarrow> typed_phase (phase (initiator_state lib c))"
  by (auto simp: initiator_state_def build_pqc_initiator_def build_fallback_initiator_def FallbackInitiator_begin_def Let_def
      FdState_new_defs typed_ctx_def psk_length begin_typed split: sum.split option.split AvailabilityPosture.split)

lemma queue_frame_phase: "queue_frame sid tag p st = (r, st') \<Longrightarrow> phase st' = phase st"
  using queue_frame_cases [of sid tag p st] by fastforce

lemma handle_frame_typed:
  assumes "hkdf_laws lib"
  shows "typed_phase (phase (fst (handle_frame lib c f st m)))"
  using finish_typed [OF assms] respond_typed [OF assms] fallback_typed [OF assms]
  by (auto simp: handle_frame_def Let_def activate_def
      split: FdPhase.split sum.split option.split prod.split AvailabilityPosture.split)

text \<open>Every session of a process is typed: the interface's laws hold of \<open>typed_phase\<close>.\<close>

interpretation typed: phase_property lib typed_ctx "\<lambda>p. hkdf_laws lib \<longrightarrow> typed_phase p" for lib
  by unfold_locales (auto simp: initiator_state_typed handle_frame_typed dest: seal_typed open_typed)

lemma ktls_secret_typed:
  assumes "hkdf_laws lib" and "length (dir_key d) = 32"
  shows "\<exists>s. ktls_secret lib d = Some s \<and> length (kts_key s) = 32 \<and> length (kts_salt s) = 4 \<and> length (kts_iv s) = 8"
  using hkdf_expand_ok [OF assms(1), of 12 "dir_key d" "ascii ''syntriass-overlay ktls salt+iv v1''"] assms(2)
  by (auto simp: ktls_secret_def)

lemma export_typed:
  assumes "hkdf_laws lib" and "typed_keys k"
  shows "\<exists>t. export_ktls lib k = Some t \<and>
    (\<forall>s \<in> {ktk_tx t, ktk_rx t}. length (kts_key s) = 32 \<and> length (kts_salt s) = 4 \<and> length (kts_iv s) = 8)"
  using ktls_secret_typed [OF assms(1), of "tx k"] ktls_secret_typed [OF assms(1), of "rx k"] assms(2)
  by (auto simp: export_ktls_def typed_keys_def)

text \<open>C14. The session data of a process always has the types the source declares. With well-sized
  randomness, in every reachable state the phase of every registered session is well typed: a waiting
  initiator holds a 32-byte secret under the suite of the engine that made it, a waiting fallback
  initiator a 32-byte pre-shared key and a 16-byte nonce, and an active session two 32-byte traffic
  keys. So the cipher accepts both keys of every active session, and its kernel export exists and has
  the 32, 4 and 8 bytes of the kernel's structure in both directions.\<close>

theorem process_well_typed:
  assumes "reachable lib ops libc w" and "hkdf_laws lib" and "aead_laws lib" and "\<forall>os. typed_ctx (env ops os)"
    and "w_registry w fd = Some c"
  shows "typed_phase (phase (cell_st c)) \<and>
    (\<forall>k. phase (cell_st c) = Active k \<longrightarrow>
       aes_new lib (dir_key (tx k)) \<noteq> None \<and> aes_new lib (dir_key (rx k)) \<noteq> None \<and>
       (\<exists>t. export_ktls lib k = Some t \<and>
          (\<forall>s \<in> {ktk_tx t, ktk_rx t}. length (kts_key s) = 32 \<and> length (kts_salt s) = 4 \<and> length (kts_iv s) = 8)))"
proof -
  have "typed_phase (phase (cell_st c))"
    using typed.reaching [OF assms(1,4)] assms(2,5) by (simp add: sessions_have_def)
  then show ?thesis using export_typed [OF assms(2)] aes_new_ok [OF assms(3)] by (auto simp: typed_keys_def)
qed

definition toy_call :: ctx where
  "toy_call = (toy_ctx (toy_id 1 2) True)\<lparr>ctx_x25519 := replicate 32 1\<rparr>"

lemma toy_connect:
  "\<exists>w. reachable toy_lib (toy_ops toy_call) (toy_libc (SysOk 0)) w \<and>
     w_registry w 3 = Some (toy_cell (initiator_state toy_lib toy_call))"
proof -
  have "hook toy_lib (toy_ops toy_call) (toy_libc (SysOk 0)) (CConnect 3 None 0) toy_world =
      Some (0, install_initiator_state toy_lib (toy_ops toy_call) 3 toy_world)"
    by (simp add: hook_connect_def ffi_guard_def call_real_def toy_libc_def) (simp add: toy_world_def)
  then have "reachable toy_lib (toy_ops toy_call) (toy_libc (SysOk 0)) (install_initiator_state toy_lib (toy_ops toy_call) 3 toy_world)"
    by (rule reachable.step [OF toy_world_reachable process_step.call])
  then show ?thesis by (auto simp: install_initiator_state_def Let_def toy_ops_def)
qed

theorem process_well_typed_witness:
  "\<exists>w s. reachable toy_lib (toy_ops toy_call) (toy_libc (SysOk 0)) w \<and>
     w_registry w 3 = Some (toy_cell (initiator_state toy_lib toy_call)) \<and>
     phase (initiator_state toy_lib toy_call) = InitiatorAwaitingFallbackFinished s \<and>
     length (fi_psk s) = 32 \<and> length (fi_client_nonce s) = 16"
proof -
  obtain w where w: "reachable toy_lib (toy_ops toy_call) (toy_libc (SysOk 0)) w"
    "w_registry w 3 = Some (toy_cell (initiator_state toy_lib toy_call))" using toy_connect by blast
  have "local_posture toy_call = EncryptedFallback" "policy toy_call = Inr NistStandard768"
    "resolve_fallback_psk (ctx_sources toy_call) = Some (replicate 32 9)"
    using toy_posture [of "toy_id 1 2" True] toy_ctx_simps(2) [of "toy_id 1 2" True] toy_psk
    by (simp_all add: local_posture_def policy_def toy_call_def)
  then obtain s where s: "phase (initiator_state toy_lib toy_call) = InitiatorAwaitingFallbackFinished s"
    by (auto simp: initiator_state_def build_fallback_initiator_def FallbackInitiator_begin_def FdState_new_defs Let_def
        frame_def wire_consts toy_call_def)
  have "\<forall>os. typed_ctx (env (toy_ops toy_call) os)"
    by (simp add: typed_ctx_def toy_ops_def toy_call_def FALLBACK_NONCE_LEN_def)
  from process_well_typed [OF w(1) toy_hkdf toy_aead this w(2)] w s show ?thesis
    by (auto simp: FALLBACK_NONCE_LEN_def FALLBACK_PSK_LEN_def)
qed

end
