(* ===== verification/Shared_Sessions.thy ===== *)
theory Shared_Sessions
  imports Interposition
begin

text \<open>
  Sessions shared between threads (\<open>src/fd_state.rs\<close>, \<open>src/interceptor.rs\<close>). A registry entry is a
  counted reference to a locked state. A thread clones the reference under the registry lock, works
  on the state under the state's own lock, and drops its clone; meanwhile other threads may close or
  reconnect the descriptor, and the reloader may retire the session. The state is dropped with its
  last reference. Steps are the critical sections of the two kinds of lock.
\<close>

section \<open>References\<close>

text \<open>\<open>sh_heap\<close> holds each allocation with its strong count; \<open>sh_held\<close> lists the clones in the hands of
  threads, with the thread that owns each.\<close>

record 'os shared =
  sh_heap :: "int \<rightharpoonup> nat \<times> cell"
  sh_reg :: "int \<rightharpoonup> int"
  sh_held :: "(nat \<times> int) list"
  sh_metrics :: RuntimeMetrics
  sh_os :: 'os

definition arc_clone :: "nat \<Rightarrow> int \<Rightarrow> 'os shared \<Rightarrow> 'os shared" where
  "arc_clone t a s =
     (case sh_heap s a of
        None \<Rightarrow> s
      | Some (n, c) \<Rightarrow> s\<lparr>sh_heap := (sh_heap s)(a \<mapsto> (n + 1, c)), sh_held := (t, a) # sh_held s\<rparr>)"

text \<open>Giving up one reference; the last one drops the state.\<close>

definition arc_dec :: "int \<Rightarrow> 'os shared \<Rightarrow> 'os shared" where
  "arc_dec a s =
     (case sh_heap s a of
        None \<Rightarrow> s
      | Some (n, c) \<Rightarrow>
          if n \<le> 1 then s\<lparr>sh_heap := (sh_heap s)(a := None), sh_metrics := FdState_drop (cell_st c) (sh_metrics s)\<rparr>
          else s\<lparr>sh_heap := (sh_heap s)(a \<mapsto> (n - 1, c))\<rparr>)"

definition arc_drop :: "nat \<Rightarrow> int \<Rightarrow> 'os shared \<Rightarrow> 'os shared" where
  "arc_drop t a s = arc_dec a (s\<lparr>sh_held := remove1 (t, a) (sh_held s)\<rparr>)"

section \<open>Critical sections\<close>

text \<open>\<open>lookup\<close>: clone the entry of a descriptor.\<close>

definition lookup_turn :: "nat \<Rightarrow> int \<Rightarrow> 'os shared \<Rightarrow> 'os shared" where
  "lookup_turn t fd s = (case sh_reg s fd of None \<Rightarrow> s | Some a \<Rightarrow> arc_clone t a s)"

text \<open>A session function under the lock of the state; the error number belongs to the thread.\<close>

definition locked ::
  "int \<Rightarrow> ('os io \<Rightarrow> ('a outcome \<times> 'os io) option) \<Rightarrow> 'a \<Rightarrow> int \<Rightarrow> 'os shared \<Rightarrow> ('a outcome \<times> int \<times> 'os shared) option" where
  "locked a body err e s =
     (case sh_heap s a of
        None \<Rightarrow> None
      | Some (n, c) \<Rightarrow>
          if cell_poisoned c then Some (Ret err, EIO, s)
          else (case body \<lparr>io_st = cell_st c, io_metrics = sh_metrics s, io_errno = e, io_os = sh_os s\<rparr> of
              None \<Rightarrow> None
            | Some (r, v) \<Rightarrow>
                Some (r, io_errno v, s\<lparr>sh_heap := (sh_heap s)(a \<mapsto> (n, \<lparr>cell_poisoned = (r = Panic), cell_st = io_st v\<rparr>)),
                  sh_metrics := io_metrics v, sh_os := io_os v\<rparr>)))"

text \<open>The insertion of \<open>ensure_tracked\<close>: an entry another thread made in between is kept. \<open>a\<close> is the new
  allocation, \<open>os0\<close> the earlier moment at which the suite of a failed session was read.\<close>

definition track_turn :: "'os os_ops \<Rightarrow> 'os \<Rightarrow> int \<Rightarrow> int \<Rightarrow> 'os shared \<Rightarrow> 'os shared" where
  "track_turn ops os0 fd a s =
     (case sh_reg s fd of
        Some _ \<Rightarrow> s
      | None \<Rightarrow>
          (let c = env ops (sh_os s);
               st = (case policy c of Inr suite \<Rightarrow> FdState_responder c suite | Inl _ \<Rightarrow> FdState_failed c (failed_policy_suite (env ops os0)))
           in s\<lparr>sh_heap := (sh_heap s)(a \<mapsto> (1, \<lparr>cell_poisoned = False, cell_st = st\<rparr>)), sh_reg := (sh_reg s)(fd \<mapsto> a)\<rparr>))"

definition close_turn :: "int \<Rightarrow> 'os shared \<Rightarrow> 'os shared" where
  "close_turn fd s =
     (case sh_reg s fd of None \<Rightarrow> s | Some a \<Rightarrow> arc_dec a (s\<lparr>sh_reg := (sh_reg s)(fd := None)\<rparr>))"

text \<open>\<open>insert\<close> of \<open>install_initiator_state\<close>: the old entry is dropped. The state was built at an
  earlier moment \<open>os0\<close>, before the registry was locked.\<close>

definition connect_turn :: "crypto_lib \<Rightarrow> 'os os_ops \<Rightarrow> 'os \<Rightarrow> int \<Rightarrow> int \<Rightarrow> 'os shared \<Rightarrow> 'os shared" where
  "connect_turn lib ops os0 fd a s =
     (let st = initiator_state lib (env ops os0); s' = close_turn fd s in
      s'\<lparr>sh_heap := (sh_heap s')(a \<mapsto> (1, \<lparr>cell_poisoned = False, cell_st = st\<rparr>)), sh_reg := (sh_reg s')(fd \<mapsto> a)\<rparr>)"

text \<open>The reloader clones all entries, then visits each under \<open>try_lock\<close>.\<close>

definition snapshot_turn :: "nat \<Rightarrow> int list \<Rightarrow> 'os shared \<Rightarrow> 'os shared" where
  "snapshot_turn t entries s = fold (arc_clone t) entries s"

definition retire_turn :: "u64 \<Rightarrow> int \<Rightarrow> 'os shared \<Rightarrow> 'os shared" where
  "retire_turn epoch a s =
     (case sh_heap s a of
        None \<Rightarrow> s
      | Some (n, c) \<Rightarrow>
          if \<not> cell_poisoned c \<and> config_epoch (cell_st c) \<noteq> epoch \<and> is_idle_for_config_reload (cell_st c) then
            (let (st, m) = fail_closed (cell_st c) (sh_metrics s)
             in s\<lparr>sh_heap := (sh_heap s)(a \<mapsto> (n, c\<lparr>cell_st := st\<lparr>config_epoch := epoch\<rparr>\<rparr>)), sh_metrics := m\<rparr>)
          else s)"

section \<open>Interleavings\<close>

text \<open>One step of some thread. A thread works on a clone it holds, under whatever number the descriptor
  of its call has.\<close>

inductive thread_step :: "crypto_lib \<Rightarrow> 'os os_ops \<Rightarrow> 'os shared \<Rightarrow> 'os shared \<Rightarrow> bool" for lib ops where
  look: "thread_step lib ops s (lookup_turn t fd s)"
| send: "(t, a) \<in> set (sh_held s) \<Longrightarrow> locked a (overlay_send_locked lib ops fd pt flags) (- 1) e s = Some (r, e', s') \<Longrightarrow>
    thread_step lib ops s s'"
| recv: "(t, a) \<in> set (sh_held s) \<Longrightarrow> locked a (overlay_recv_locked lib ops fd len flags) (- 1, []) e s = Some (q, e', s') \<Longrightarrow>
    thread_step lib ops s s'"
| finish: "(t, a) \<in> set (sh_held s) \<Longrightarrow> thread_step lib ops s (arc_drop t a s)"
| track: "sh_heap s a = None \<Longrightarrow> thread_step lib ops s (track_turn ops os0 fd a s)"
| connect: "sh_heap s a = None \<Longrightarrow> thread_step lib ops s (connect_turn lib ops os0 fd a s)"
| close: "thread_step lib ops s (close_turn fd s)"
| snapshot: "distinct entries \<Longrightarrow> set entries = ran (sh_reg s) \<Longrightarrow> thread_step lib ops s (snapshot_turn t entries s)"
| retire: "(t, a) \<in> set (sh_held s) \<Longrightarrow> thread_step lib ops s (retire_turn epoch a s)"

inductive shared_reachable :: "crypto_lib \<Rightarrow> 'os os_ops \<Rightarrow> 'os shared \<Rightarrow> bool" for lib ops where
  start: "shared_reachable lib ops \<lparr>sh_heap = Map.empty, sh_reg = Map.empty, sh_held = [], sh_metrics = RUNTIME_METRICS_new, sh_os = os\<rparr>"
| step: "shared_reachable lib ops s \<Longrightarrow> thread_step lib ops s s' \<Longrightarrow> shared_reachable lib ops s'"
| outside: "shared_reachable lib ops s \<Longrightarrow> shared_reachable lib ops (s\<lparr>sh_os := os\<rparr>)"

section \<open>The invariant\<close>

text \<open>The allocations seen as a registry, so that the lemmas on registries apply.\<close>

definition cells :: "(int \<rightharpoonup> nat \<times> cell) \<Rightarrow> int \<rightharpoonup> cell" where
  "cells h = map_option snd \<circ> h"

lemma cells_simps [simp]:
  "cells (h(a := x)) = (cells h)(a := map_option snd x)" "dom (cells h) = dom h" "cells h a = map_option snd (h a)"
  by (auto simp: cells_def)

lemma cells_same: "h a = Some (n, c) \<Longrightarrow> (cells h)(a \<mapsto> c) = cells h"
  by auto

definition refs :: "'os shared \<Rightarrow> int \<Rightarrow> nat" where
  "refs s a = (if a \<in> ran (sh_reg s) then 1 else 0) + length (filter (\<lambda>(t, b). b = a) (sh_held s))"

text \<open>The invariant while one reference, to \<open>d\<close>, has been taken out of its place but not yet given up. \<open>Q\<close> is
  what is known of the bytes queued in a session.\<close>

definition shared_owing :: "(bytes \<Rightarrow> bool) \<Rightarrow> int option \<Rightarrow> 'os shared \<Rightarrow> bool" where
  "shared_owing Q d s \<longleftrightarrow>
     finite (dom (sh_heap s)) \<and> inj_on (sh_reg s) (dom (sh_reg s)) \<and>
     (\<forall>a. refs s a + (if d = Some a then 1 else 0) = (case sh_heap s a of None \<Rightarrow> 0 | Some (n, c) \<Rightarrow> n)) \<and>
     (\<forall>a n c. sh_heap s a = Some (n, c) \<longrightarrow> 0 < n \<and> fd_inv (cell_st c) \<and> Q (tx_backlog (cell_st c))) \<and>
     active_sessions (sh_metrics s) = registry_load (cells (sh_heap s))"

abbreviation shared_inv :: "(bytes \<Rightarrow> bool) \<Rightarrow> 'os shared \<Rightarrow> bool" where
  "shared_inv Q \<equiv> shared_owing Q None"

lemma refs_heap [simp]:
  "refs (s\<lparr>sh_heap := h\<rparr>) = refs s" "refs (s\<lparr>sh_heap := h, sh_metrics := m\<rparr>) = refs s"
  "refs (s\<lparr>sh_heap := h, sh_metrics := m, sh_os := os\<rparr>) = refs s" "refs (s\<lparr>sh_os := os\<rparr>) = refs s"
  by (simp_all add: refs_def fun_eq_iff)

lemma owing_put:
  assumes "shared_owing Q d s" "sh_heap s a = Some (n, c)" "fd_inv (cell_st c')" "Q (tx_backlog (cell_st c'))"
    and "active_sessions m = active_sessions (sh_metrics s) - load (cell_st c) + load (cell_st c')"
  shows "shared_owing Q d (s\<lparr>sh_heap := (sh_heap s)(a \<mapsto> (n, c')), sh_metrics := m, sh_os := os\<rparr>)"
proof -
  have "registry_load ((cells (sh_heap s))(a \<mapsto> c')) = registry_load (cells (sh_heap s)) - load (cell_st c) + load (cell_st c')"
    using registry_load_upd [of "cells (sh_heap s)" a c'] assms(1,2) by (simp add: shared_owing_def cell_load_def)
  then show ?thesis using assms by (auto simp: shared_owing_def split: option.split)
qed

lemma arc_dec_inv:
  assumes "shared_owing Q (Some a) s"
  shows "shared_inv Q (arc_dec a s)"
proof -
  have o: "refs s b + (if a = b then 1 else 0) = (case sh_heap s b of None \<Rightarrow> 0 | Some (n, c) \<Rightarrow> n)" for b
    using assms by (simp add: shared_owing_def)
  then obtain n c where h: "sh_heap s a = Some (n, c)" and n: "n = refs s a + 1" using o [of a] by (auto split: option.split_asm)
  have o': "refs s b = (case sh_heap s b of None \<Rightarrow> 0 | Some (n, c) \<Rightarrow> n)" if "b \<noteq> a" for b using o [of b] that by simp
  show ?thesis
  proof (cases "n \<le> 1")
    case True
    have "registry_load ((cells (sh_heap s))(a := None)) = registry_load (cells (sh_heap s)) - load (cell_st c)"
      using registry_load_del [of "cells (sh_heap s)" a] assms h by (simp add: shared_owing_def cell_load_def)
    then show ?thesis using assms h n True
      by (auto simp: arc_dec_def shared_owing_def drop_gauge o' split: option.split)
  next
    case False
    then show ?thesis using assms h n cells_same [of "sh_heap s" a n c]
      by (auto simp: arc_dec_def shared_owing_def o' split: option.split)
  qed
qed

lemma arc_clone_inv:
  assumes "shared_inv Q s"
  shows "shared_inv Q (arc_clone t a s)"
proof (cases "sh_heap s a")
  case (Some x)
  obtain n c where x: "x = (n, c)" by fastforce
  then show ?thesis using assms Some cells_same [of "sh_heap s" a n c]
    by (auto simp: arc_clone_def shared_owing_def refs_def split: option.split)
qed (simp add: arc_clone_def assms)

lemma arc_drop_inv:
  assumes "shared_inv Q s" "(t, a) \<in> set (sh_held s)"
  shows "shared_inv Q (arc_drop t a s)"
proof -
  have l: "length (filter P (remove1 x xs)) + (if P x then 1 else 0) = length (filter P xs)" if "x \<in> set xs" for P and x :: "nat \<times> int" and xs
    using that by (induction xs) auto
  have "refs (s\<lparr>sh_held := remove1 (t, a) (sh_held s)\<rparr>) b + (if a = b then 1 else 0) = refs s b" for b
    using l [OF assms(2), of "\<lambda>(t, x). x = b"] by (auto simp: refs_def)
  then have "shared_owing Q (Some a) (s\<lparr>sh_held := remove1 (t, a) (sh_held s)\<rparr>)"
    using assms(1) by (simp add: shared_owing_def)
  then show ?thesis unfolding arc_drop_def by (rule arc_dec_inv)
qed

lemma close_turn_inv:
  assumes "shared_inv Q s"
  shows "shared_inv Q (close_turn fd s)"
proof (cases "sh_reg s fd")
  case (Some a)
  have inj: "inj_on (sh_reg s) (dom (sh_reg s))" using assms by (simp add: shared_owing_def)
  have ran: "ran ((sh_reg s)(fd := None)) = ran (sh_reg s) - {a}"
  proof -
    have "fd' = fd" if "sh_reg s fd' = Some a" for fd' using inj that Some by (metis domI inj_onD)
    moreover have "fd' \<noteq> fd" if "sh_reg s fd' = Some x" "x \<noteq> a" for fd' x using that Some by auto
    ultimately have "x \<in> ran ((sh_reg s)(fd := None)) \<longleftrightarrow> x \<in> ran (sh_reg s) \<and> x \<noteq> a" for x
      unfolding ran_def by (auto split: if_split_asm)
    then show ?thesis by blast
  qed
  moreover have "a \<in> ran (sh_reg s)" using Some by (auto simp: ran_def)
  ultimately have "refs (s\<lparr>sh_reg := (sh_reg s)(fd := None)\<rparr>) b + (if a = b then 1 else 0) = refs s b" for b
    by (auto simp: refs_def)
  moreover have "inj_on ((sh_reg s)(fd := None)) (dom ((sh_reg s)(fd := None)))" using inj by (auto simp: inj_on_def)
  ultimately have "shared_owing Q (Some a) (s\<lparr>sh_reg := (sh_reg s)(fd := None)\<rparr>)"
    using assms by (simp add: shared_owing_def)
  then show ?thesis using Some arc_dec_inv by (simp add: close_turn_def)
qed (simp add: close_turn_def assms)

lemma new_cell_inv:
  assumes "shared_inv Q s" "sh_heap s a = None" "sh_reg s fd = None"
    and "fd_inv st" "load st = 0" "Q (tx_backlog st)"
  shows "shared_inv Q (s\<lparr>sh_heap := (sh_heap s)(a \<mapsto> (1, \<lparr>cell_poisoned = False, cell_st = st\<rparr>)), sh_reg := (sh_reg s)(fd \<mapsto> a)\<rparr>)"
    (is "shared_inv Q ?s")
proof -
  have "refs s a = 0" using assms(1,2) by (simp add: shared_owing_def)
  then have a: "a \<notin> ran (sh_reg s)" "filter (\<lambda>(t, b). b = a) (sh_held s) = []" by (auto simp: refs_def split: if_split_asm)
  have ran: "ran ((sh_reg s)(fd \<mapsto> a)) = insert a (ran (sh_reg s))" using assms(3) by auto
  have r: "refs ?s b = (if b = a then 1 else refs s b)" for b using a ran by (auto simp: refs_def)
  have inj: "inj_on ((sh_reg s)(fd \<mapsto> a)) (dom ((sh_reg s)(fd \<mapsto> a)))"
    using assms(1) a(1) by (auto simp: shared_owing_def inj_on_def ran_def dom_def)
  have "registry_load ((cells (sh_heap s))(a \<mapsto> \<lparr>cell_poisoned = False, cell_st = st\<rparr>)) = registry_load (cells (sh_heap s))"
    using registry_load_upd [of "cells (sh_heap s)" a] assms(1,2,5) by (simp add: shared_owing_def cell_load_def)
  then show ?thesis using assms inj unfolding shared_owing_def r by (auto split: option.split)
qed

lemma close_turn_frees:
  assumes "shared_inv Q s" "sh_heap s a = None"
  shows "sh_heap (close_turn fd s) a = None" "sh_reg (close_turn fd s) fd = None"
  using assms by (auto simp: close_turn_def arc_dec_def split: option.split)

section \<open>Every step keeps the invariant\<close>

lemma locked_inv:
  assumes "shared_inv Q s" "locked a body err e s = Some (r, e', s')"
    and body: "\<And>v x v'. fd_inv (io_st v) \<Longrightarrow> body v = Some (x, v') \<Longrightarrow> Q (tx_backlog (io_st v)) \<Longrightarrow>
      balanced (io_st v, io_metrics v) (io_st v', io_metrics v') \<and> Q (tx_backlog (io_st v'))"
  shows "shared_inv Q s'"
proof -
  obtain n c where h: "sh_heap s a = Some (n, c)" using assms(2) by (auto simp: locked_def split: option.split_asm)
  show ?thesis
  proof (cases "cell_poisoned c")
    case True
    then show ?thesis using assms(1,2) h by (simp add: locked_def)
  next
    case False
    let ?v = "\<lparr>io_st = cell_st c, io_metrics = sh_metrics s, io_errno = e, io_os = sh_os s\<rparr>"
    from assms(2) h False obtain v' where v': "body ?v = Some (r, v')"
      "s' = s\<lparr>sh_heap := (sh_heap s)(a \<mapsto> (n, \<lparr>cell_poisoned = (r = Panic), cell_st = io_st v'\<rparr>)), sh_metrics := io_metrics v', sh_os := io_os v'\<rparr>"
      by (auto simp: locked_def split: option.split_asm prod.split_asm)
    have c: "fd_inv (io_st ?v)" "Q (tx_backlog (io_st ?v))" using assms(1) h by (auto simp: shared_owing_def)
    show ?thesis unfolding v'(2)
      by (rule owing_put [OF assms(1) h]) (use body [OF c(1) v'(1) c(2)] in \<open>auto simp: balanced_def\<close>)
  qed
qed

lemma track_turn_inv:
  assumes "shared_inv Q s" "sh_heap s a = None" "Q []"
  shows "shared_inv Q (track_turn ops os0 fd a s)"
proof (cases "sh_reg s fd")
  case None
  have "tx_backlog (FdState_responder c suite) = []" "tx_backlog (FdState_failed c suite) = []" for c suite
    by (simp_all add: FdState_new_defs)
  then show ?thesis using assms unfolding track_turn_def None Let_def option.case
    by (intro new_cell_inv [OF assms(1,2) None]) (auto simp: new_states_inv new_states_load split: sum.split)
qed (simp add: track_turn_def assms(1))

lemma connect_turn_inv:
  assumes "shared_inv Q s" "sh_heap s a = None" "Q (tx_backlog (initiator_state lib (env ops os0)))"
  shows "shared_inv Q (connect_turn lib ops os0 fd a s)"
  unfolding connect_turn_def Let_def
  by (rule new_cell_inv [OF close_turn_inv [OF assms(1)] close_turn_frees [OF assms(1,2)]])
    (use initiator_state_inv assms(3) in auto)

lemma retire_turn_inv:
  assumes "shared_inv Q s" "Q []"
  shows "shared_inv Q (retire_turn epoch a s)"
proof (cases "sh_heap s a")
  case (Some x)
  obtain n c where x: "x = (n, c)" by fastforce
  obtain st m where f: "fail_closed (cell_st c) (sh_metrics s) = (st, m)" by fastforce
  have b: "balanced (cell_st c, sh_metrics s) (st, m)" "tx_backlog st = []"
    using fail_closed_balanced [of "cell_st c" "sh_metrics s"] fail_closed_buffers [of "cell_st c" "sh_metrics s"] f by simp_all
  have "shared_inv Q (s\<lparr>sh_heap := (sh_heap s)(a \<mapsto> (n, c\<lparr>cell_st := st\<lparr>config_epoch := epoch\<rparr>\<rparr>)), sh_metrics := m, sh_os := sh_os s\<rparr>)"
    by (rule owing_put [OF assms(1)]) (use Some x b assms(2) in \<open>auto simp: balanced_def fd_inv_def load_def\<close>)
  then show ?thesis using assms(1) Some x f by (auto simp: retire_turn_def)
qed (simp add: retire_turn_def assms(1))

lemma thread_step_inv:
  assumes "thread_step lib ops s s'" "shared_inv Q s" "Q []" "\<And>os. Q (tx_backlog (initiator_state lib (env ops os)))"
    and keep: "\<And>fd v v'. evolves lib ops out fd v v' \<Longrightarrow> Q (tx_backlog (io_st v)) \<Longrightarrow> Q (tx_backlog (io_st v'))"
  shows "shared_inv Q s'"
  using assms(1)
proof cases
  case (look t fd)
  then show ?thesis using arc_clone_inv [OF assms(2)] assms(2) by (auto simp: lookup_turn_def split: option.split)
next
  case (send t a fd pt flags e r e')
  show ?thesis
    by (rule locked_inv [OF assms(2) send(2)]) (use overlay_send_evolves [where out = out] keep in \<open>blast intro: evolves_def [THEN iffD1, THEN conjunct1]\<close>)
next
  case (recv t a fd len flags e q e')
  show ?thesis
    by (rule locked_inv [OF assms(2) recv(2)]) (use overlay_recv_evolves [where out = out] keep in \<open>blast intro: evolves_def [THEN iffD1, THEN conjunct1]\<close>)
next
  case (snapshot entries t)
  have "shared_inv Q (fold (arc_clone t) xs x)" if "shared_inv Q x" for xs and x :: "'a shared"
    using that by (induction xs arbitrary: x) (auto simp: arc_clone_inv)
  then show ?thesis using snapshot assms(2) by (simp add: snapshot_turn_def)
qed (use assms(2-4) in \<open>auto intro: arc_drop_inv track_turn_inv connect_turn_inv close_turn_inv retire_turn_inv\<close>)

text \<open>Bytes that finish a stream of protected bytes.\<close>

definition tail_protected :: "crypto_lib \<Rightarrow> bytes \<Rightarrow> bool" where
  "tail_protected lib bs \<longleftrightarrow> (\<exists>p. protected lib (p @ bs))"

lemma tail_protected_Nil [simp]: "tail_protected lib []"
  by (auto simp: tail_protected_def intro: exI [of _ "[]"] protected_Nil)

text \<open>The initial states queue nothing but a framed handshake message.\<close>

lemma initiator_state_protected:
  assumes "length (ctx_nonce c) = FALLBACK_NONCE_LEN"
  shows "protected lib (tx_backlog (initiator_state lib c))"
proof -
  have "protected lib (tx_backlog (build_pqc_initiator lib c suite))" for suite
    by (auto simp: build_pqc_initiator_def FdState_new_defs protected_Nil split: sum.split
        intro: protected_single handshake_message.intros)
  moreover have "protected lib (tx_backlog (build_fallback_initiator c suite))" for suite
    by (auto simp: build_fallback_initiator_def FdState_new_defs protected_Nil split: sum.split option.split prod.split
        intro: protected_single handshake_message.fallback_hello [OF assms])
  ultimately show ?thesis
    by (auto simp: initiator_state_def Let_def FdState_new_defs protected_Nil split: sum.split AvailabilityPosture.split)
qed

text \<open>A session function keeps its queue the end of a protected stream, and adds to the wire only bytes of
  that stream.\<close>

lemma evolves_tail:
  assumes "evolves lib ops out fd v v'" "wire_log ops out" "tail_protected lib (tx_backlog (io_st v))"
  shows "tail_protected lib (tx_backlog (io_st v'))"
    and "\<exists>z p q. out fd (io_os v') = out fd (io_os v) @ z \<and> protected lib (p @ z @ q)"
proof -
  from assms(1,2) obtain x y z where x: "protected lib x" "wire_of out fd v @ x = wire_of out fd v' @ y"
    "y \<noteq> [] \<longrightarrow> phase (io_st v') = Failed" and z: "out fd (io_os v') = out fd (io_os v) @ z" and inv: "fd_inv (io_st v')"
    by (auto simp: evolves_def emits_def extends_def balanced_def)
  obtain p where p: "protected lib (p @ tx_backlog (io_st v))" using assms(3) by (auto simp: tail_protected_def)
  have "tx_backlog (io_st v) @ x = z @ tx_backlog (io_st v') @ y" using x(2) z by (simp add: wire_of_def)
  with protected_append [OF x(1) p] have all: "protected lib (p @ z @ tx_backlog (io_st v') @ y)" by simp
  then show "\<exists>z p q. out fd (io_os v') = out fd (io_os v) @ z \<and> protected lib (p @ z @ q)" using z by blast
  show "tail_protected lib (tx_backlog (io_st v'))"
  proof (cases "y = []")
    case True
    then show ?thesis using all unfolding tail_protected_def by (metis append.right_neutral append.assoc)
  next
    case False
    then have "tx_backlog (io_st v') = []" using x(3) inv by (simp add: fd_inv_def)
    then show ?thesis by simp
  qed
qed

text \<open>What a step may do to the streams of the descriptors.\<close>

definition streams_protected :: "crypto_lib \<Rightarrow> (int \<Rightarrow> 'os \<Rightarrow> bytes) \<Rightarrow> 'os shared \<Rightarrow> 'os shared \<Rightarrow> bool" where
  "streams_protected lib out s s' \<longleftrightarrow>
     (\<forall>fd. \<exists>z p q. out fd (sh_os s') = out fd (sh_os s) @ z \<and> protected lib (p @ z @ q))"

lemma streams_same: "sh_os s' = sh_os s \<Longrightarrow> streams_protected lib out s s'"
  unfolding streams_protected_def by (metis append_Nil2 protected_Nil append_Nil)

lemma locked_streams:
  assumes "shared_inv (tail_protected lib) s" "locked a body err e s = Some (r, e', s')" "wire_log ops out"
    and body: "\<And>v x v'. fd_inv (io_st v) \<Longrightarrow> body v = Some (x, v') \<Longrightarrow> evolves lib ops out fd v v'"
  shows "streams_protected lib out s s'"
proof -
  obtain n c where h: "sh_heap s a = Some (n, c)" using assms(2) by (auto simp: locked_def split: option.split_asm)
  show ?thesis
  proof (cases "cell_poisoned c")
    case True
    then show ?thesis using assms(1,2) h by (simp add: locked_def streams_same)
  next
    case False
    let ?v = "\<lparr>io_st = cell_st c, io_metrics = sh_metrics s, io_errno = e, io_os = sh_os s\<rparr>"
    from assms(2) h False obtain v' where v': "body ?v = Some (r, v')" "sh_os s' = io_os v'"
      by (auto simp: locked_def split: option.split_asm prod.split_asm)
    have c: "fd_inv (io_st ?v)" "tail_protected lib (tx_backlog (io_st ?v))" using assms(1) h by (auto simp: shared_owing_def)
    have ev: "evolves lib ops out fd ?v v'" by (rule body [OF c(1) v'(1)])
    have "\<exists>z p q. out fd' (sh_os s') = out fd' (sh_os s) @ z \<and> protected lib (p @ z @ q)" for fd'
    proof (cases "fd' = fd")
      case True
      then show ?thesis using evolves_tail(2) [OF ev assms(3) c(2)] v'(2) by simp
    next
      case False
      then have "out fd' (sh_os s') = out fd' (sh_os s) @ []" using ev assms(3) v'(2) by (simp add: evolves_def emits_def)
      then show ?thesis using protected_Nil by (metis append_Nil)
    qed
    then show ?thesis by (simp add: streams_protected_def)
  qed
qed

lemma arc_os [simp]: "sh_os (arc_clone t a s) = sh_os s" "sh_os (arc_dec a s) = sh_os s" "sh_os (arc_drop t a s) = sh_os s"
    "sh_os (close_turn fd s) = sh_os s" "sh_os (snapshot_turn t entries s) = sh_os s"
proof -
  show clone: "sh_os (arc_clone t a s) = sh_os s" for t a and s :: "'a shared"
    by (auto simp: arc_clone_def split: option.split)
  show dec: "sh_os (arc_dec a s) = sh_os s" for a and s :: "'a shared"
    by (auto simp: arc_dec_def split: option.split)
  show "sh_os (arc_drop t a s) = sh_os s" "sh_os (close_turn fd s) = sh_os s"
    by (auto simp: arc_drop_def close_turn_def dec split: option.split)
  show "sh_os (snapshot_turn t entries s) = sh_os s"
    unfolding snapshot_turn_def by (induction entries arbitrary: s) (simp_all add: clone)
qed

lemma step_streams:
  assumes "thread_step lib ops s s'" "shared_inv (tail_protected lib) s" "wire_log ops out"
  shows "streams_protected lib out s s'"
  using assms(1)
proof cases
  case (send t a fd pt flags e r e')
  show ?thesis by (rule locked_streams [OF assms(2) send(2) assms(3)]) (rule overlay_send_evolves)
next
  case (recv t a fd len flags e q e')
  show ?thesis by (rule locked_streams [OF assms(2) recv(2) assms(3)]) (rule overlay_recv_evolves)
qed (auto intro!: streams_same simp: lookup_turn_def track_turn_def connect_turn_def retire_turn_def Let_def
      split: option.split prod.split)

lemma reachable_shared_inv:
  assumes "shared_reachable lib ops s" "Q []" "\<And>os. Q (tx_backlog (initiator_state lib (env ops os)))"
    and keep: "\<And>fd v v'. evolves lib ops out fd v v' \<Longrightarrow> Q (tx_backlog (io_st v)) \<Longrightarrow> Q (tx_backlog (io_st v'))"
  shows "shared_inv Q s"
  using assms(1)
proof induction
  case (start os)
  have "refs \<lparr>sh_heap = Map.empty, sh_reg = Map.empty, sh_held = [], sh_metrics = RUNTIME_METRICS_new, sh_os = os\<rparr> a = 0" for a
    by (simp add: refs_def)
  then show ?case by (simp add: shared_owing_def registry_load_def RUNTIME_METRICS_new_def)
next
  case (step s s')
  show ?case by (rule thread_step_inv [OF step.hyps(2) step.IH assms(2,3) keep])
next
  case (outside s os)
  then show ?case by (simp add: shared_owing_def refs_def)
qed

lemma reachable_shared: "shared_reachable lib ops s \<Longrightarrow> shared_inv (\<lambda>_. True) s"
  by (rule reachable_shared_inv [where out = "\<lambda>_ _. []"]) simp_all

lemma reachable_wire:
  assumes "shared_reachable lib ops s" "wire_log ops out"
  shows "shared_inv (tail_protected lib) s"
proof (rule reachable_shared_inv [OF assms(1)])
  show "tail_protected lib (tx_backlog (initiator_state lib (env ops os)))" for os
    using initiator_state_protected [of "env ops os" lib] assms(2) unfolding wire_log_def tail_protected_def by (metis append_Nil)
qed (use evolves_tail(1) assms(2) in auto)

section \<open>Properties\<close>

lemma refs_pos: "0 < refs s a \<longleftrightarrow> a \<in> ran (sh_reg s) \<or> a \<in> snd ` set (sh_held s)"
proof -
  have "0 < length (filter (\<lambda>(t, b). b = a) l) \<longleftrightarrow> a \<in> snd ` set l" for l :: "(nat \<times> int) list" by (induction l) auto
  then show ?thesis unfolding refs_def by simp
qed

text \<open>C15. Sessions shared between threads are never lost, dangling or counted twice. However the
  critical sections of calls, closes, reconnects and reloads interleave, a session state exists
  exactly as long as the registry or a thread refers to it, the active-session gauge counts exactly
  the existing states that hold traffic keys, and once no call is in flight these are the registered
  ones.\<close>

theorem shared_sessions_accounted:
  assumes "shared_reachable lib ops s"
  shows "(\<forall>a. sh_heap s a \<noteq> None \<longleftrightarrow> a \<in> ran (sh_reg s) \<or> a \<in> snd ` set (sh_held s)) \<and>
    active_sessions (sh_metrics s) = int (card {a. \<exists>n c. sh_heap s a = Some (n, c) \<and> is_Active (phase (cell_st c))}) \<and>
    (sh_held s = [] \<longrightarrow> active_sessions (sh_metrics s) =
       int (card {fd. \<exists>a n c. sh_reg s fd = Some a \<and> sh_heap s a = Some (n, c) \<and> is_Active (phase (cell_st c))}))"
proof -
  have inv: "shared_inv (\<lambda>_. True) s" by (rule reachable_shared [OF assms])
  let ?A = "{a. \<exists>n c. sh_heap s a = Some (n, c) \<and> is_Active (phase (cell_st c))}"
  let ?F = "{fd. \<exists>a n c. sh_reg s fd = Some a \<and> sh_heap s a = Some (n, c) \<and> is_Active (phase (cell_st c))}"
  have live: "sh_heap s a \<noteq> None \<longleftrightarrow> a \<in> ran (sh_reg s) \<or> a \<in> snd ` set (sh_held s)" for a
  proof -
    have r: "refs s a = (case sh_heap s a of None \<Rightarrow> 0 | Some (n, c) \<Rightarrow> n)" using inv by (simp add: shared_owing_def)
    have "0 < n" if "sh_heap s a = Some (n, c)" for n c using inv that by (simp add: shared_owing_def)
    then have "sh_heap s a \<noteq> None \<longleftrightarrow> 0 < refs s a" unfolding r by (cases "sh_heap s a") auto
    then show ?thesis by (simp only: refs_pos)
  qed
  have eq: "{a. \<exists>c. cells (sh_heap s) a = Some c \<and> is_Active (phase (cell_st c))} = ?A" by auto
  have gauge: "active_sessions (sh_metrics s) = int (card ?A)"
  proof -
    have "fd_inv (cell_st c)" if "cells (sh_heap s) a = Some c" for a c using inv that by (auto simp: shared_owing_def)
    moreover have "finite (dom (cells (sh_heap s)))" "active_sessions (sh_metrics s) = registry_load (cells (sh_heap s))"
      using inv by (simp_all add: shared_owing_def)
    ultimately show ?thesis using registry_load_card [of "cells (sh_heap s)"] eq by simp
  qed
  have "card ?A = card ?F" if "sh_held s = []"
  proof -
    have "a \<in> (\<lambda>fd. the (sh_reg s fd)) ` ?F" if "a \<in> ?A" for a
    proof -
      have "a \<in> ran (sh_reg s)" using that live [of a] \<open>sh_held s = []\<close> by auto
      then obtain fd where "sh_reg s fd = Some a" by (auto simp: ran_def)
      then show ?thesis using that by (intro image_eqI [of _ _ fd]) auto
    qed
    then have img: "(\<lambda>fd. the (sh_reg s fd)) ` ?F = ?A" by auto
    have "inj_on (\<lambda>fd. the (sh_reg s fd)) ?F"
    proof (rule inj_onI)
      fix x y assume "x \<in> ?F" "y \<in> ?F" "the (sh_reg s x) = the (sh_reg s y)"
      moreover have "inj_on (sh_reg s) (dom (sh_reg s))" using inv by (simp add: shared_owing_def)
      ultimately show "x = y" by (intro inj_onD [of "sh_reg s" "dom (sh_reg s)"]) auto
    qed
    from card_image [OF this] img show ?thesis by simp
  qed
  then show ?thesis using live gauge by simp
qed


section \<open>Calls that are not interrupted\<close>

text \<open>The process as the sequential model of the hooks sees it.\<close>

definition process_of :: "bool \<Rightarrow> mem \<Rightarrow> int \<Rightarrow> 'os shared \<Rightarrow> 'os world" where
  "process_of i mem e s =
     \<lparr>w_interpose = i, w_registry = (\<lambda>fd. Option.bind (sh_reg s fd) (cells (sh_heap s))), w_metrics = sh_metrics s,
      w_errno = e, w_mem = mem, w_os = sh_os s\<rparr>"

lemma process_entry:
  assumes "shared_inv Q s" "sh_reg s fd = Some a"
  obtains n c where "sh_heap s a = Some (n, c)" "w_registry (process_of i mem e s) fd = Some c" "0 < n"
proof -
  have "0 < refs s a" using assms(2) by (auto simp: refs_def ran_def)
  then obtain n c where "sh_heap s a = Some (n, c)" "0 < n"
    using assms(1) by (auto simp: shared_owing_def split: option.split_asm)
  then show ?thesis using that assms(2) by (simp add: process_of_def)
qed

lemma entry_unique:
  assumes "shared_inv Q s" "sh_reg s fd = Some a" "fd' \<noteq> fd"
  shows "sh_reg s fd' \<noteq> Some a"
proof
  assume "sh_reg s fd' = Some a"
  moreover have "inj_on (sh_reg s) (dom (sh_reg s))" using assms(1) by (simp add: shared_owing_def)
  ultimately have "fd' = fd" using assms(2) by (intro inj_onD [of "sh_reg s" "dom (sh_reg s)"]) auto
  with assms(3) show False by simp
qed

lemma session_refines:
  assumes "shared_inv Q s" "sh_reg s fd = Some a"
  shows "with_session fd body err (process_of i mem e s) =
    map_option (\<lambda>(r, e', s'). (r, process_of i mem e' (arc_drop t a s'))) (locked a body err e (lookup_turn t fd s))"
proof -
  obtain n c where h: "sh_heap s a = Some (n, c)" "w_registry (process_of i mem e s) fd = Some c" "0 < n"
    by (rule process_entry [OF assms])
  note u = entry_unique [OF assms]
  have look: "lookup_turn t fd s = s\<lparr>sh_heap := (sh_heap s)(a \<mapsto> (n + 1, c)), sh_held := (t, a) # sh_held s\<rparr>"
    using assms(2) h(1) by (simp add: lookup_turn_def arc_clone_def)
  have drop: "process_of i mem e' (arc_drop t a (s\<lparr>sh_heap := (sh_heap s)(a \<mapsto> (Suc n, c')), sh_held := (t, a) # sh_held s,
      sh_metrics := m, sh_os := os\<rparr>)) =
    (process_of i mem e s)\<lparr>w_registry := (w_registry (process_of i mem e s))(fd \<mapsto> c'), w_metrics := m, w_errno := e', w_os := os\<rparr>" for c' m os e'
  proof -
    have "Option.bind (sh_reg s fd') ((cells (sh_heap s))(a \<mapsto> c')) =
        (if fd' = fd then Some c' else Option.bind (sh_reg s fd') (cells (sh_heap s)))" for fd'
      using u [of fd'] assms(2) by (cases "sh_reg s fd'") auto
    then show ?thesis using h(3) by (auto simp: process_of_def arc_drop_def arc_dec_def fun_eq_iff)
  qed
  let ?s = "\<lambda>c' m os. s\<lparr>sh_heap := (sh_heap s)(a \<mapsto> (Suc n, c')), sh_held := (t, a) # sh_held s, sh_metrics := m, sh_os := os\<rparr>"
  have look': "lookup_turn t fd s = ?s c (sh_metrics s) (sh_os s)" using look by simp
  let ?v = "\<lparr>io_st = cell_st c, io_metrics = sh_metrics s, io_errno = e, io_os = sh_os s\<rparr>"
  have run: "locked a body err e (lookup_turn t fd s) =
      (if cell_poisoned c then Some (Ret err, EIO, ?s c (sh_metrics s) (sh_os s))
       else map_option (\<lambda>(r, v). (r, io_errno v, ?s \<lparr>cell_poisoned = (r = Panic), cell_st = io_st v\<rparr> (io_metrics v) (io_os v))) (body ?v))"
    unfolding look' by (simp add: locked_def split: option.split)
  have seq: "with_session fd body err (process_of i mem e s) =
      (if cell_poisoned c then Some (Ret err, (process_of i mem e s)\<lparr>w_errno := EIO\<rparr>)
       else map_option (\<lambda>(r, v). (r, (process_of i mem e s)\<lparr>w_registry := (w_registry (process_of i mem e s))(fd \<mapsto>
           \<lparr>cell_poisoned = (r = Panic), cell_st = io_st v\<rparr>), w_metrics := io_metrics v, w_errno := io_errno v, w_os := io_os v\<rparr>)) (body ?v))"
    using h(2) by (simp add: with_session_def lookup_def process_of_def split: option.split)
  have idem: "(w_registry (process_of i mem e s))(fd \<mapsto> c) = w_registry (process_of i mem e s)" using h(2) by (simp add: fun_upd_idem)
  have pois: "process_of i mem EIO (arc_drop t a (?s c (sh_metrics s) (sh_os s))) = (process_of i mem e s)\<lparr>w_errno := EIO\<rparr>"
    unfolding drop idem by (simp add: process_of_def)
  show ?thesis
  proof (cases "cell_poisoned c")
    case True
    then show ?thesis unfolding run seq by (simp only: if_True option.map prod.case pois)
  next
    case False
    then show ?thesis unfolding run seq by (simp only: if_False option.map_comp comp_def case_prod_unfold fst_conv snd_conv drop)
  qed
qed

lemma close_refines:
  assumes "shared_inv Q s" "sh_held s = []"
  shows "process_of i mem e (close_turn fd s) =
    (process_of i mem e s)\<lparr>w_registry := (w_registry (process_of i mem e s))(fd := None),
      w_metrics := drop_cell (w_registry (process_of i mem e s) fd) (w_metrics (process_of i mem e s))\<rparr>"
proof (cases "sh_reg s fd")
  case None
  then show ?thesis by (auto simp: process_of_def close_turn_def drop_cell_def fun_eq_iff)
next
  case (Some a)
  obtain n c where h: "sh_heap s a = Some (n, c)" "w_registry (process_of i mem e s) fd = Some c" "0 < n"
    by (rule process_entry [OF assms(1) Some])
  note u = entry_unique [OF assms(1) Some]
  have "refs s a \<le> 1" using assms(2) by (simp add: refs_def)
  moreover have "refs s a = (case sh_heap s a of None \<Rightarrow> 0 | Some (n, c) \<Rightarrow> n)" using assms(1) by (simp add: shared_owing_def)
  ultimately have n: "n \<le> 1" using h(1) by simp
  have "Option.bind (((sh_reg s)(fd := None)) fd') ((cells (sh_heap s))(a := None)) =
      (if fd' = fd then None else Option.bind (sh_reg s fd') (cells (sh_heap s)))" for fd'
    using u [of fd'] by (cases "sh_reg s fd'") auto
  then show ?thesis using Some h n
    by (auto simp: process_of_def close_turn_def arc_dec_def drop_cell_def fun_eq_iff)
qed

lemma insert_refines:
  assumes "shared_inv Q s" "sh_heap s a = None" "sh_reg s fd = None"
  shows "process_of i mem e (s\<lparr>sh_heap := (sh_heap s)(a \<mapsto> (1, c)), sh_reg := (sh_reg s)(fd \<mapsto> a)\<rparr>) =
    (process_of i mem e s)\<lparr>w_registry := (w_registry (process_of i mem e s))(fd \<mapsto> c)\<rparr>"
proof -
  have "refs s a = 0" using assms(1,2) by (simp add: shared_owing_def)
  then have "sh_reg s fd' \<noteq> Some a" for fd' by (auto simp: refs_def ran_def split: if_split_asm)
  then have "Option.bind (((sh_reg s)(fd \<mapsto> a)) fd') ((cells (sh_heap s))(a \<mapsto> c)) =
      (if fd' = fd then Some c else Option.bind (sh_reg s fd') (cells (sh_heap s)))" for fd'
    by (cases "sh_reg s fd'") auto
  then show ?thesis by (auto simp: process_of_def fun_eq_iff)
qed

lemma connect_refines:
  assumes "shared_inv Q s" "sh_held s = []" "sh_heap s a = None"
  shows "process_of i mem e (connect_turn lib ops (sh_os s) fd a s) = install_initiator_state lib ops fd (process_of i mem e s)"
  using insert_refines [OF close_turn_inv [OF assms(1)] close_turn_frees [OF assms(1,3)]] close_refines [OF assms(1,2)]
  by (simp add: connect_turn_def install_initiator_state_def Let_def process_of_def)

lemma track_refines:
  assumes "shared_inv Q s" "sh_heap s a = None" "sys_so_type ops fd (sh_os s) = SysOk SOCK_STREAM"
  shows "ensure_tracked ops fd (process_of i mem e s) = (True, process_of i mem e (track_turn ops (sh_os s) fd a s))"
proof (cases "sh_reg s fd")
  case None
  then show ?thesis using insert_refines [OF assms(1,2) None] assms(3)
    by (simp add: ensure_tracked_def track_turn_def is_stream_socket_def Let_def process_of_def cong: sum.case_cong)
next
  case (Some b)
  obtain n c where "sh_heap s b = Some (n, c)" "w_registry (process_of i mem e s) fd = Some c" "0 < n"
    by (rule process_entry [OF assms(1) Some])
  then show ?thesis using Some by (simp add: ensure_tracked_def track_turn_def)
qed

text \<open>C27. A call that no other thread interrupts does exactly what the sequential model of the process says.
  With no call in flight, looking a session up, working on it under its lock and dropping the clone
  is \<open>with_session\<close>; removing the entry of a descriptor, inserting a fresh session for a connection and
  tracking a new stream socket are the registry updates of the hooks.\<close>

theorem uninterrupted_calls_refine:
  assumes "shared_reachable lib ops s" and "sh_held s = []" and "sh_heap s a' = None"
    and "sys_so_type ops fd (sh_os s) = SysOk SOCK_STREAM"
  shows "(\<forall>a. sh_reg s fd = Some a \<longrightarrow>
      with_session fd body err (process_of i mem e s) =
        map_option (\<lambda>(r, e', s'). (r, process_of i mem e' (arc_drop t a s'))) (locked a body err e (lookup_turn t fd s))) \<and>
    hook_close libc fd (process_of True mem e s) =
      ffi_guard (Some (call_real libc (CClose fd) (process_of True mem e (close_turn fd s)))) \<and>
    install_initiator_state lib ops fd (process_of i mem e s) = process_of i mem e (connect_turn lib ops (sh_os s) fd a' s) \<and>
    ensure_tracked ops fd (process_of i mem e s) = (True, process_of i mem e (track_turn ops (sh_os s) fd a' s))"
proof -
  note inv = reachable_shared [OF assms(1)]
  have "hook_close libc fd (process_of True mem e s) =
      ffi_guard (Some (call_real libc (CClose fd) (process_of True mem e (close_turn fd s))))"
    unfolding close_refines [OF inv assms(2)] by (simp add: hook_close_def process_of_def)
  moreover have "with_session fd body err (process_of i mem e s) =
      map_option (\<lambda>(r, e', s'). (r, process_of i mem e' (arc_drop t a s'))) (locked a body err e (lookup_turn t fd s))"
    if "sh_reg s fd = Some a" for a by (rule session_refines [OF inv that])
  ultimately show ?thesis using connect_refines [OF inv assms(2,3)] track_refines [OF inv assms(3,4)] by simp
qed

section \<open>Instances\<close>

text \<open>A thread has looked up a session that another thread then removed by closing the descriptor.\<close>

definition toy_start :: "toy_os shared" where
  "toy_start = \<lparr>sh_heap = Map.empty, sh_reg = Map.empty, sh_held = [], sh_metrics = RUNTIME_METRICS_new, sh_os = io_os toy_w\<rparr>"

definition toy_raced :: "toy_os shared" where
  "toy_raced = close_turn 3 (lookup_turn 1 3 (track_turn (toy_ops toy_c) (sh_os toy_start) 3 7 toy_start))"

lemma toy_raced_reachable: "shared_reachable toy_lib (toy_ops toy_c) toy_raced"
proof -
  have "shared_reachable toy_lib (toy_ops toy_c) toy_start" unfolding toy_start_def by (rule shared_reachable.start)
  moreover have "sh_heap toy_start 7 = None" by (simp add: toy_start_def)
  ultimately show ?thesis unfolding toy_raced_def
    by (intro shared_reachable.step [OF _ thread_step.close] shared_reachable.step [OF _ thread_step.look]
        shared_reachable.step [OF _ thread_step.track])
qed

lemma toy_raced_state: "sh_reg toy_raced = Map.empty" "sh_held toy_raced = [(1, 7)]" "\<exists>c. sh_heap toy_raced 7 = Some (1, c) \<and> \<not> cell_poisoned c"
  by (auto simp: toy_raced_def toy_start_def track_turn_def lookup_turn_def close_turn_def arc_clone_def arc_dec_def Let_def)

theorem shared_sessions_accounted_witness:
  "sh_reg toy_raced = Map.empty \<and> sh_heap toy_raced 7 \<noteq> None \<and>
    active_sessions (sh_metrics toy_raced) = int (card {a. \<exists>n c. sh_heap toy_raced a = Some (n, c) \<and> is_Active (phase (cell_st c))})"
  using shared_sessions_accounted [OF toy_raced_reachable] toy_raced_state by auto


theorem uninterrupted_calls_refine_witness:
  "ensure_tracked (toy_ops toy_c) 3 (process_of True (w_mem toy_world) 0 toy_start) =
    (True, process_of True (w_mem toy_world) 0 (track_turn (toy_ops toy_c) (sh_os toy_start) 3 7 toy_start))"
proof -
  have r: "shared_reachable toy_lib (toy_ops toy_c) toy_start" unfolding toy_start_def by (rule shared_reachable.start)
  have "sh_held toy_start = []" "sh_heap toy_start 7 = None" by (simp_all add: toy_start_def)
  from uninterrupted_calls_refine [OF r this toy_stream, where i = True and mem = "w_mem toy_world" and e = 0 and t = 1
      and libc = "toy_libc (SysErr EBADF)" and err = "- 1" and body = "overlay_send_locked toy_lib (toy_ops toy_c) 3 [1] 0"]
  show ?thesis by (elim conjE)
qed

end
