(* ===== verification/Process_Statics.thy ===== *)
theory Process_Statics
  imports Interposition "HOL-Library.Monad_Syntax"
begin

text \<open>
  The process-wide statics of the preloaded library: the table of original functions (\<open>REAL\<close>, filled on
  first use from the dynamic linker), the session registry (\<open>REGISTRY\<close>, whose initialiser starts the
  configuration reloader), the guard that starts the reloader once (\<open>START_RELOADER\<close>), and the errno
  location of the thread. Every access is a step; the linker's answers, the outcome of starting a thread
  and the health of the registry lock are arguments of the step.
\<close>

section \<open>The original functions\<close>

text \<open>\<open>'p\<close> is the type of function pointers; \<open>dlsym\<close> answers for \<open>RTLD_NEXT\<close>, \<open>None\<close> being the null pointer.\<close>

record 'p RealSyms =
  sym_connect :: 'p
  sym_send :: 'p
  sym_sendto :: 'p
  sym_recv :: 'p
  sym_write :: 'p
  sym_read :: 'p
  sym_writev :: 'p
  sym_readv :: 'p
  sym_sendmsg :: 'p
  sym_recvmsg :: 'p
  sym_sendmmsg :: 'p
  sym_sendfile :: 'p
  sym_sendfile64 :: 'p
  sym_splice :: 'p
  sym_close :: 'p

type_synonym 'p linker = "string \<Rightarrow> 'p option"

text \<open>\<open>resolve\<close> takes the name with its terminating zero byte and aborts the process (\<open>None\<close>) on a null
  answer; the linker reads the name up to that byte.\<close>

definition c_str :: "string \<Rightarrow> string" where
  "c_str name = takeWhile (\<lambda>c. c \<noteq> CHR 0x00) name"

definition resolve_symbol :: "'p linker \<Rightarrow> string \<Rightarrow> 'p option" where
  "resolve_symbol dlsym name = dlsym (c_str name)"

definition real_init :: "'p linker \<Rightarrow> 'p RealSyms option" where
  "real_init dlsym = do {
     a \<leftarrow> resolve_symbol dlsym (''connect'' @ [CHR 0x00]);
     b \<leftarrow> resolve_symbol dlsym (''send'' @ [CHR 0x00]);
     c \<leftarrow> resolve_symbol dlsym (''sendto'' @ [CHR 0x00]);
     d \<leftarrow> resolve_symbol dlsym (''recv'' @ [CHR 0x00]);
     e \<leftarrow> resolve_symbol dlsym (''write'' @ [CHR 0x00]);
     f \<leftarrow> resolve_symbol dlsym (''read'' @ [CHR 0x00]);
     g \<leftarrow> resolve_symbol dlsym (''writev'' @ [CHR 0x00]);
     h \<leftarrow> resolve_symbol dlsym (''readv'' @ [CHR 0x00]);
     i \<leftarrow> resolve_symbol dlsym (''sendmsg'' @ [CHR 0x00]);
     j \<leftarrow> resolve_symbol dlsym (''recvmsg'' @ [CHR 0x00]);
     k \<leftarrow> resolve_symbol dlsym (''sendmmsg'' @ [CHR 0x00]);
     l \<leftarrow> resolve_symbol dlsym (''sendfile'' @ [CHR 0x00]);
     m \<leftarrow> resolve_symbol dlsym (''sendfile64'' @ [CHR 0x00]);
     n \<leftarrow> resolve_symbol dlsym (''splice'' @ [CHR 0x00]);
     p \<leftarrow> resolve_symbol dlsym (''close'' @ [CHR 0x00]);
     Some \<lparr>sym_connect = a, sym_send = b, sym_sendto = c, sym_recv = d, sym_write = e, sym_read = f,
       sym_writev = g, sym_readv = h, sym_sendmsg = i, sym_recvmsg = j, sym_sendmmsg = k,
       sym_sendfile = l, sym_sendfile64 = m, sym_splice = n, sym_close = p\<rparr>
   }"

text \<open>The field a hook calls through: \<open>(real().connect)(..)\<close> and so on.\<close>

fun real_function :: "'p RealSyms \<Rightarrow> libcall \<Rightarrow> 'p" where
  "real_function t (CConnect _ _ _) = sym_connect t"
| "real_function t (CSend _ _ _ _) = sym_send t"
| "real_function t (CSendto _ _ _ _ _ _) = sym_sendto t"
| "real_function t (CRecv _ _ _ _) = sym_recv t"
| "real_function t (CWrite _ _ _) = sym_write t"
| "real_function t (CRead _ _ _) = sym_read t"
| "real_function t (CWritev _ _ _) = sym_writev t"
| "real_function t (CReadv _ _ _) = sym_readv t"
| "real_function t (CSendmsg _ _ _) = sym_sendmsg t"
| "real_function t (CRecvmsg _ _ _) = sym_recvmsg t"
| "real_function t (CSendmmsg _ _ _ _) = sym_sendmmsg t"
| "real_function t (CSendfile _ _ _ _) = sym_sendfile t"
| "real_function t (CSendfile64 _ _ _ _) = sym_sendfile64 t"
| "real_function t (CSplice _ _ _ _ _ _) = sym_splice t"
| "real_function t (CClose _) = sym_close t"

section \<open>Statics and their accesses\<close>

record 'p statics =
  REAL :: "'p RealSyms option"
  REGISTRY :: "(int \<rightharpoonup> cell) option"
  START_RELOADER :: bool
  reloaders :: nat
  aborted :: bool

text \<open>\<open>real\<close>: \<open>get_or_init\<close> of the table.\<close>

definition real_syms :: "'p linker \<Rightarrow> 'p statics \<Rightarrow> 'p RealSyms option \<times> 'p statics" where
  "real_syms dlsym s =
     (case REAL s of
        Some t \<Rightarrow> (Some t, s)
      | None \<Rightarrow>
          (case real_init dlsym of
             None \<Rightarrow> (None, s\<lparr>aborted := True\<rparr>)
           | Some t \<Rightarrow> (Some t, s\<lparr>REAL := Some t\<rparr>)))"

text \<open>\<open>spawned\<close> says whether the operating system could start the thread. The wrapper of the crate root
  does the same.\<close>

definition start_config_hot_reloader :: "bool \<Rightarrow> 'p statics \<Rightarrow> 'p statics" where
  "start_config_hot_reloader spawned s =
     (if START_RELOADER s then s
      else s\<lparr>START_RELOADER := True, reloaders := (if spawned then reloaders s + 1 else reloaders s)\<rparr>)"

definition crate_start_config_hot_reloader :: "bool \<Rightarrow> 'p statics \<Rightarrow> 'p statics" where
  "crate_start_config_hot_reloader spawned s = start_config_hot_reloader spawned s"

definition REGISTRY_force :: "bool \<Rightarrow> 'p statics \<Rightarrow> (int \<rightharpoonup> cell) \<times> 'p statics" where
  "REGISTRY_force spawned s =
     (case REGISTRY s of
        Some reg \<Rightarrow> (reg, s)
      | None \<Rightarrow> (Map.empty, (start_config_hot_reloader spawned s)\<lparr>REGISTRY := Some Map.empty\<rparr>))"

text \<open>A poisoned lock yields its contents all the same.\<close>

definition lock_registry :: "bool \<Rightarrow> bool \<Rightarrow> 'p statics \<Rightarrow> (int \<rightharpoonup> cell) \<times> 'p statics" where
  "lock_registry poisoned spawned s =
     (case REGISTRY_force spawned s of (reg, s1) \<Rightarrow> if poisoned then (reg, s1) else (reg, s1))"

section \<open>Errno\<close>

text \<open>The location may be null; \<open>'l\<close> are the addresses of errno cells.\<close>

definition set_errno :: "'l option \<Rightarrow> int \<Rightarrow> ('l \<Rightarrow> int) \<Rightarrow> 'l \<Rightarrow> int" where
  "set_errno location err m = (case location of None \<Rightarrow> m | Some p \<Rightarrow> m(p := err))"

definition errno :: "'l option \<Rightarrow> ('l \<Rightarrow> int) \<Rightarrow> int" where
  "errno location m = (case location of None \<Rightarrow> 0 | Some p \<Rightarrow> m p)"

lemma errno_set: "errno loc (set_errno loc e m) = (if loc = None then 0 else e)"
  by (simp add: errno_def set_errno_def split: option.split)

section \<open>Runs\<close>

text \<open>A hook that falls through to the original function, an operation on the registry under its lock, and
  an explicit start of the reloader. An aborted process makes no more steps.\<close>

datatype 'p access =
    Forward "'p linker" libcall
  | Lock bool bool "(int \<rightharpoonup> cell) \<Rightarrow> (int \<rightharpoonup> cell)"
  | Start bool

fun perform :: "'p access \<Rightarrow> (libcall \<times> 'p) list \<times> 'p statics \<Rightarrow> (libcall \<times> 'p) list \<times> 'p statics" where
  "perform (Forward dlsym c) (calls, s) =
     (case real_syms dlsym s of
        (None, s1) \<Rightarrow> (calls, s1)
      | (Some t, s1) \<Rightarrow> (calls @ [(c, real_function t c)], s1))"
| "perform (Lock poisoned spawned f) (calls, s) =
     (case lock_registry poisoned spawned s of (reg, s1) \<Rightarrow> (calls, s1\<lparr>REGISTRY := Some (f reg)\<rparr>))"
| "perform (Start spawned) (calls, s) = (calls, crate_start_config_hot_reloader spawned s)"

definition statics_new :: "'p statics" where
  "statics_new = \<lparr>REAL = None, REGISTRY = None, START_RELOADER = False, reloaders = 0, aborted = False\<rparr>"

definition run_accesses :: "'p access list \<Rightarrow> (libcall \<times> 'p) list \<times> 'p statics" where
  "run_accesses as = fold (\<lambda>a (calls, s). if aborted s then (calls, s) else perform a (calls, s)) as ([], statics_new)"

text \<open>What happened in a run, in order: the linkers asked, the calls passed on, the attempts to start the
  reloader, the updates of the registry.\<close>

fun linkers :: "'p access list \<Rightarrow> 'p linker list" where
  "linkers [] = []"
| "linkers (Forward d c # as) = d # linkers as"
| "linkers (_ # as) = linkers as"

fun forwards :: "'p access list \<Rightarrow> libcall list" where
  "forwards [] = []"
| "forwards (Forward d c # as) = c # forwards as"
| "forwards (_ # as) = forwards as"

fun starts :: "'p access list \<Rightarrow> bool list" where
  "starts [] = []"
| "starts (Lock p b f # as) = b # starts as"
| "starts (Start b # as) = b # starts as"
| "starts (_ # as) = starts as"

fun updates :: "'p access list \<Rightarrow> ((int \<rightharpoonup> cell) \<Rightarrow> (int \<rightharpoonup> cell)) list" where
  "updates [] = []"
| "updates (Lock p b f # as) = f # updates as"
| "updates (_ # as) = updates as"

lemma events_append:
  "linkers (as @ bs) = linkers as @ linkers bs" "forwards (as @ bs) = forwards as @ forwards bs"
  "starts (as @ bs) = starts as @ starts bs" "updates (as @ bs) = updates as @ updates bs"
proof -
  show "linkers (as @ bs) = linkers as @ linkers bs" by (induction as rule: linkers.induct) simp_all
  show "forwards (as @ bs) = forwards as @ forwards bs" by (induction as rule: forwards.induct) simp_all
  show "starts (as @ bs) = starts as @ starts bs" by (induction as rule: starts.induct) simp_all
  show "updates (as @ bs) = updates as @ updates bs" by (induction as rule: updates.induct) simp_all
qed

lemma linkers_Nil: "linkers as = [] \<longleftrightarrow> forwards as = []"
  by (induction as rule: linkers.induct) simp_all

fun symbol_name :: "libcall \<Rightarrow> string" where
  "symbol_name (CConnect _ _ _) = ''connect''"
| "symbol_name (CSend _ _ _ _) = ''send''"
| "symbol_name (CSendto _ _ _ _ _ _) = ''sendto''"
| "symbol_name (CRecv _ _ _ _) = ''recv''"
| "symbol_name (CWrite _ _ _) = ''write''"
| "symbol_name (CRead _ _ _) = ''read''"
| "symbol_name (CWritev _ _ _) = ''writev''"
| "symbol_name (CReadv _ _ _) = ''readv''"
| "symbol_name (CSendmsg _ _ _) = ''sendmsg''"
| "symbol_name (CRecvmsg _ _ _) = ''recvmsg''"
| "symbol_name (CSendmmsg _ _ _ _) = ''sendmmsg''"
| "symbol_name (CSendfile _ _ _ _) = ''sendfile''"
| "symbol_name (CSendfile64 _ _ _ _) = ''sendfile64''"
| "symbol_name (CSplice _ _ _ _ _ _) = ''splice''"
| "symbol_name (CClose _) = ''close''"

lemma all_names:
  "(\<forall>c. P (symbol_name c)) \<longleftrightarrow> (\<forall>n \<in> {''connect'', ''send'', ''sendto'', ''recv'', ''write'', ''read'', ''writev'', ''readv'',
     ''sendmsg'', ''recvmsg'', ''sendmmsg'', ''sendfile'', ''sendfile64'', ''splice'', ''close''}. P n)"
proof -
  have "range symbol_name = symbol_name ` {CConnect 0 None 0, CSend 0 None 0 0, CSendto 0 None 0 0 None 0, CRecv 0 None 0 0,
      CWrite 0 None 0, CRead 0 None 0, CWritev 0 None 0, CReadv 0 None 0, CSendmsg 0 None 0, CRecvmsg 0 None 0,
      CSendmmsg 0 None 0 0, CSendfile 0 0 None 0, CSendfile64 0 0 None 0, CSplice 0 None 0 None 0 0, CClose 0}" (is "_ = ?R")
  proof
    show "range symbol_name \<subseteq> ?R"
    proof
      fix n assume "n \<in> range symbol_name"
      then obtain c where "n = symbol_name c" by blast
      then show "n \<in> ?R" by (cases c) simp_all
    qed
  qed blast
  then have "(\<forall>n \<in> range symbol_name. P n) \<longleftrightarrow> (\<forall>n \<in> ?R. P n)" by simp
  then show ?thesis by simp
qed

lemma real_init_function: "real_init d = Some t \<Longrightarrow> d (symbol_name c) = Some (real_function t c)"
  by (cases c) (auto simp: real_init_def resolve_symbol_def c_str_def split: bind_split_asm)

lemma real_init_iff: "real_init d = None \<longleftrightarrow> (\<exists>c. d (symbol_name c) = None)"
proof
  assume "\<exists>c. d (symbol_name c) = None"
  then show "real_init d = None" using real_init_function [of d] by (cases "real_init d") auto
next
  assume none: "real_init d = None"
  show "\<exists>c. d (symbol_name c) = None"
  proof (rule ccontr)
    assume "\<not> ?thesis"
    then have "\<forall>c. d (symbol_name c) \<noteq> None" by simp
    then show False using none unfolding all_names [of "\<lambda>n. d n \<noteq> None"]
      by (auto simp: real_init_def resolve_symbol_def c_str_def)
  qed
qed

definition run_spec :: "'p access list \<Rightarrow> (libcall \<times> 'p) list \<Rightarrow> 'p statics \<Rightarrow> bool" where
  "run_spec as calls s \<longleftrightarrow>
     REAL s = (if linkers as = [] then None else real_init (hd (linkers as))) \<and>
     calls = map (\<lambda>c. (c, real_function (the (REAL s)) c)) (forwards as) \<and>
     START_RELOADER s = (starts as \<noteq> []) \<and> reloaders s = (if starts as = [] then 0 else of_bool (hd (starts as))) \<and>
     REGISTRY s = (if updates as = [] then None else Some (fold (\<lambda>f. f) (updates as) Map.empty))"

lemma run_snoc:
  "run_accesses (as @ [a]) =
     (case run_accesses as of (calls, s) \<Rightarrow> if aborted s then (calls, s) else perform a (calls, s))"
  by (simp add: run_accesses_def)

lemma updates_start: "starts as = [] \<Longrightarrow> updates as = []"
  by (induction as rule: starts.induct) simp_all

lemma perform_spec:
  assumes "run_spec as calls s" "\<not> aborted s" "linkers as \<noteq> [] \<longrightarrow> real_init (hd (linkers as)) \<noteq> None"
    and p: "perform a (calls, s) = (calls', s')"
  shows "aborted s' \<longleftrightarrow> real_init (hd (linkers (as @ [a]))) = None \<and> linkers (as @ [a]) \<noteq> []"
    and "\<not> aborted s' \<Longrightarrow> run_spec (as @ [a]) calls' s'"
  using assms updates_start [of as]
  by (cases a; auto simp: run_spec_def events_append real_syms_def lock_registry_def REGISTRY_force_def linkers_Nil
      start_config_hot_reloader_def crate_start_config_hot_reloader_def hd_append
      split: option.split_asm if_split_asm)+

lemma run_meets_spec:
  assumes "run_accesses as = (calls, s)"
  shows "aborted s \<longleftrightarrow> linkers as \<noteq> [] \<and> real_init (hd (linkers as)) = None" and "\<not> aborted s \<Longrightarrow> run_spec as calls s"
proof -
  have "(aborted s \<longleftrightarrow> linkers as \<noteq> [] \<and> real_init (hd (linkers as)) = None) \<and> (\<not> aborted s \<longrightarrow> run_spec as calls s)"
    using assms
  proof (induction as arbitrary: calls s rule: rev_induct)
    case Nil
    then show ?case by (auto simp: run_accesses_def run_spec_def statics_new_def)
  next
    case (snoc a as)
    obtain calls1 s1 where r: "run_accesses as = (calls1, s1)" by fastforce
    note ih = snoc.IH [OF r]
    show ?case
    proof (cases "aborted s1")
      case True
      then show ?thesis using ih snoc.prems r by (auto simp: run_snoc events_append hd_append)
    next
      case False
      then have "perform a (calls1, s1) = (calls, s)" using snoc.prems r by (simp add: run_snoc)
      moreover have "run_spec as calls1 s1" "linkers as \<noteq> [] \<longrightarrow> real_init (hd (linkers as)) \<noteq> None"
        using ih False by auto
      ultimately show ?thesis using perform_spec [of as calls1 s1 a calls s] False by blast
    qed
  qed
  then show "aborted s \<longleftrightarrow> linkers as \<noteq> [] \<and> real_init (hd (linkers as)) = None" "\<not> aborted s \<Longrightarrow> run_spec as calls s"
    by blast+
qed

text \<open>C29. The process-wide statics are initialised once and stay as they were initialised, in every run of
  forwarded calls, registry operations and explicit starts, whatever the linker, the thread library and
  the registry lock answer at each of them. The process aborts exactly when the linker asked first does
  not know one of the fifteen functions; otherwise every forwarded call goes to the function that this
  first linker has under the call's own name. At most one reloader is started, by the first access that
  needs it, and the registry holds the result of all updates in order, no lock failure losing any.\<close>

theorem statics_initialised_once:
  assumes "run_accesses as = (calls, s)"
  shows "(aborted s \<longleftrightarrow> linkers as \<noteq> [] \<and> (\<exists>c. hd (linkers as) (symbol_name c) = None)) \<and>
    (\<not> aborted s \<longrightarrow>
       map (\<lambda>(c, p). (c, Some p)) calls = map (\<lambda>c. (c, hd (linkers as) (symbol_name c))) (forwards as) \<and>
       reloaders s = (if starts as = [] then 0 else of_bool (hd (starts as))) \<and>
       REGISTRY s = (if updates as = [] then None else Some (fold (\<lambda>f. f) (updates as) Map.empty)))"
proof -
  note spec = run_meets_spec [OF assms]
  have "map (\<lambda>(c, p). (c, Some p)) calls = map (\<lambda>c. (c, hd (linkers as) (symbol_name c))) (forwards as)" if "\<not> aborted s"
  proof (cases "linkers as = []")
    case True
    then show ?thesis using spec(2) [OF that] linkers_Nil [of as] by (simp add: run_spec_def)
  next
    case False
    with spec(1) \<open>\<not> aborted s\<close> have "real_init (hd (linkers as)) \<noteq> None" by simp
    then obtain t where t: "real_init (hd (linkers as)) = Some t" by blast
    show ?thesis using spec(2) [OF \<open>\<not> aborted s\<close>] False t real_init_function [OF t] by (simp add: run_spec_def)
  qed
  then show ?thesis using spec by (auto simp: run_spec_def real_init_iff)
qed

theorem statics_initialised_once_witness:
  "\<exists>s. run_accesses [Lock False True (\<lambda>r. r), Forward (\<lambda>n. Some (length n)) (CSend 3 None 0 0), Lock True False (\<lambda>r. r),
      Start True, Forward (\<lambda>n. None) (CSplice 3 None 4 None 0 0)] =
     ([(CSend 3 None 0 0, 4), (CSplice 3 None 4 None 0 0, 6)], s) \<and> reloaders s = 1 \<and> REGISTRY s = Some Map.empty"
  (is "\<exists>s. run_accesses ?as = _ \<and> _")
proof -
  obtain calls s where r: "run_accesses ?as = (calls, s)" by fastforce
  from statics_initialised_once [OF r] show ?thesis unfolding r by (auto simp: map_eq_Cons_conv)
qed

end
