(* ===== verification/Sock_Event.thy ===== *)
theory Sock_Event
  imports Rust_Text
begin

text \<open>
  Connection events from the kernel. The sockops program (\<open>ebpf/src/main.rs\<close>, \<open>ebpf/src/maps.rs\<close>)
  builds a 56-byte record and submits it to a ring buffer; the daemon side of the contract
  (\<open>KernelSockEvent\<close> in \<open>src/kernel_native.rs\<close>) decodes it and turns it into an up-call. The two
  struct declarations are separate and must agree byte for byte. \<open>big\<close> is the byte order of the
  machine, which both sides share.
\<close>

section \<open>The daemon side\<close>

record KernelUpcall =
  ku_socket_id :: u64
  ku_local_port :: u16
  ku_remote_port :: u16
  ku_remote_addr :: rstr
  ku_cgroup_id :: "u64 option"
  ku_pid :: "u32 option"
  ku_fd :: "int option"

record KernelSockEvent =
  kse_cookie :: u64
  kse_cgroup_id :: u64
  kse_src_addr :: bytes
  kse_dst_addr :: bytes
  kse_src_port :: u16
  kse_dst_port :: u16
  kse_family :: u16
  kse_pad :: u16

definition WIRE_LEN :: nat where "WIRE_LEN = 56"

definition KernelSockEvent_from_bytes :: "bool \<Rightarrow> bytes \<Rightarrow> KernelSockEvent option" where
  "KernelSockEvent_from_bytes big buf =
     (if length buf < WIRE_LEN then None
      else
        let rd16 = (\<lambda>i. bslice i (i + 16) buf);
            rd_u64 = (\<lambda>i. word_of_nat (from_ne big (bslice i (i + 8) buf)));
            rd_u16 = (\<lambda>i. word_of_nat (from_ne big (bslice i (i + 2) buf)))
        in Some \<lparr>kse_cookie = rd_u64 0, kse_cgroup_id = rd_u64 8, kse_src_addr = rd16 16,
             kse_dst_addr = rd16 32, kse_src_port = rd_u16 48, kse_dst_port = rd_u16 50,
             kse_family = rd_u16 52, kse_pad = rd_u16 54\<rparr>)"

definition KernelSockEvent_to_bytes :: "bool \<Rightarrow> KernelSockEvent \<Rightarrow> bytes" where
  "KernelSockEvent_to_bytes big e =
     to_ne big 8 (unat (kse_cookie e)) @ to_ne big 8 (unat (kse_cgroup_id e)) @
     kse_src_addr e @ kse_dst_addr e @
     to_ne big 2 (unat (kse_src_port e)) @ to_ne big 2 (unat (kse_dst_port e)) @
     to_ne big 2 (unat (kse_family e)) @ to_ne big 2 (unat (kse_pad e))"

section \<open>Addresses as text\<close>

text \<open>\<open>Display\<close> of \<open>Ipv4Addr\<close>, and of \<open>Ipv6Addr\<close>: an IPv4-mapped address in mixed notation, otherwise
  lower-case hexadecimal groups with the first longest run of at least two zero groups elided.\<close>

fun digits :: "nat \<Rightarrow> nat \<Rightarrow> rstr" where
  "digits 0 n = []"
| "digits (Suc k) n =
     (let d = n mod 16; c = (if d < 10 then 48 + d else 87 + d)
      in (if n div 16 = 0 then [] else digits k (n div 16)) @ [c])"

definition hex_group :: "u16 \<Rightarrow> rstr" where
  "hex_group w = digits 4 (unat w)"

definition dec_octet :: "u8 \<Rightarrow> rstr" where
  "dec_octet b =
     (let n = unat b in
      (if n < 100 then [] else [48 + n div 100]) @ (if n < 10 then [] else [48 + n div 10 mod 10]) @ [48 + n mod 10])"

fun join :: "nat \<Rightarrow> rstr list \<Rightarrow> rstr" where
  "join sep [] = []"
| "join sep [s] = s"
| "join sep (s # t # ts) = s @ sep # join sep (t # ts)"

definition ipv4_string :: "bytes \<Rightarrow> rstr" where
  "ipv4_string octets = join 46 (map dec_octet octets)"

text \<open>The scan for zero runs: \<open>(start, length)\<close> of the longest and of the current run.\<close>

fun zero_run :: "nat \<Rightarrow> u16 list \<Rightarrow> nat \<times> nat \<Rightarrow> nat \<times> nat \<Rightarrow> nat \<times> nat" where
  "zero_run i [] longest current = longest"
| "zero_run i (s # segs) longest current =
     (if s = 0 then
        let current = (if snd current = 0 then (i, 1) else (fst current, snd current + 1));
            longest = (if snd current > snd longest then current else longest)
        in zero_run (i + 1) segs longest current
      else zero_run (i + 1) segs longest (0, 0))"

definition ipv6_string :: "u16 list \<Rightarrow> rstr" where
  "ipv6_string segs =
     (if take 6 segs = [0, 0, 0, 0, 0, 0xFFFF] then
        lit ''::ffff:'' @ ipv4_string (concat (map (\<lambda>s. [ucast (drop_bit 8 s), ucast s]) (drop 6 segs)))
      else
        let (start, len) = zero_run 0 segs (0, 0) (0, 0) in
        if len > 1 then join 58 (map hex_group (take start segs)) @ lit ''::'' @
          join 58 (map hex_group (drop (start + len) segs))
        else join 58 (map hex_group segs))"

definition AF_INET6 :: u32 where "AF_INET6 = 10"
definition AF_INET :: u32 where "AF_INET = 2"

definition dst_addr_string :: "KernelSockEvent \<Rightarrow> rstr" where
  "dst_addr_string e =
     (if kse_family e = ucast AF_INET6 then
        ipv6_string (map (\<lambda>i. word_of_nat (be_decode (bslice (i * 2) (i * 2 + 2) (kse_dst_addr e)))) [0..<8])
      else ipv4_string (take 4 (kse_dst_addr e)))"

definition to_upcall :: "KernelSockEvent \<Rightarrow> int option \<Rightarrow> KernelUpcall" where
  "to_upcall e fd =
     \<lparr>ku_socket_id = kse_cookie e, ku_local_port = kse_src_port e, ku_remote_port = kse_dst_port e,
      ku_remote_addr = dst_addr_string e, ku_cgroup_id = Some (kse_cgroup_id e), ku_pid = None, ku_fd = fd\<rparr>"

datatype EnforcementDecision = Enforce | Ignore

definition classify_upcall :: "KernelUpcall \<Rightarrow> EnforcementDecision" where
  "classify_upcall upcall =
     (if ku_local_port upcall = 0 \<or> ku_remote_port upcall = 0 then Ignore else Enforce)"

section \<open>The kernel side\<close>

record SockEvent =
  se_cookie :: u64
  se_cgroup_id :: u64
  se_src_addr :: bytes
  se_dst_addr :: bytes
  se_src_port :: u16
  se_dst_port :: u16
  se_family :: u16
  se_pad :: u16

record KernelCounters =
  kc_active_sessions :: u64
  kc_bypass_attempts :: u64
  kc_upcalls :: u64
  kc_failures :: u64

text \<open>What the program reads of its context, and the two helper calls.\<close>

record sock_ops =
  so_op :: u32
  so_local_port :: u32
  so_remote_port :: u32
  so_family :: u32
  so_local_ip4 :: u32
  so_remote_ip4 :: u32
  so_local_ip6 :: "u32 list"
  so_remote_ip6 :: "u32 list"
  so_cookie :: u64
  so_cgroup_id :: u64

text \<open>The maps: the records in the ring buffer, whether a reservation succeeds, and the counter
  entry.\<close>

record kmaps =
  km_events :: "bytes list"
  km_reserve :: "bytes list \<Rightarrow> bool"
  km_counters :: "KernelCounters option"

text \<open>The bytes of the \<open>repr(C)\<close> struct in the ring buffer.\<close>

definition SockEvent_bytes :: "bool \<Rightarrow> SockEvent \<Rightarrow> bytes" where
  "SockEvent_bytes big e =
     to_ne big 8 (unat (se_cookie e)) @ to_ne big 8 (unat (se_cgroup_id e)) @
     se_src_addr e @ se_dst_addr e @
     to_ne big 2 (unat (se_src_port e)) @ to_ne big 2 (unat (se_dst_port e)) @
     to_ne big 2 (unat (se_family e)) @ to_ne big 2 (unat (se_pad e))"

definition copy_ip6 :: "u32 list \<Rightarrow> bytes" where
  "copy_ip6 ws = concat (map u32_to_be ws)"

definition bump_upcalls :: "kmaps \<Rightarrow> kmaps" where
  "bump_upcalls k = k\<lparr>km_counters := map_option (\<lambda>c. c\<lparr>kc_upcalls := kc_upcalls c + 1\<rparr>) (km_counters k)\<rparr>"

definition bump_failures :: "kmaps \<Rightarrow> kmaps" where
  "bump_failures k = k\<lparr>km_counters := map_option (\<lambda>c. c\<lparr>kc_failures := kc_failures c + 1\<rparr>) (km_counters k)\<rparr>"

definition submit :: "bool \<Rightarrow> SockEvent \<Rightarrow> kmaps \<Rightarrow> (int + unit) \<times> kmaps" where
  "submit big e k =
     (if km_reserve k (km_events k) then (Inr (), k\<lparr>km_events := km_events k @ [SockEvent_bytes big e]\<rparr>)
      else (Inl (- 1), bump_failures k))"

definition BPF_SOCK_OPS_ACTIVE_ESTABLISHED_CB :: u32 where "BPF_SOCK_OPS_ACTIVE_ESTABLISHED_CB = 4"
definition BPF_SOCK_OPS_PASSIVE_ESTABLISHED_CB :: u32 where "BPF_SOCK_OPS_PASSIVE_ESTABLISHED_CB = 5"

definition try_handle :: "bool \<Rightarrow> sock_ops \<Rightarrow> kmaps \<Rightarrow> (int + u32) \<times> kmaps" where
  "try_handle big c k =
     (if so_op c \<noteq> BPF_SOCK_OPS_ACTIVE_ESTABLISHED_CB \<and> so_op c \<noteq> BPF_SOCK_OPS_PASSIVE_ESTABLISHED_CB
      then (Inr 0, k)
      else
        let local_port = ucast (so_local_port c) :: u16;
            remote_port = ucast (drop_bit 16 (so_remote_port c)) :: u16 in
        if local_port = 0 \<or> remote_port = 0 then (Inr 0, k)
        else
          let family = so_family c;
              src_addr = (if family = AF_INET6 then copy_ip6 (so_local_ip6 c)
                          else u32_to_be (so_local_ip4 c) @ replicate 12 0);
              dst_addr = (if family = AF_INET6 then copy_ip6 (so_remote_ip6 c)
                          else u32_to_be (so_remote_ip4 c) @ replicate 12 0);
              event = \<lparr>se_cookie = so_cookie c, se_cgroup_id = so_cgroup_id c, se_src_addr = src_addr,
                se_dst_addr = dst_addr, se_src_port = local_port, se_dst_port = remote_port,
                se_family = (if family = AF_INET6 then ucast AF_INET6 else ucast AF_INET), se_pad = 0\<rparr> in
          case submit big event k of
            (Inl e, k') \<Rightarrow> (Inl e, k')
          | (Inr _, k') \<Rightarrow> (Inr 1, bump_upcalls k'))"

definition syntriass_sock_handler :: "bool \<Rightarrow> sock_ops \<Rightarrow> kmaps \<Rightarrow> u32 \<times> kmaps" where
  "syntriass_sock_handler big c k =
     (case try_handle big c k of (Inr action, k') \<Rightarrow> (action, k') | (Inl _, k') \<Rightarrow> (0, k'))"

section \<open>Both sides agree\<close>

lemma event_layout:
  assumes "length s = 16" "length d = 16"
  shows "KernelSockEvent_from_bytes big (to_ne big 8 (unat (a :: u64)) @ to_ne big 8 (unat (b :: u64)) @ s @ d @
     to_ne big 2 (unat (p :: u16)) @ to_ne big 2 (unat (q :: u16)) @ to_ne big 2 (unat (f :: u16)) @
     to_ne big 2 (unat (r :: u16))) =
    Some \<lparr>kse_cookie = a, kse_cgroup_id = b, kse_src_addr = s, kse_dst_addr = d, kse_src_port = p,
      kse_dst_port = q, kse_family = f, kse_pad = r\<rparr>"
proof -
  have w64: "from_ne big (to_ne big 8 (unat x)) = unat x" for x :: u64
    using unsigned_less [of x, where 'a = nat] by (intro from_ne_to_ne) simp
  have w16: "from_ne big (to_ne big 2 (unat x)) = unat x" for x :: u16
    using unsigned_less [of x, where 'a = nat] by (intro from_ne_to_ne) simp
  show ?thesis using assms(1,2)
    by (simp add: KernelSockEvent_from_bytes_def WIRE_LEN_def Let_def bslice_def w64 w16)
qed

lemma event_roundtrip:
  assumes "length (kse_src_addr e) = 16" "length (kse_dst_addr e) = 16"
  shows "KernelSockEvent_from_bytes big (KernelSockEvent_to_bytes big e) = Some e"
    and "length (KernelSockEvent_to_bytes big e) = 56"
  using assms by (simp_all add: KernelSockEvent_to_bytes_def event_layout)

lemma length_concat_be: "length (concat (map u32_to_be ws)) = 4 * length ws"
  by (induction ws) auto

text \<open>The sockets the program reports: an established connection with both ports non-zero.\<close>

definition reportable :: "sock_ops \<Rightarrow> bool" where
  "reportable c \<longleftrightarrow> so_op c \<in> {4, 5} \<and> (ucast (so_local_port c) :: u16) \<noteq> 0 \<and>
     (ucast (drop_bit 16 (so_remote_port c)) :: u16) \<noteq> 0"


definition toy_sock :: sock_ops where
  "toy_sock = \<lparr>so_op = 4, so_local_port = 8080, so_remote_port = 0x01BB0000, so_family = 2,
     so_local_ip4 = 0x0A000001, so_remote_ip4 = 0x0A000002, so_local_ip6 = [0, 0, 0, 0],
     so_remote_ip6 = [0, 0, 0, 0], so_cookie = 77, so_cgroup_id = 5\<rparr>"

definition toy_maps :: kmaps where
  "toy_maps = \<lparr>km_events = [], km_reserve = (\<lambda>es. length es < 4), km_counters = None\<rparr>"


end
