(* ===== verification/Kernel_Tls.thy ===== *)
theory Kernel_Tls
  imports Sock_Event Wire_Io
begin

text \<open>
  The hand-over of a session to kernel TLS (\<open>src/kernel_native.rs\<close>): the byte layout of the key
  material, the socket options that install it, the teardown when one of them fails, and the
  processing of a kernel up-call from its classification to the installed keys. The socket calls
  are a parameter; what the Linux TLS layer documents about them is the predicate \<open>ktls_kernel\<close>.
\<close>

section \<open>Key material\<close>

definition KTLS_KEY_LEN :: nat where "KTLS_KEY_LEN = 32"
definition KTLS_SALT_LEN :: nat where "KTLS_SALT_LEN = 4"
definition KTLS_IV_LEN :: nat where "KTLS_IV_LEN = 8"
definition KTLS_REC_SEQ_LEN :: nat where "KTLS_REC_SEQ_LEN = 8"

record KtlsSecrets =
  ks_key :: bytes
  ks_salt :: bytes
  ks_iv :: bytes
  ks_rec_seq :: bytes

definition from_traffic_secret :: "KtlsTrafficSecret \<Rightarrow> KtlsSecrets" where
  "from_traffic_secret s =
     \<lparr>ks_key = kts_key s, ks_salt = kts_salt s, ks_iv = kts_iv s, ks_rec_seq = replicate KTLS_REC_SEQ_LEN 0\<rparr>"

record KtlsDuplexKeys =
  kd_tx :: KtlsSecrets
  kd_rx :: KtlsSecrets

record KtlsError =
  ke_stage :: string
  ke_errno :: int

definition ENOENT :: int where "ENOENT = 2"
definition ENOPROTOOPT :: int where "ENOPROTOOPT = 92"
definition EPROTONOSUPPORT :: int where "EPROTONOSUPPORT = 93"

definition is_unsupported :: "KtlsError \<Rightarrow> bool" where
  "is_unsupported e \<longleftrightarrow> ke_errno e \<in> {ENOENT, EOPNOTSUPP, ENOPROTOOPT, EPROTONOSUPPORT}"

datatype KernelNativeError =
    Config
  | Crypto CryptoError
  | MissingSocketReference
  | KtlsUnavailable
  | Ktls KtlsError

definition KernelNativeError_from :: "KtlsError \<Rightarrow> KernelNativeError" where
  "KernelNativeError_from e = (if is_unsupported e then KtlsUnavailable else Ktls e)"

section \<open>Socket options\<close>

text \<open>The calls on a socket: \<open>setsockopt\<close> reports its error number, the results of \<open>shutdown\<close> and
  \<open>close\<close> are ignored. The last four are the stream operations of the asynchronous runtime.\<close>

record 'os tcp_ops =
  t_setsockopt :: "int \<Rightarrow> int \<Rightarrow> int \<Rightarrow> bytes \<Rightarrow> 'os \<Rightarrow> int option \<times> 'os"
  t_shutdown :: "int \<Rightarrow> 'os \<Rightarrow> 'os"
  t_close :: "int \<Rightarrow> 'os \<Rightarrow> 'os"
  t_socket :: "'os \<Rightarrow> sysret \<times> 'os"
  s_write_all :: "int \<Rightarrow> bytes \<Rightarrow> 'os \<Rightarrow> int option \<times> 'os"
  s_flush :: "int \<Rightarrow> 'os \<Rightarrow> int option \<times> 'os"
  s_read_exact :: "int \<Rightarrow> nat \<Rightarrow> 'os \<Rightarrow> (int + bytes) \<times> 'os"
  s_into_std :: "int \<Rightarrow> 'os \<Rightarrow> int option \<times> 'os"

definition IPPROTO_TCP :: int where "IPPROTO_TCP = 6"
definition TCP_ULP :: int where "TCP_ULP = 31"
definition SOL_TLS :: int where "SOL_TLS = 282"
definition TLS_TX :: int where "TLS_TX = 1"
definition TLS_RX :: int where "TLS_RX = 2"
definition TLS_1_3_VERSION :: nat where "TLS_1_3_VERSION = 0x0304"
definition TLS_CIPHER_AES_GCM_256 :: nat where "TLS_CIPHER_AES_GCM_256 = 52"

text \<open>\<open>Tls12CryptoInfoAesGcm256\<close> in memory order.\<close>

definition crypto_info :: "bool \<Rightarrow> KtlsSecrets \<Rightarrow> bytes" where
  "crypto_info big s =
     to_ne big 2 TLS_1_3_VERSION @ to_ne big 2 TLS_CIPHER_AES_GCM_256 @
     ks_iv s @ ks_key s @ ks_salt s @ ks_rec_seq s"

definition ktls_supported :: "'os tcp_ops \<Rightarrow> 'os \<Rightarrow> bool \<times> 'os" where
  "ktls_supported ops os =
     (case t_socket ops os of
        (SysErr _, os1) \<Rightarrow> (False, os1)
      | (SysOk fd, os1) \<Rightarrow>
          (let (rc, os2) = t_setsockopt ops (int fd) IPPROTO_TCP TCP_ULP (ascii ''tls'') os1;
               os3 = t_close ops (int fd) os2
           in case rc of
                None \<Rightarrow> (True, os3)
              | Some errno \<Rightarrow> (errno \<notin> {ENOENT, EOPNOTSUPP, ENOPROTOOPT, EPROTONOSUPPORT}, os3)))"

definition attach_tls_ulp :: "'os tcp_ops \<Rightarrow> int \<Rightarrow> 'os \<Rightarrow> (KtlsError + unit) \<times> 'os" where
  "attach_tls_ulp ops fd os =
     (case t_setsockopt ops fd IPPROTO_TCP TCP_ULP (ascii ''tls'') os of
        (Some errno, os1) \<Rightarrow> (Inl \<lparr>ke_stage = ''TCP_ULP=tls'', ke_errno = errno\<rparr>, os1)
      | (None, os1) \<Rightarrow> (Inr (), os1))"

definition install_direction ::
  "bool \<Rightarrow> 'os tcp_ops \<Rightarrow> int \<Rightarrow> int \<Rightarrow> string \<Rightarrow> KtlsSecrets \<Rightarrow> 'os \<Rightarrow> (KtlsError + unit) \<times> 'os" where
  "install_direction big ops fd direction stage secrets os =
     (case t_setsockopt ops fd SOL_TLS direction (crypto_info big secrets) os of
        (Some errno, os1) \<Rightarrow> (Inl \<lparr>ke_stage = stage, ke_errno = errno\<rparr>, os1)
      | (None, os1) \<Rightarrow> (Inr (), os1))"

definition install_ktls_tx where
  "install_ktls_tx big ops fd = install_direction big ops fd TLS_TX ''TLS_TX''"

definition install_ktls_rx where
  "install_ktls_rx big ops fd = install_direction big ops fd TLS_RX ''TLS_RX''"

definition install_ktls_duplex ::
  "bool \<Rightarrow> 'os tcp_ops \<Rightarrow> int \<Rightarrow> KtlsDuplexKeys \<Rightarrow> 'os \<Rightarrow> (KtlsError + unit) \<times> 'os" where
  "install_ktls_duplex big ops fd keys os =
     (case attach_tls_ulp ops fd os of
        (Inl e, os1) \<Rightarrow> (Inl e, os1)
      | (Inr _, os1) \<Rightarrow>
          (case install_ktls_tx big ops fd (kd_tx keys) os1 of
             (Inl e, os2) \<Rightarrow> (Inl e, os2)
           | (Inr _, os2) \<Rightarrow> install_ktls_rx big ops fd (kd_rx keys) os2))"

definition install_ktls_keys ::
  "bool \<Rightarrow> 'os tcp_ops \<Rightarrow> int \<Rightarrow> KtlsDuplexKeys \<Rightarrow> 'os \<Rightarrow> (KernelNativeError + unit) \<times> 'os" where
  "install_ktls_keys big ops fd keys os =
     (case install_ktls_duplex big ops fd keys os of
        (r, os1) \<Rightarrow> (map_err KernelNativeError_from r, os1))"

definition fail_closed_shutdown :: "'os tcp_ops \<Rightarrow> int \<Rightarrow> 'os \<Rightarrow> 'os" where
  "fail_closed_shutdown ops fd os = t_close ops fd (t_shutdown ops fd os)"

definition bridge_session_to_ktls ::
  "crypto_lib \<Rightarrow> bool \<Rightarrow> 'os tcp_ops \<Rightarrow> int \<Rightarrow> SessionKeys \<Rightarrow> 'os \<Rightarrow> (KernelNativeError + unit) outcome \<times> 'os" where
  "bridge_session_to_ktls lib big ops fd keys os =
     (case export_ktls lib keys of
        None \<Rightarrow> (Panic, os)
      | Some traffic \<Rightarrow>
          (let duplex = \<lparr>kd_tx = from_traffic_secret (ktk_tx traffic), kd_rx = from_traffic_secret (ktk_rx traffic)\<rparr>
           in case install_ktls_keys big ops fd duplex os of
                (Inr _, os1) \<Rightarrow> (Ret (Inr ()), os1)
              | (Inl e, os1) \<Rightarrow> (Ret (Inl e), fail_closed_shutdown ops fd os1)))"

section \<open>Up-calls\<close>

definition configured_suite :: "config_lock \<Rightarrow> KernelNativeError + CipherSuite" where
  "configured_suite l = map_err (\<lambda>_. Config) (resolve_policy l)"

text \<open>The two pairs are the random inputs of the initiator and of the responder role.\<close>

definition run_local_handshake ::
  "crypto_lib \<Rightarrow> config_lock \<Rightarrow> bytes \<times> bytes \<Rightarrow> bytes \<times> bytes \<Rightarrow> CipherSuite \<Rightarrow> KernelNativeError + SessionKeys" where
  "run_local_handshake lib l ri rr suite =
     rbind (map_err Crypto (resolve_identity l)) (\<lambda>identity.
     rbind (map_err Crypto (engine_begin_initiator lib suite (fst ri) (snd ri) identity)) (\<lambda>(state, client_hello).
     rbind (map_err Crypto (engine_respond lib suite (fst rr) (snd rr) identity client_hello)) (\<lambda>(server_keys, server_hello).
     map_err Crypto (InitiatorState_finish lib state identity server_hello))))"

definition execute_local_handshake_probe ::
  "crypto_lib \<Rightarrow> config_lock \<Rightarrow> bytes \<times> bytes \<Rightarrow> bytes \<times> bytes \<Rightarrow> CipherSuite \<Rightarrow> KernelNativeError + unit" where
  "execute_local_handshake_probe lib l ri rr suite = rbind (run_local_handshake lib l ri rr suite) (\<lambda>_. Inr ())"

definition complete_kernel_upcall ::
  "crypto_lib \<Rightarrow> bool \<Rightarrow> 'os tcp_ops \<Rightarrow> config_lock \<Rightarrow> bytes \<times> bytes \<Rightarrow> bytes \<times> bytes \<Rightarrow> KernelUpcall \<Rightarrow> 'os \<Rightarrow>
     (KernelNativeError + unit) outcome \<times> 'os" where
  "complete_kernel_upcall lib big ops l ri rr upcall os =
     (if classify_upcall upcall = Ignore then (Ret (Inr ()), os)
      else case configured_suite l of
        Inl e \<Rightarrow> (Ret (Inl e), os)
      | Inr suite \<Rightarrow>
          (case ku_fd upcall of
             None \<Rightarrow> (Ret (Inl MissingSocketReference), os)
           | Some fd \<Rightarrow>
               (case run_local_handshake lib l ri rr suite of
                  Inl e \<Rightarrow> (Ret (Inl e), os)
                | Inr keys \<Rightarrow> bridge_session_to_ktls lib big ops fd keys os)))"

section \<open>What the kernel does with a socket\<close>

text \<open>A socket that is open in the clear, one with the TLS layer attached and the key material
  installed so far for sending and receiving, and a closed one.\<close>

datatype sockstate = Plain | Tls "bytes option" "bytes option" | Closed

text \<open>The documented behaviour of the socket calls on \<open>fd\<close>: a failing option changes nothing; attaching
  the TLS layer to a plain socket and installing keys succeed as their names say; a closed socket is
  closed; reading and writing through the stream do not change the mode of the socket.\<close>

definition ktls_kernel :: "'os tcp_ops \<Rightarrow> int \<Rightarrow> ('os \<Rightarrow> sockstate) \<Rightarrow> bool" where
  "ktls_kernel ops fd sock \<longleftrightarrow>
     (\<forall>level opt bs os e os'. t_setsockopt ops fd level opt bs os = (Some e, os') \<longrightarrow> sock os' = sock os) \<and>
     (\<forall>os os'. t_setsockopt ops fd IPPROTO_TCP TCP_ULP (ascii ''tls'') os = (None, os') \<longrightarrow>
        sock os = Plain \<longrightarrow> sock os' = Tls None None) \<and>
     (\<forall>bs os os' r t. t_setsockopt ops fd SOL_TLS TLS_TX bs os = (None, os') \<longrightarrow>
        sock os = Tls t r \<longrightarrow> sock os' = Tls (Some bs) r) \<and>
     (\<forall>bs os os' r t. t_setsockopt ops fd SOL_TLS TLS_RX bs os = (None, os') \<longrightarrow>
        sock os = Tls t r \<longrightarrow> sock os' = Tls t (Some bs)) \<and>
     (\<forall>os. sock (t_close ops fd os) = Closed) \<and>
     (\<forall>bs os. sock (snd (s_write_all ops fd bs os)) = sock os) \<and>
     (\<forall>os. sock (snd (s_flush ops fd os)) = sock os) \<and>
     (\<forall>n os. sock (snd (s_read_exact ops fd n os)) = sock os) \<and>
     (\<forall>os os'. s_into_std ops fd os = (None, os') \<longrightarrow> sock os' = sock os)"

definition installed :: "bool \<Rightarrow> KtlsTrafficKeys \<Rightarrow> sockstate" where
  "installed big t = Tls (Some (crypto_info big (from_traffic_secret (ktk_tx t))))
     (Some (crypto_info big (from_traffic_secret (ktk_rx t))))"

lemma bridge_decides:
  assumes "ktls_kernel ops fd sock" and "hkdf_laws lib" and "sock os = Plain"
    and "bridge_session_to_ktls lib big ops fd keys os = (r, os')"
  shows "(\<exists>t. r = Ret (Inr ()) \<and> export_ktls lib keys = Some t \<and> sock os' = installed big t) \<or>
    (\<exists>e. r = Ret (Inl e) \<and> sock os' = Closed \<and> (e = KtlsUnavailable \<or> (\<exists>k. e = Ktls k)))"
proof -
  from export_ktls_some [OF assms(2)] obtain t where t: "export_ktls lib keys = Some t" by blast
  let ?d = "\<lparr>kd_tx = from_traffic_secret (ktk_tx t), kd_rx = from_traffic_secret (ktk_rx t)\<rparr>"
  obtain x os1 where i: "install_ktls_duplex big ops fd ?d os = (x, os1)" by fastforce
  show ?thesis
  proof (cases x)
    case (Inl e)
    with assms(4) t i have "r = Ret (Inl (KernelNativeError_from e))" "os' = fail_closed_shutdown ops fd os1"
      by (simp_all add: bridge_session_to_ktls_def install_ktls_keys_def map_err_def)
    moreover have "sock (fail_closed_shutdown ops fd os1) = Closed"
      using assms(1) by (simp add: ktls_kernel_def fail_closed_shutdown_def)
    ultimately show ?thesis by (simp add: KernelNativeError_from_def)
  next
    case (Inr u)
    with i obtain o1 o2 where
      "t_setsockopt ops fd IPPROTO_TCP TCP_ULP (ascii ''tls'') os = (None, o1)"
      "t_setsockopt ops fd SOL_TLS TLS_TX (crypto_info big (kd_tx ?d)) o1 = (None, o2)"
      "t_setsockopt ops fd SOL_TLS TLS_RX (crypto_info big (kd_rx ?d)) o2 = (None, os1)"
      by (auto simp: install_ktls_duplex_def attach_tls_ulp_def install_ktls_tx_def install_ktls_rx_def
          install_direction_def split: prod.split_asm option.split_asm)
    with assms(1,3) have "sock os1 = installed big t"
      unfolding ktls_kernel_def installed_def by (metis KtlsDuplexKeys.select_convs)
    then show ?thesis using assms(4) t i Inr
      by (auto simp: bridge_session_to_ktls_def install_ktls_keys_def map_err_def)
  qed
qed

lemma upcall_outcomes:
  assumes "ktls_kernel ops fd sock" and "hkdf_laws lib" and "sock os = Plain"
    and "ku_fd upcall = Some fd \<or> ku_fd upcall = None"
    and "complete_kernel_upcall lib big ops l ri rr upcall os = (r, os')"
  shows "(classify_upcall upcall = Ignore \<longrightarrow> r = Ret (Inr ()) \<and> os' = os) \<and>
    (classify_upcall upcall = Enforce \<longrightarrow>
      (\<exists>suite keys t. r = Ret (Inr ()) \<and> resolve_policy l = Inr suite \<and>
         run_local_handshake lib l ri rr suite = Inr keys \<and> export_ktls lib keys = Some t \<and> sock os' = installed big t) \<or>
      (\<exists>e. r = Ret (Inl e) \<and> (e = KtlsUnavailable \<or> (\<exists>k. e = Ktls k)) \<and> sock os' = Closed) \<or>
      (\<exists>e. r = Ret (Inl e) \<and> (e = Config \<or> e = MissingSocketReference \<or> (\<exists>c. e = Crypto c)) \<and> os' = os))"
proof (cases "classify_upcall upcall = Enforce \<and> (\<exists>suite. resolve_policy l = Inr suite) \<and> ku_fd upcall = Some fd")
  case False
  with assms(4,5) show ?thesis
    by (cases "classify_upcall upcall") (auto simp: complete_kernel_upcall_def configured_suite_def map_err_def
        split: sum.split_asm option.split_asm)
next
  case True
  then obtain suite where s: "resolve_policy l = Inr suite" by blast
  show ?thesis
  proof (cases "run_local_handshake lib l ri rr suite")
    case (Inl e)
    then have "\<exists>c. e = Crypto c"
      by (auto simp: run_local_handshake_def rbind_def map_err_def split: sum.split_asm prod.split_asm)
    then show ?thesis using True s Inl assms(5)
      by (auto simp: complete_kernel_upcall_def configured_suite_def map_err_def)
  next
    case (Inr keys)
    with True s assms(5) have "bridge_session_to_ktls lib big ops fd keys os = (r, os')"
      by (simp add: complete_kernel_upcall_def configured_suite_def map_err_def)
    from bridge_decides [OF assms(1-3) this] True s Inr show ?thesis by auto
  qed
qed


section \<open>Instances\<close>

text \<open>A kernel with one socket, number 4, whose TLS layer may be missing.\<close>

record toy_tcp =
  tt_sock :: sockstate
  tt_in :: bytes
  tt_out :: bytes

definition toy_setsockopt :: "bool \<Rightarrow> int \<Rightarrow> int \<Rightarrow> int \<Rightarrow> bytes \<Rightarrow> toy_tcp \<Rightarrow> int option \<times> toy_tcp" where
  "toy_setsockopt has_tls fd level opt bs os =
     (if \<not> has_tls then (Some ENOENT, os)
      else case tt_sock os of
        Plain \<Rightarrow> if level = IPPROTO_TCP \<and> opt = TCP_ULP then (None, os\<lparr>tt_sock := Tls None None\<rparr>) else (Some ENOPROTOOPT, os)
      | Tls t r \<Rightarrow> if level = SOL_TLS \<and> opt = TLS_TX then (None, os\<lparr>tt_sock := Tls (Some bs) r\<rparr>)
          else if level = SOL_TLS \<and> opt = TLS_RX then (None, os\<lparr>tt_sock := Tls t (Some bs)\<rparr>)
          else (Some ENOPROTOOPT, os)
      | Closed \<Rightarrow> (Some EBADF, os))"

definition toy_tcp_ops :: "bool \<Rightarrow> toy_tcp tcp_ops" where
  "toy_tcp_ops has_tls =
     \<lparr>t_setsockopt = toy_setsockopt has_tls,
      t_shutdown = (\<lambda>_ os. os), t_close = (\<lambda>_ os. os\<lparr>tt_sock := Closed\<rparr>), t_socket = (\<lambda>os. (SysOk 9, os)),
      s_write_all = (\<lambda>_ bs os. (None, os\<lparr>tt_out := tt_out os @ bs\<rparr>)), s_flush = (\<lambda>_ os. (None, os)),
      s_read_exact = (\<lambda>_ n os. if n \<le> length (tt_in os) then (Inr (take n (tt_in os)), os\<lparr>tt_in := drop n (tt_in os)\<rparr>)
        else (Inl 5, os)),
      s_into_std = (\<lambda>_ os. (None, os))\<rparr>"

definition toy_lock :: "IdentityMaterial \<Rightarrow> config_lock" where
  "toy_lock i = \<lparr>lock_poisoned = False, lock_value = \<lparr>rc_policy = Inr NistStandard768, rc_identity = Inr i\<rparr>\<rparr>"

lemma toy_ktls_kernel: "ktls_kernel (toy_tcp_ops b) fd tt_sock"
  unfolding ktls_kernel_def
  by (auto simp: toy_tcp_ops_def toy_setsockopt_def IPPROTO_TCP_def TCP_ULP_def SOL_TLS_def TLS_TX_def TLS_RX_def
      split: if_split_asm sockstate.split_asm)


end
