(* ===== verification/Over_Socket.thy ===== *)
theory Over_Socket
  imports Kernel_Tls
begin

text \<open>
  The handshake of the control daemon over a paused socket (\<open>src/over_socket.rs\<close>): length-prefixed
  frames, the two roles, and the hand-over of socket and keys to kernel TLS. The asynchronous
  stream is a parameter; \<open>tcp_stream\<close> and \<open>reliable\<close> say what a byte stream promises.
\<close>

section \<open>Frames and roles\<close>

definition MAX_HANDSHAKE_FRAME :: nat where "MAX_HANDSHAKE_FRAME = 2 ^ 20"

datatype HandshakeRole = Initiator | Responder

datatype OverSocketError =
    Io int
  | SocketCrypto CryptoError
  | Protocol string
  | SocketKtls KernelNativeError

definition write_frame :: "'os tcp_ops \<Rightarrow> int \<Rightarrow> bytes \<Rightarrow> 'os \<Rightarrow> (OverSocketError + unit) \<times> 'os" where
  "write_frame ops fd payload os =
     (if length payload > MAX_HANDSHAKE_FRAME then (Inl (Protocol ''handshake frame too large''), os)
      else case s_write_all ops fd (u32_to_be (word_of_nat (length payload))) os of
        (Some e, os1) \<Rightarrow> (Inl (Io e), os1)
      | (None, os1) \<Rightarrow>
          (case s_write_all ops fd payload os1 of
             (Some e, os2) \<Rightarrow> (Inl (Io e), os2)
           | (None, os2) \<Rightarrow>
               (case s_flush ops fd os2 of
                  (Some e, os3) \<Rightarrow> (Inl (Io e), os3)
                | (None, os3) \<Rightarrow> (Inr (), os3))))"

definition read_frame :: "'os tcp_ops \<Rightarrow> int \<Rightarrow> 'os \<Rightarrow> (OverSocketError + bytes) \<times> 'os" where
  "read_frame ops fd os =
     (case s_read_exact ops fd 4 os of
        (Inl e, os1) \<Rightarrow> (Inl (Io e), os1)
      | (Inr len_bytes, os1) \<Rightarrow>
          (let len = unat (u32_from_be len_bytes) in
           if len = 0 \<or> len > MAX_HANDSHAKE_FRAME then (Inl (Protocol ''bad handshake frame length''), os1)
           else case s_read_exact ops fd len os1 of
             (Inl e, os2) \<Rightarrow> (Inl (Io e), os2)
           | (Inr buf, os2) \<Rightarrow> (Inr buf, os2)))"

definition initiator_handshake ::
  "crypto_lib \<Rightarrow> 'os tcp_ops \<Rightarrow> int \<Rightarrow> bytes \<times> bytes \<Rightarrow> IdentityMaterial \<Rightarrow> CipherSuite \<Rightarrow> 'os \<Rightarrow>
     (OverSocketError + SessionKeys) \<times> 'os" where
  "initiator_handshake lib ops fd rand identity suite os =
     (case engine_begin_initiator lib suite (fst rand) (snd rand) identity of
        Inl e \<Rightarrow> (Inl (SocketCrypto e), os)
      | Inr (state, hello_body) \<Rightarrow>
          (case write_frame ops fd hello_body os of
             (Inl e, os1) \<Rightarrow> (Inl e, os1)
           | (Inr _, os1) \<Rightarrow>
               (case read_frame ops fd os1 of
                  (Inl e, os2) \<Rightarrow> (Inl e, os2)
                | (Inr server_hello, os2) \<Rightarrow>
                    (map_err SocketCrypto (InitiatorState_finish lib state identity server_hello), os2))))"

definition responder_handshake ::
  "crypto_lib \<Rightarrow> 'os tcp_ops \<Rightarrow> int \<Rightarrow> bytes \<times> bytes \<Rightarrow> IdentityMaterial \<Rightarrow> CipherSuite \<Rightarrow> 'os \<Rightarrow>
     (OverSocketError + SessionKeys) \<times> 'os" where
  "responder_handshake lib ops fd rand identity suite os =
     (case read_frame ops fd os of
        (Inl e, os1) \<Rightarrow> (Inl e, os1)
      | (Inr hello_body, os1) \<Rightarrow>
          (case engine_respond lib suite (fst rand) (snd rand) identity hello_body of
             Inl e \<Rightarrow> (Inl (SocketCrypto e), os1)
           | Inr (keys, server_hello) \<Rightarrow>
               (case write_frame ops fd server_hello os1 of
                  (Inl e, os2) \<Rightarrow> (Inl e, os2)
                | (Inr _, os2) \<Rightarrow> (Inr keys, os2))))"

text \<open>Leaving early drops the stream, which closes its socket.\<close>

definition establish_and_bridge ::
  "crypto_lib \<Rightarrow> bool \<Rightarrow> 'os tcp_ops \<Rightarrow> int \<Rightarrow> bytes \<times> bytes \<Rightarrow> IdentityMaterial \<Rightarrow> CipherSuite \<Rightarrow> HandshakeRole \<Rightarrow>
     'os \<Rightarrow> (OverSocketError + unit) outcome \<times> 'os" where
  "establish_and_bridge lib big ops fd rand identity suite role os =
     (case (case role of Initiator \<Rightarrow> initiator_handshake lib ops fd rand identity suite os
                       | Responder \<Rightarrow> responder_handshake lib ops fd rand identity suite os) of
        (Inl e, os1) \<Rightarrow> (Ret (Inl e), t_close ops fd os1)
      | (Inr keys, os1) \<Rightarrow>
          (case s_into_std ops fd os1 of
             (Some e, os2) \<Rightarrow> (Ret (Inl (Io e)), t_close ops fd os2)
           | (None, os2) \<Rightarrow>
               (case bridge_session_to_ktls lib big ops fd keys os2 of
                  (Panic, os3) \<Rightarrow> (Panic, os3)
                | (Ret r, os3) \<Rightarrow> (Ret (map_err SocketKtls r), os3))))"

section \<open>Byte streams\<close>

text \<open>\<open>inb os\<close> is what is still to be read from \<open>fd\<close>, \<open>outb os\<close> what has been written to it. An
  operation that fails may have written a part of its bytes; socket options write nothing.\<close>

definition tcp_stream :: "'os tcp_ops \<Rightarrow> int \<Rightarrow> ('os \<Rightarrow> bytes) \<Rightarrow> ('os \<Rightarrow> bytes) \<Rightarrow> bool" where
  "tcp_stream ops fd inb outb \<longleftrightarrow>
     (\<forall>n os r os'. s_read_exact ops fd n os = (r, os') \<longrightarrow> outb os' = outb os \<and>
        (\<forall>bs. r = Inr bs \<longrightarrow> length bs = n \<and> inb os = bs @ inb os')) \<and>
     (\<forall>bs os os'. s_write_all ops fd bs os = (None, os') \<longrightarrow> outb os' = outb os @ bs \<and> inb os' = inb os) \<and>
     (\<forall>bs os e os'. s_write_all ops fd bs os = (Some e, os') \<longrightarrow> (\<exists>k. outb os' = outb os @ take k bs)) \<and>
     (\<forall>os r os'. s_flush ops fd os = (r, os') \<longrightarrow> outb os' = outb os \<and> inb os' = inb os) \<and>
     (\<forall>os. outb (snd (s_into_std ops fd os)) = outb os) \<and>
     (\<forall>level opt bs os. outb (snd (t_setsockopt ops fd level opt bs os)) = outb os) \<and>
     (\<forall>os. outb (t_shutdown ops fd os) = outb os) \<and> (\<forall>os. outb (t_close ops fd os) = outb os)"

definition reliable :: "'os tcp_ops \<Rightarrow> int \<Rightarrow> ('os \<Rightarrow> bytes) \<Rightarrow> bool" where
  "reliable ops fd inb \<longleftrightarrow>
     (\<forall>n os. n \<le> length (inb os) \<longrightarrow> (\<exists>bs os'. s_read_exact ops fd n os = (Inr bs, os'))) \<and>
     (\<forall>bs os. fst (s_write_all ops fd bs os) = None) \<and> (\<forall>os. fst (s_flush ops fd os) = None)"

definition framed :: "bytes \<Rightarrow> bytes" where
  "framed p = u32_to_be (word_of_nat (length p)) @ p"

lemma stream_write_fails:
  "tcp_stream ops fd inb outb \<Longrightarrow> s_write_all ops fd bs os = (Some e, os') \<Longrightarrow> \<exists>k. outb os' = outb os @ take k bs"
  by (simp add: tcp_stream_def)

lemma framed_length:
  assumes "length p \<le> MAX_HANDSHAKE_FRAME"
  shows "unat (u32_from_be (u32_to_be (word_of_nat (length p)))) = length p"
  using assms by (simp add: MAX_HANDSHAKE_FRAME_def unat_of_nat)

lemma write_frame_ok:
  assumes "tcp_stream ops fd inb outb" and "reliable ops fd inb" and "length p \<le> MAX_HANDSHAKE_FRAME"
  obtains os' where "write_frame ops fd p os = (Inr (), os')" "outb os' = outb os @ framed p" "inb os' = inb os"
proof -
  let ?h = "u32_to_be (word_of_nat (length p))"
  obtain o1 where w1: "s_write_all ops fd ?h os = (None, o1)" using assms(2) unfolding reliable_def by (metis prod.collapse)
  obtain o2 where w2: "s_write_all ops fd p o1 = (None, o2)" using assms(2) unfolding reliable_def by (metis prod.collapse)
  obtain o3 where f: "s_flush ops fd o2 = (None, o3)" using assms(2) unfolding reliable_def by (metis prod.collapse)
  have "outb o3 = outb os @ framed p" "inb o3 = inb os"
    using assms(1) w1 w2 f unfolding tcp_stream_def framed_def by (metis append.assoc)+
  moreover have "write_frame ops fd p os = (Inr (), o3)" using w1 w2 f assms(3) by (simp add: write_frame_def)
  ultimately show thesis by (intro that)
qed

lemma read_frame_ok:
  assumes "tcp_stream ops fd inb outb" and "reliable ops fd inb"
    and "0 < length p" and "length p \<le> MAX_HANDSHAKE_FRAME" and "inb os = framed p @ rest"
  obtains os' where "read_frame ops fd os = (Inr p, os')" "outb os' = outb os" "inb os' = rest"
proof -
  let ?h = "u32_to_be (word_of_nat (length p))"
  have "4 \<le> length (inb os)" using assms(5) by (simp add: framed_def)
  then obtain b o1 where r1: "s_read_exact ops fd 4 os = (Inr b, o1)" using assms(2) unfolding reliable_def by blast
  with assms(1,5) have o1: "outb o1 = outb os" "b = ?h" "inb o1 = p @ rest"
    unfolding tcp_stream_def framed_def by (metis append.assoc append_eq_append_conv length_u32_to_be)+
  have "length p \<le> length (inb o1)" using o1 by simp
  then obtain c o2 where r2: "s_read_exact ops fd (length p) o1 = (Inr c, o2)" using assms(2) unfolding reliable_def by blast
  with assms(1) o1 have o2: "outb o2 = outb os" "c = p" "inb o2 = rest"
    unfolding tcp_stream_def by (metis append_eq_append_conv)+
  have "read_frame ops fd os = (Inr p, o2)"
    using r1 r2 o1 o2 assms(3,4) framed_length [OF assms(4)] by (simp add: read_frame_def)
  then show thesis using o2 by (intro that)
qed

lemma read_frame_quiet:
  "tcp_stream ops fd inb outb \<Longrightarrow> outb (snd (read_frame ops fd os)) = outb os"
  unfolding tcp_stream_def read_frame_def
  by (auto simp: Let_def split: prod.split sum.split)

lemma write_frame_partial:
  assumes "tcp_stream ops fd inb outb"
  shows "\<exists>k. outb (snd (write_frame ops fd p os)) = outb os @ take k (framed p)"
proof -
  let ?h = "u32_to_be (word_of_nat (length p))"
  obtain r1 o1 where w1: "s_write_all ops fd ?h os = (r1, o1)" by fastforce
  obtain r2 o2 where w2: "s_write_all ops fd p o1 = (r2, o2)" by fastforce
  obtain r3 o3 where f: "s_flush ops fd o2 = (r3, o3)" by fastforce
  have f3: "outb o3 = outb o2" using assms f unfolding tcp_stream_def by blast
  show ?thesis
  proof (cases "length p > MAX_HANDSHAKE_FRAME")
    case True
    then show ?thesis by (intro exI [of _ 0]) (simp add: write_frame_def)
  next
    case short: False
    show ?thesis
    proof (cases r1)
      case (Some e)
      with w1 stream_write_fails [OF assms] obtain k where "outb o1 = outb os @ take k ?h" by blast
      then show ?thesis using w1 Some short
        by (intro exI [of _ "min k 4"]) (simp add: write_frame_def framed_def min_def)
    next
      case None
      with w1 assms have o1: "outb o1 = outb os @ ?h" unfolding tcp_stream_def by blast
      have "\<exists>k. outb o2 = outb o1 @ take k p"
        using w2 assms unfolding tcp_stream_def by (cases r2) (metis order_refl take_all, metis)
      then obtain k where "outb o2 = outb o1 @ take k p" by blast
      then show ?thesis using w1 w2 f None short o1 f3
        by (intro exI [of _ "4 + k"]) (simp add: write_frame_def framed_def split: option.split)
    qed
  qed
qed

text \<open>C17. Two daemons agree over a socket: when the identities pin each other and the bytes each side
  writes are the bytes the other side reads, over streams that lose nothing, the initiator and the
  responder both finish, and the key material they hand to the kernel is crosswise the same,
  including its memory layout.\<close>

theorem over_socket_agreement:
  assumes "mutual lib a b" and "tcp_stream ops fd inb outb" and "reliable ops fd inb"
    and "initiator_handshake lib ops fd ri a suite os_i = (res_i, os_i')"
    and "responder_handshake lib ops fd rr b suite os_r = (res_r, os_r')"
    and "outb os_i = []" and "outb os_r = []" and "inb os_r = outb os_i'" and "inb os_i = outb os_r'"
  shows "\<exists>ki kr ti tr. res_i = Inr ki \<and> res_r = Inr kr \<and>
    export_ktls lib ki = Some ti \<and> export_ktls lib kr = Some tr \<and>
    crypto_info big (from_traffic_secret (ktk_tx ti)) = crypto_info big (from_traffic_secret (ktk_rx tr)) \<and>
    crypto_info big (from_traffic_secret (ktk_rx ti)) = crypto_info big (from_traffic_secret (ktk_tx tr)) \<and>
    length (crypto_info big (from_traffic_secret (ktk_tx ti))) = 56"
proof -
  from engine.completes [OF assms(1), of suite ri rr] obtain st ch ks sh kc where
    e: "engine_begin_initiator lib suite (fst ri) (snd ri) a = Inr (st, ch)"
      "engine_respond lib suite (fst rr) (snd rr) b ch = Inr (ks, sh)"
      "InitiatorState_finish lib st a sh = Inr kc" "fresh_mirror kc ks"
    and len: "0 < length ch" "length ch \<le> MAX_HANDSHAKE_FRAME" "0 < length sh" "length sh \<le> MAX_HANDSHAKE_FRAME"
    by (force simp: split_beta MAX_HANDSHAKE_FRAME_def)
  obtain o1 where w: "write_frame ops fd ch os_i = (Inr (), o1)" "outb o1 = framed ch" "inb o1 = inb os_i"
    using write_frame_ok [OF assms(2,3) len(2), of os_i] assms(6) by auto
  have "outb (snd (read_frame ops fd o1)) = framed ch" using read_frame_quiet [OF assms(2)] w(2) by simp
  with assms(4) e(1) w(1) have "outb os_i' = framed ch"
    by (auto simp: initiator_handshake_def split: prod.split_asm sum.split_asm)
  with assms(8) have "inb os_r = framed ch @ []" by simp
  from read_frame_ok [OF assms(2,3) len(1,2) this] obtain p1 where
    p1: "read_frame ops fd os_r = (Inr ch, p1)" "outb p1 = []" "inb p1 = []" using assms(7) by metis
  obtain p2 where p2: "write_frame ops fd sh p1 = (Inr (), p2)" "outb p2 = framed sh"
    using write_frame_ok [OF assms(2,3) len(4), of p1] p1(2) by auto
  have r: "res_r = Inr ks" "outb os_r' = framed sh"
    using assms(5) p1 p2 e(2) by (simp_all add: responder_handshake_def)
  with w(3) assms(9) have "inb o1 = framed sh @ []" by simp
  from read_frame_ok [OF assms(2,3) len(3,4) this] obtain o2 where "read_frame ops fd o1 = (Inr sh, o2)" by metis
  with assms(4) e w(1) have i: "res_i = Inr kc" by (simp add: initiator_handshake_def map_err_def)
  have "hkdf_laws lib" using assms(1) by (simp add: mutual_def crypto_laws_def)
  from ktls_export_mirrored [OF this e(4)] i r(1) show ?thesis
    by (auto simp: crypto_info_def from_traffic_secret_def KTLS_REC_SEQ_LEN_def)
qed

section \<open>Failing closed\<close>

lemma frames_keep_mode:
  assumes "ktls_kernel ops fd sock"
  shows "sock (snd (write_frame ops fd p os)) = sock os" and "sock (snd (read_frame ops fd os)) = sock os"
proof -
  have k: "sock os' = sock os" if "s_write_all ops fd bs os = (r, os')" for bs os r os'
    using that assms unfolding ktls_kernel_def by (metis snd_conv)
  have f: "sock os' = sock os" if "s_flush ops fd os = (r, os')" for os r os'
    using that assms unfolding ktls_kernel_def by (metis snd_conv)
  have r: "sock os' = sock os" if "s_read_exact ops fd n os = (x, os')" for n os x os'
    using that assms unfolding ktls_kernel_def by (metis snd_conv)
  show "sock (snd (write_frame ops fd p os)) = sock os"
    by (auto simp: write_frame_def dest!: k f split: prod.split option.split)
  show "sock (snd (read_frame ops fd os)) = sock os"
    by (auto simp: read_frame_def Let_def dest!: r split: prod.split sum.split)
qed

definition handshake_only :: "crypto_lib \<Rightarrow> bytes \<Rightarrow> bool" where
  "handshake_only lib x \<longleftrightarrow> x = [] \<or> (\<exists>tag msg k. handshake_message lib tag msg \<and> x = take k (framed msg))"

lemma roles_write_handshake:
  assumes "tcp_stream ops fd inb outb"
  shows "\<exists>x. handshake_only lib x \<and> outb (snd (initiator_handshake lib ops fd rand i suite os)) = outb os @ x"
    and "\<exists>x. handshake_only lib x \<and> outb (snd (responder_handshake lib ops fd rand i suite os)) = outb os @ x"
proof -
  have wf: "\<exists>x. handshake_only lib x \<and> outb os' = outb os @ x"
    if "write_frame ops fd p os = (r, os')" "handshake_message lib tag p" for p os r os' tag
    using write_frame_partial [OF assms, of p os] that unfolding handshake_only_def by auto
  have rf: "outb os' = outb os" if "read_frame ops fd os = (r, os')" for os r os'
    using read_frame_quiet [OF assms, of os] that by simp
  have none: "\<exists>x. handshake_only lib x \<and> outb os = outb os @ x" for os by (simp add: handshake_only_def)
  show "\<exists>x. handshake_only lib x \<and> outb (snd (initiator_handshake lib ops fd rand i suite os)) = outb os @ x"
  proof (cases "engine_begin_initiator lib suite (fst rand) (snd rand) i")
    case (Inl e)
    then show ?thesis using none by (simp add: initiator_handshake_def)
  next
    case (Inr x)
    obtain st ch where x: "x = (st, ch)" by fastforce
    obtain r o1 where w: "write_frame ops fd ch os = (r, o1)" by fastforce
    obtain r' o2 where r: "read_frame ops fd o1 = (r', o2)" by fastforce
    have "outb (snd (initiator_handshake lib ops fd rand i suite os)) = outb o1"
      using Inr x w r rf [OF r] by (auto simp: initiator_handshake_def split: sum.split)
    then show ?thesis using wf [OF w handshake_message.client_hello] Inr x by simp
  qed
  show "\<exists>x. handshake_only lib x \<and> outb (snd (responder_handshake lib ops fd rand i suite os)) = outb os @ x"
  proof -
    obtain r o1 where rd: "read_frame ops fd os = (r, o1)" by fastforce
    show ?thesis
    proof (cases "\<exists>hello y. r = Inr hello \<and> engine_respond lib suite (fst rand) (snd rand) i hello = Inr y")
      case False
      then show ?thesis using rd rf [OF rd] none [of os]
        by (auto simp: responder_handshake_def split: sum.split)
    next
      case True
      then obtain hello ks sh where t: "r = Inr hello" "engine_respond lib suite (fst rand) (snd rand) i hello = Inr (ks, sh)" by auto
      obtain r' o2 where w: "write_frame ops fd sh o1 = (r', o2)" by fastforce
      have "outb (snd (responder_handshake lib ops fd rand i suite os)) = outb o2"
        using t rd w by (auto simp: responder_handshake_def split: sum.split)
      then show ?thesis using wf [OF w handshake_message.server_hello [OF t(2)]] rf [OF rd] by simp
    qed
  qed
qed

lemma roles_keep_mode:
  assumes "ktls_kernel ops fd sock"
  shows "sock (snd (initiator_handshake lib ops fd rand i suite os)) = sock os"
    and "sock (snd (responder_handshake lib ops fd rand i suite os)) = sock os"
proof -
  have w: "sock os' = sock os" if "write_frame ops fd p os = (r, os')" for p os r os'
    using frames_keep_mode(1) [OF assms, of p os] that by simp
  have r: "sock os' = sock os" if "read_frame ops fd os = (r, os')" for os r os'
    using frames_keep_mode(2) [OF assms, of os] that by simp
  show "sock (snd (initiator_handshake lib ops fd rand i suite os)) = sock os"
    by (auto simp: initiator_handshake_def dest!: w r split: sum.split prod.split)
  show "sock (snd (responder_handshake lib ops fd rand i suite os)) = sock os"
    by (auto simp: responder_handshake_def dest!: w r split: sum.split prod.split)
qed

lemma bridge_quiet:
  assumes "tcp_stream ops fd inb outb"
  shows "outb (snd (bridge_session_to_ktls lib big ops fd keys os)) = outb os"
proof -
  have s: "outb os' = outb os" if "t_setsockopt ops fd l opt bs os = (r, os')" for l opt bs os r os'
    using that assms unfolding tcp_stream_def by (metis snd_conv)
  have "outb os' = outb os" if "install_ktls_duplex big ops fd d os = (r, os')" for d r os'
    using that by (auto simp: install_ktls_duplex_def attach_tls_ulp_def install_ktls_tx_def install_ktls_rx_def
        install_direction_def dest!: s split: prod.split_asm option.split_asm)
  then show ?thesis using assms
    by (auto simp: bridge_session_to_ktls_def install_ktls_keys_def fail_closed_shutdown_def tcp_stream_def Let_def
        split: option.split prod.split sum.split)
qed

lemma establish_cases:
  assumes "establish_and_bridge lib big ops fd rand i suite role os = (r, os')"
  obtains (handshake) e o1 where "snd (case role of Initiator \<Rightarrow> initiator_handshake lib ops fd rand i suite os
        | Responder \<Rightarrow> responder_handshake lib ops fd rand i suite os) = o1" "r = Ret (Inl e)" "os' = t_close ops fd o1"
  | (convert) e o1 o2 where "snd (case role of Initiator \<Rightarrow> initiator_handshake lib ops fd rand i suite os
        | Responder \<Rightarrow> responder_handshake lib ops fd rand i suite os) = o1" "s_into_std ops fd o1 = (Some e, o2)"
      "r = Ret (Inl (Io e))" "os' = t_close ops fd o2"
  | (bridge) keys o1 o2 q where "snd (case role of Initiator \<Rightarrow> initiator_handshake lib ops fd rand i suite os
        | Responder \<Rightarrow> responder_handshake lib ops fd rand i suite os) = o1" "s_into_std ops fd o1 = (None, o2)"
      "bridge_session_to_ktls lib big ops fd keys o2 = (q, os')"
      "r = (case q of Panic \<Rightarrow> Panic | Ret x \<Rightarrow> Ret (map_err SocketKtls x))"
proof -
  obtain y o1 where h: "(case role of Initiator \<Rightarrow> initiator_handshake lib ops fd rand i suite os
      | Responder \<Rightarrow> responder_handshake lib ops fd rand i suite os) = (y, o1)" by fastforce
  show thesis
  proof (cases y)
    case (Inl e)
    then show thesis using assms h handshake [of o1 e] by (simp add: establish_and_bridge_def)
  next
    case (Inr keys)
    obtain z o2 where z: "s_into_std ops fd o1 = (z, o2)" by fastforce
    obtain q o3 where q: "bridge_session_to_ktls lib big ops fd keys o2 = (q, o3)" by fastforce
    show thesis
    proof (cases z)
      case (Some e)
      then show thesis using assms h Inr z convert [of o1 e o2] by (simp add: establish_and_bridge_def)
    next
      case None
      have "os' = o3" "r = (case q of Panic \<Rightarrow> Panic | Ret x \<Rightarrow> Ret (map_err SocketKtls x))"
        using assms h Inr z None q by (auto simp: establish_and_bridge_def split: outcome.split_asm)
      then show thesis using bridge [of o1 o2 keys q] h z None q by simp
    qed
  qed
qed

lemma establish_settles:
  assumes "ktls_kernel ops fd sock" and "hkdf_laws lib" and "sock os = Plain"
    and "establish_and_bridge lib big ops fd rand i suite role os = (r, os')"
  shows "(\<exists>t. r = Ret (Inr ()) \<and> sock os' = installed big t) \<or> (\<exists>e. r = Ret (Inl e) \<and> sock os' = Closed)"
proof -
  have close: "sock (t_close ops fd o2) = Closed" for o2 using assms(1) by (simp add: ktls_kernel_def)
  have plain: "sock (snd (case role of Initiator \<Rightarrow> initiator_handshake lib ops fd rand i suite os
      | Responder \<Rightarrow> responder_handshake lib ops fd rand i suite os)) = Plain"
    using roles_keep_mode [OF assms(1), of lib rand i suite os] assms(3) by (cases role) simp_all
  from assms(4) show ?thesis
  proof (cases rule: establish_cases)
    case (bridge keys o1 o2 q)
    have "sock o2 = Plain" using assms(1) bridge(1,2) plain by (simp add: ktls_kernel_def)
    from bridge_decides [OF assms(1,2) this bridge(3)] show ?thesis using bridge(4) by (auto simp: map_err_def)
  qed (simp_all add: close)
qed

lemma establish_writes:
  assumes "tcp_stream ops fd inb outb"
    and "establish_and_bridge lib big ops fd rand i suite role os = (r, os')"
  shows "\<exists>x. outb os' = outb os @ x \<and> handshake_only lib x"
proof -
  have close: "outb (t_close ops fd o2) = outb o2" for o2 using assms(1) by (simp add: tcp_stream_def)
  have std: "outb o2 = outb o1" if "s_into_std ops fd o1 = (z, o2)" for z o1 o2
    using assms(1) that unfolding tcp_stream_def by (metis snd_conv)
  obtain x where x: "handshake_only lib x" "outb (snd (case role of Initiator \<Rightarrow> initiator_handshake lib ops fd rand i suite os
      | Responder \<Rightarrow> responder_handshake lib ops fd rand i suite os)) = outb os @ x"
    using roles_write_handshake [OF assms(1), of lib rand i suite os] by (cases role) auto
  from assms(2) show ?thesis
  proof (cases rule: establish_cases)
    case (bridge keys o1 o2 q)
    with bridge_quiet [OF assms(1), of lib big keys o2] have "outb os' = outb o2" by simp
    then show ?thesis using x bridge(1) std [OF bridge(2)] by auto
  next
    case (convert e o1 o2)
    then show ?thesis using x close std [OF convert(2)] by auto
  next
    case (handshake e o1)
    then show ?thesis using x close by auto
  qed
qed

text \<open>C18. A daemon session fails closed. Whatever the peer sends and whatever fails, when the hand-over
  ends the socket either carries the key material of the established session in both directions
  and the call succeeded, or it is closed and the call reports an error; there is no panic; and all
  that was ever written to the socket in the clear is a prefix of one framed handshake message.\<close>

theorem over_socket_fails_closed:
  assumes "ktls_kernel ops fd sock" and "tcp_stream ops fd inb outb" and "hkdf_laws lib" and "sock os = Plain"
    and "establish_and_bridge lib big ops fd rand i suite role os = (r, os')"
  shows "((\<exists>t. r = Ret (Inr ()) \<and> sock os' = installed big t) \<or> (\<exists>e. r = Ret (Inl e) \<and> sock os' = Closed)) \<and>
    (\<exists>x. outb os' = outb os @ x \<and>
       (x = [] \<or> (\<exists>tag msg k. handshake_message lib tag msg \<and> x = take k (framed msg))))"
  using establish_settles [OF assms(1,3-5)] establish_writes [OF assms(2,5)] unfolding handshake_only_def by blast

section \<open>Instances\<close>

lemma toy_tcp_stream: "tcp_stream (toy_tcp_ops b) fd tt_in tt_out"
  unfolding tcp_stream_def by (auto simp: toy_tcp_ops_def toy_setsockopt_def split: sockstate.split if_split_asm)

lemma toy_reliable: "reliable (toy_tcp_ops b) fd tt_in"
  by (simp add: reliable_def toy_tcp_ops_def)

theorem over_socket_agreement_witness:
  "\<exists>os_i os_r ki kr. fst (initiator_handshake toy_lib (toy_tcp_ops True) 4 ([1], [2]) (toy_id 1 2) NistStandard768 os_i) = Inr ki \<and>
     fst (responder_handshake toy_lib (toy_tcp_ops True) 4 ([3], [4]) (toy_id 2 1) NistStandard768 os_r) = Inr kr"
proof -
  let ?ops = "toy_tcp_ops True"
  from engine.completes [OF toy_id_mutual [of 1 2], of NistStandard768 "([1], [2])" "([3], [4])"] obtain st ch ks sh where
    e: "engine_begin_initiator toy_lib NistStandard768 [1] [2] (toy_id 1 2) = Inr (st, ch)"
      "engine_respond toy_lib NistStandard768 [3] [4] (toy_id 2 1) ch = Inr (ks, sh)"
    and len: "0 < length ch" "length ch \<le> MAX_HANDSHAKE_FRAME" "0 < length sh" "length sh \<le> MAX_HANDSHAKE_FRAME"
    by (auto simp: MAX_HANDSHAKE_FRAME_def)
  let ?i = "\<lparr>tt_sock = Plain, tt_in = framed sh, tt_out = []\<rparr>" and ?r = "\<lparr>tt_sock = Plain, tt_in = framed ch, tt_out = []\<rparr>"
  obtain ri i' where i: "initiator_handshake toy_lib ?ops 4 ([1], [2]) (toy_id 1 2) NistStandard768 ?i = (ri, i')" by fastforce
  obtain rr r' where r: "responder_handshake toy_lib ?ops 4 ([3], [4]) (toy_id 2 1) NistStandard768 ?r = (rr, r')" by fastforce
  obtain o1 where w: "write_frame ?ops 4 ch ?i = (Inr (), o1)" "tt_out o1 = framed ch"
    using write_frame_ok [OF toy_tcp_stream toy_reliable len(2), of True 4 ?i] by auto
  have "tt_out i' = framed ch"
    using read_frame_quiet [OF toy_tcp_stream, of True 4 o1] i e(1) w
    by (auto simp: initiator_handshake_def split: prod.split_asm sum.split_asm)
  moreover from read_frame_ok [OF toy_tcp_stream toy_reliable len(1,2), of ?r "[]" True 4] obtain p1 where
    p1: "read_frame ?ops 4 ?r = (Inr ch, p1)" "tt_out p1 = []" by auto
  obtain p2 where "write_frame ?ops 4 sh p1 = (Inr (), p2)" "tt_out p2 = framed sh"
    using write_frame_ok [OF toy_tcp_stream toy_reliable len(4), of True 4 p1] p1(2) by auto
  with p1 e(2) r have "tt_out r' = framed sh" by (simp add: responder_handshake_def)
  ultimately show ?thesis
    using over_socket_agreement [OF toy_id_mutual [of 1 2] toy_tcp_stream toy_reliable i r] i r by (metis fst_conv toy_tcp.select_convs(2,3))
qed

theorem over_socket_fails_closed_witness:
  "\<exists>r os'. establish_and_bridge toy_lib False (toy_tcp_ops True) 4 ([1], [2]) (toy_id 1 2) NistStandard768 Responder
      \<lparr>tt_sock = Plain, tt_in = [0, 0, 0, 1, 9], tt_out = []\<rparr> = (r, os') \<and>
     ((\<exists>t. r = Ret (Inr ()) \<and> tt_sock os' = installed False t) \<or> (\<exists>e. r = Ret (Inl e) \<and> tt_sock os' = Closed))"
proof -
  let ?os = "\<lparr>tt_sock = Plain, tt_in = [0, 0, 0, 1, 9], tt_out = []\<rparr>"
  obtain r os' where run: "establish_and_bridge toy_lib False (toy_tcp_ops True) 4 ([1], [2]) (toy_id 1 2)
      NistStandard768 Responder ?os = (r, os')" by fastforce
  from over_socket_fails_closed [OF toy_ktls_kernel toy_tcp_stream toy_hkdf _ run] run show ?thesis by simp
qed

end
