(* ===== verification/Control_Daemon.thy ===== *)
theory Control_Daemon
  imports Over_Socket Fd_Passing
begin

text \<open>
  The control daemon (\<open>src/bin/daemon.rs\<close>): answering up-calls and ring-buffer records, serving a
  paused socket, taking over a passed descriptor, and the choice of mode at start. JSON decoding
  and encoding, the operating system's error texts and the asynchronous runtime are parameters.
\<close>

section \<open>Error texts\<close>

definition show_int :: "int \<Rightarrow> string" where
  "show_int i = (if i < 0 then CHR ''-'' # show_nat (nat (- i)) else show_nat (nat i))"

fun CryptoError_debug :: "CryptoError \<Rightarrow> string" where
  "CryptoError_debug BadHelloLength = ''BadHelloLength''"
| "CryptoError_debug BadIdentityConfig = ''BadIdentityConfig''"
| "CryptoError_debug Authentication = ''Authentication''"
| "CryptoError_debug MlKemDecode = ''MlKemDecode''"
| "CryptoError_debug Decapsulate = ''Decapsulate''"
| "CryptoError_debug Hkdf = ''Hkdf''"
| "CryptoError_debug Encrypt = ''Encrypt''"
| "CryptoError_debug Decrypt = ''Decrypt''"
| "CryptoError_debug NonceExhausted = ''NonceExhausted''"

definition KtlsError_display :: "(int \<Rightarrow> string) \<Rightarrow> KtlsError \<Rightarrow> string" where
  "KtlsError_display strerror e =
     ''kTLS '' @ ke_stage e @ '' failed: errno '' @ show_int (ke_errno e) @ '' ('' @ strerror (ke_errno e) @ '')''"

fun KernelNativeError_display :: "(int \<Rightarrow> string) \<Rightarrow> KernelNativeError \<Rightarrow> string" where
  "KernelNativeError_display strerror Config = ''kernel-native policy or identity is unavailable''"
| "KernelNativeError_display strerror (Crypto e) = ''hybrid PQC handshake failed: '' @ CryptoError_debug e"
| "KernelNativeError_display strerror MissingSocketReference =
     ''kernel upcall did not include an installable socket reference''"
| "KernelNativeError_display strerror KtlsUnavailable = ''kernel TLS (kTLS) ULP is unavailable on this host''"
| "KernelNativeError_display strerror (Ktls e) = KtlsError_display strerror e"

section \<open>Up-calls and records\<close>

record UpcallResponse =
  ur_socket_id :: u64
  ur_status :: string
  ur_message :: string

text \<open>What an up-call runs against: the configuration, the random inputs of the two local roles, and
  the texts of error numbers.\<close>

record upcall_env =
  ue_lock :: config_lock
  ue_initiator :: "bytes \<times> bytes"
  ue_responder :: "bytes \<times> bytes"
  ue_strerror :: "int \<Rightarrow> string"

definition run_upcall ::
  "crypto_lib \<Rightarrow> bool \<Rightarrow> 'os tcp_ops \<Rightarrow> upcall_env \<Rightarrow> KernelUpcall \<Rightarrow> 'os \<Rightarrow> UpcallResponse outcome \<times> 'os" where
  "run_upcall lib big ops ue upcall os =
     (case complete_kernel_upcall lib big ops (ue_lock ue) (ue_initiator ue) (ue_responder ue) upcall os of
        (Panic, os1) \<Rightarrow> (Panic, os1)
      | (Ret (Inr _), os1) \<Rightarrow>
          (Ret \<lparr>ur_socket_id = ku_socket_id upcall, ur_status = ''ok'',
             ur_message = ''kernel-native enforcement completed (kTLS installed)''\<rparr>, os1)
      | (Ret (Inl e), os1) \<Rightarrow>
          (Ret \<lparr>ur_socket_id = ku_socket_id upcall, ur_status = ''fail_closed'',
             ur_message = KernelNativeError_display (ue_strerror ue) e\<rparr>, os1))"

definition process_event_record ::
  "crypto_lib \<Rightarrow> bool \<Rightarrow> 'os tcp_ops \<Rightarrow> upcall_env \<Rightarrow> bytes \<Rightarrow> int option \<Rightarrow> 'os \<Rightarrow> UpcallResponse outcome \<times> 'os" where
  "process_event_record lib big ops ue record fd os =
     (case KernelSockEvent_from_bytes big record of
        Some ev \<Rightarrow> run_upcall lib big ops ue (to_upcall ev fd) os
      | None \<Rightarrow> (Ret \<lparr>ur_socket_id = 0, ur_status = ''bad_request'',
          ur_message = ''short RingBuf record ('' @ show_nat (length record) @ '' bytes)''\<rparr>, os))"

text \<open>The answer is the bytes written back; \<open>from_slice\<close> and \<open>to_vec\<close> are the JSON library.\<close>

definition handle_stream ::
  "crypto_lib \<Rightarrow> bool \<Rightarrow> 'os tcp_ops \<Rightarrow> upcall_env \<Rightarrow> (bytes \<Rightarrow> string + KernelUpcall) \<Rightarrow>
     (UpcallResponse \<Rightarrow> string + bytes) \<Rightarrow> bytes \<Rightarrow> 'os \<Rightarrow> (string + bytes) outcome \<times> 'os" where
  "handle_stream lib big ops ue from_slice to_vec buf os =
     (if buf = [] then (Ret (Inr []), os)
      else case (if length buf = WIRE_LEN then process_event_record lib big ops ue buf None os
                 else case from_slice buf of
                   Inr upcall \<Rightarrow> run_upcall lib big ops ue upcall os
                 | Inl e \<Rightarrow> (Ret \<lparr>ur_socket_id = 0, ur_status = ''bad_request'', ur_message = e\<rparr>, os)) of
        (Panic, os1) \<Rightarrow> (Panic, os1)
      | (Ret response, os1) \<Rightarrow>
          (case to_vec response of
             Inl e \<Rightarrow> (Ret (Inl e), os1)
           | Inr body \<Rightarrow> (Ret (Inr (body @ [10])), os1)))"

section \<open>Paused sockets\<close>

definition serve_over_socket ::
  "crypto_lib \<Rightarrow> bool \<Rightarrow> 'os tcp_ops \<Rightarrow> config_lock \<Rightarrow> bytes \<times> bytes \<Rightarrow> int \<Rightarrow> HandshakeRole \<Rightarrow> 'os \<Rightarrow>
     unit outcome \<times> 'os" where
  "serve_over_socket lib big ops l rand stream role os =
     (case configured_suite l of
        Inl _ \<Rightarrow> (Ret (), t_close ops stream os)
      | Inr suite \<Rightarrow>
          (case resolve_identity l of
             Inl _ \<Rightarrow> (Ret (), t_close ops stream os)
           | Inr identity \<Rightarrow>
               (case establish_and_bridge lib big ops stream rand identity suite role os of
                  (Panic, os1) \<Rightarrow> (Panic, os1)
                | (Ret _, os1) \<Rightarrow> (Ret (), os1))))"

text \<open>Taking over a passed descriptor. The conversions between runtime and standard streams and the
  mode switches can fail; a stream that is dropped is closed.\<close>

record 'os daemon_ops =
  d_unix :: "'os unix_ops"
  d_tcp :: "'os tcp_ops"
  d_into_std :: "int \<Rightarrow> 'os \<Rightarrow> int option \<times> 'os"
  d_set_nonblocking :: "int \<Rightarrow> bool \<Rightarrow> 'os \<Rightarrow> int option \<times> 'os"
  d_from_std :: "int \<Rightarrow> 'os \<Rightarrow> int option \<times> 'os"

definition handle_passed_fd ::
  "crypto_lib \<Rightarrow> bool \<Rightarrow> 'os daemon_ops \<Rightarrow> config_lock \<Rightarrow> bytes \<times> bytes \<Rightarrow> int \<Rightarrow> 'os \<Rightarrow> (int + unit) outcome \<times> 'os" where
  "handle_passed_fd lib big ops l rand channel os =
     (case d_into_std ops channel os of
        (Some e, os1) \<Rightarrow> (Ret (Inl e), u_close (d_unix ops) channel os1)
      | (None, os1) \<Rightarrow>
          (case d_set_nonblocking ops channel False os1 of
             (Some e, os2) \<Rightarrow> (Ret (Inl e), u_close (d_unix ops) channel os2)
           | (None, os2) \<Rightarrow>
               (case recv_fd (d_unix ops) channel os2 of
                  (r, os3) \<Rightarrow>
                    (let os4 = u_close (d_unix ops) channel os3 in
                     case r of
                       Inl e \<Rightarrow> (Ret (Inl e), os4)
                     | Inr (data, None) \<Rightarrow> (Ret (Inr ()), os4)
                     | Inr (data, Some fd) \<Rightarrow>
                         (case d_set_nonblocking ops fd True os4 of
                            (Some e, os5) \<Rightarrow> (Ret (Inl e), u_close (d_unix ops) fd os5)
                          | (None, os5) \<Rightarrow>
                              (case d_from_std ops fd os5 of
                                 (Some e, os6) \<Rightarrow> (Ret (Inl e), u_close (d_unix ops) fd os6)
                               | (None, os6) \<Rightarrow>
                                   (case serve_over_socket lib big (d_tcp ops) l rand fd Responder os6 of
                                      (Panic, os7) \<Rightarrow> (Panic, os7)
                                    | (Ret _, os7) \<Rightarrow> (Ret (Inr ()), os7))))))))"

definition DEFAULT_UPCALL_SOCKET :: string where "DEFAULT_UPCALL_SOCKET = ''/var/run/syntriass.sock''"

datatype daemon_mode = FdPassing rstr | OverSocketListen rstr | Upcalls rstr

definition daemon_main :: "sources \<Rightarrow> daemon_mode" where
  "daemon_main src =
     (case env_var src ''SYNTRIASS_FD_PASSING_UDS'' of
        Some path \<Rightarrow> FdPassing path
      | None \<Rightarrow>
          (case env_var src ''SYNTRIASS_OVERSOCKET_LISTEN'' of
             Some addr \<Rightarrow> OverSocketListen addr
           | None \<Rightarrow>
               Upcalls (case env_var src ''SYNTRIASS_UPCALL_SOCKET'' of
                 Some path \<Rightarrow> path | None \<Rightarrow> lit DEFAULT_UPCALL_SOCKET)))"

section \<open>Telemetry\<close>

text \<open>\<open>src/telemetry.rs\<close>: a gauge and a counter, set from the counters of the kernel maps, which are not
  read yet. The text encoding is library code.\<close>

record KernelTelemetry =
  kt_active_sessions :: int
  kt_bypass_attempts :: nat

definition read_ebpf_atomic_telemetry_maps :: KernelTelemetry where
  "read_ebpf_atomic_telemetry_maps = \<lparr>kt_active_sessions = 0, kt_bypass_attempts = 0\<rparr>"

definition render_kernel_prometheus_metrics ::
  "(KernelTelemetry \<Rightarrow> string + string) \<Rightarrow> KernelTelemetry \<Rightarrow> (string + string) \<times> KernelTelemetry" where
  "render_kernel_prometheus_metrics encode registry =
     (let counters = read_ebpf_atomic_telemetry_maps;
          registry' = registry\<lparr>kt_active_sessions := kt_active_sessions counters,
            kt_bypass_attempts := kt_bypass_attempts registry + kt_bypass_attempts counters\<rparr>
      in (encode registry', registry'))"

definition telemetry_metrics ::
  "(KernelTelemetry \<Rightarrow> string + string) \<Rightarrow> KernelTelemetry \<Rightarrow> (nat \<times> string) \<times> KernelTelemetry" where
  "telemetry_metrics encode registry =
     (case render_kernel_prometheus_metrics encode registry of
        (Inr body, registry') \<Rightarrow> ((200, body), registry')
      | (Inl _, registry') \<Rightarrow> ((500, ''metrics unavailable'' @ [CHR 0x0A]), registry'))"

section \<open>What the daemon guarantees\<close>

text \<open>Whatever the configuration and whatever the peer does, a served socket ends protected or closed.\<close>

lemma serve_decides:
  assumes "ktls_kernel ops fd sock" and "hkdf_laws lib" and "sock os = Plain"
  shows "\<exists>os'. serve_over_socket lib big ops l rand fd role os = (Ret (), os') \<and>
    (sock os' = Closed \<or> (\<exists>t. sock os' = installed big t))"
proof -
  have close: "sock (t_close ops fd os) = Closed" using assms(1) by (simp add: ktls_kernel_def)
  have run: "\<exists>os'. (case establish_and_bridge lib big ops fd rand i suite role os of
      (Panic, os1) \<Rightarrow> (Panic, os1) | (Ret _, os1) \<Rightarrow> (Ret (), os1)) = (Ret (), os') \<and>
      (sock os' = Closed \<or> (\<exists>t. sock os' = installed big t))" for i suite
  proof -
    obtain r os' where e: "establish_and_bridge lib big ops fd rand i suite role os = (r, os')" by fastforce
    from establish_settles [OF assms e] e show ?thesis by auto
  qed
  show ?thesis using close run
    by (auto simp: serve_over_socket_def split: sum.split)
qed

text \<open>What the descriptor calls do to the passed socket \<open>fd\<close>: closing it closes it, closing another one or
  switching its mode leaves it, and so does registering it with the runtime.\<close>

definition daemon_sockets :: "'os daemon_ops \<Rightarrow> int \<Rightarrow> ('os \<Rightarrow> sockstate) \<Rightarrow> bool" where
  "daemon_sockets ops fd sock \<longleftrightarrow>
     (\<forall>os. sock (u_close (d_unix ops) fd os) = Closed) \<and>
     (\<forall>fd' os. fd' \<noteq> fd \<longrightarrow> sock (u_close (d_unix ops) fd' os) = sock os) \<and>
     (\<forall>b os. sock (snd (d_set_nonblocking ops fd b os)) = sock os) \<and>
     (\<forall>os os'. d_from_std ops fd os = (None, os') \<longrightarrow> sock os' = sock os)"

text \<open>A socket passed to the daemon is never left open in the clear. Once the descriptor has been
  received, whatever the configuration, whatever fails and whatever the peer does, the task ends
  without a panic, and then the socket carries key material in both directions or it is closed. A
  task that reports an error has closed it.\<close>

lemma passed_socket_protected_or_closed:
  assumes "daemon_sockets ops fd sock" and "ktls_kernel (d_tcp ops) fd sock"
    and "hkdf_laws lib" and "d_into_std ops channel os = (None, os1)"
    and "d_set_nonblocking ops channel False os1 = (None, os2)"
    and "recv_fd (d_unix ops) channel os2 = (Inr (data, Some fd), os3)" and "fd \<noteq> channel" and "sock os3 = Plain"
  shows "\<exists>r os'. handle_passed_fd lib big ops l rand channel os = (Ret r, os') \<and>
    (sock os' = Closed \<or> (\<exists>t. r = Inr () \<and> sock os' = installed big t))"
proof -
  let ?os4 = "u_close (d_unix ops) channel os3"
  obtain n os5 where n: "d_set_nonblocking ops fd True ?os4 = (n, os5)" by fastforce
  have s5: "sock os5 = Plain"
    using assms(1,7,8) arg_cong [OF n, of "\<lambda>x. sock (snd x)"] by (simp add: daemon_sockets_def)
  obtain f os6 where f: "d_from_std ops fd os5 = (f, os6)" by fastforce
  have closed: "sock (u_close (d_unix ops) fd x) = Closed" for x using assms(1) by (simp add: daemon_sockets_def)
  show ?thesis
  proof (cases "n = None \<and> f = None")
    case True
    then have "sock os6 = Plain" using assms(1) f s5 by (auto simp: daemon_sockets_def)
    from serve_decides [OF assms(2,3) this, of big l rand Responder] obtain os' where
      "serve_over_socket lib big (d_tcp ops) l rand fd Responder os6 = (Ret (), os')"
      "sock os' = Closed \<or> (\<exists>t. sock os' = installed big t)" by blast
    then show ?thesis using True n f assms(4-6) by (auto simp: handle_passed_fd_def Let_def)
  next
    case False
    then show ?thesis using n f assms(4-6) closed
      by (cases n; cases f) (auto simp: handle_passed_fd_def Let_def)
  qed
qed


section \<open>Instances\<close>

definition toy_daemon_ops :: "toy_tcp daemon_ops" where
  "toy_daemon_ops =
     \<lparr>d_unix = \<lparr>u_sendmsg = (\<lambda>_ bs _ os. (Inr (length bs), os)),
        u_recvmsg = (\<lambda>_ _ _ os. (Inr \<lparr>rm_data = [7], rm_ctrunc = False,
           rm_cmsgs = [\<lparr>cmsg_level = 1, cmsg_type = 1, cmsg_len = 20, cmsg_data = [4]\<rparr>]\<rparr>, os)),
        u_close = (\<lambda>fd os. if fd = 4 then os\<lparr>tt_sock := Closed\<rparr> else os)\<rparr>,
      d_tcp = toy_tcp_ops True, d_into_std = (\<lambda>_ os. (None, os)), d_set_nonblocking = (\<lambda>_ _ os. (None, os)),
      d_from_std = (\<lambda>_ os. (None, os))\<rparr>"

lemma passed_socket_protected_or_closed_example:
  "\<exists>r os'. handle_passed_fd toy_lib False toy_daemon_ops (toy_lock (toy_id 1 2)) ([1], [2]) 3
      \<lparr>tt_sock = Plain, tt_in = [0, 0, 0, 1, 9], tt_out = []\<rparr> = (Ret r, os') \<and>
    (tt_sock os' = Closed \<or> (\<exists>t. r = Inr () \<and> tt_sock os' = installed False t))"
proof (rule passed_socket_protected_or_closed)
  show "daemon_sockets toy_daemon_ops 4 tt_sock" by (auto simp: daemon_sockets_def toy_daemon_ops_def)
  show "ktls_kernel (d_tcp toy_daemon_ops) 4 tt_sock" using toy_ktls_kernel by (simp add: toy_daemon_ops_def)
qed (simp_all add: toy_hkdf toy_daemon_ops_def recv_fd_def SOL_SOCKET_def SCM_RIGHTS_def CMSG_LEN_def, simp)

definition toy_ue :: upcall_env where
  "toy_ue = \<lparr>ue_lock = toy_lock (toy_id 1 1), ue_initiator = ([1], [2]), ue_responder = ([3], [4]),
     ue_strerror = (\<lambda>_. ''error'')\<rparr>"

definition toy_event :: KernelSockEvent where
  "toy_event = \<lparr>kse_cookie = 7, kse_cgroup_id = 1, kse_src_addr = replicate 16 0, kse_dst_addr = replicate 16 0,
     kse_src_port = 80, kse_dst_port = 443, kse_family = 2, kse_pad = 0\<rparr>"


end
