(* ===== verification/Secret_Hygiene.thy ===== *)
theory Secret_Hygiene
  imports Control_Daemon
begin

text \<open>
  What the types that hold secrets show of themselves and leave behind. The hand-written \<open>Debug\<close>
  implementations print a structure with the fields its author chose; the \<open>Drop\<close> implementations and the
  constructor of the identity overwrite memory. Texts are rendered as the one-line format of
  \<open>{:?}\<close>; memory is the bytes an object leaves at its place.
\<close>

section \<open>Debug output\<close>

text \<open>What a \<open>debug_struct\<close> builder has collected: the name, the fields in order, and whether
  \<open>finish_non_exhaustive\<close> closed it.\<close>

datatype debug = Text string | Struct string "(string \<times> debug) list" bool

fun render :: "debug \<Rightarrow> string" and render_fields :: "(string \<times> debug) list \<Rightarrow> string" where
  "render (Text s) = s"
| "render (Struct name fs partial) =
     (if fs = [] then name @ (if partial then '' { .. }'' else [])
      else name @ '' { '' @ render_fields fs @ (if partial then '', .. }'' else '' }''))"
| "render_fields [] = []"
| "render_fields ((f, v) # fs) = f @ '': '' @ render v @ (if fs = [] then [] else '', '' @ render_fields fs)"

definition Direction_debug :: "Direction \<Rightarrow> debug" where
  "Direction_debug self = Struct ''Direction'' [(''counter'', Text (show_nat (unat (dir_counter self))))] True"

definition SessionKeys_debug :: "SessionKeys \<Rightarrow> debug" where
  "SessionKeys_debug self = Struct ''SessionKeys'' [] True"

definition KtlsTrafficSecret_debug :: "KtlsTrafficSecret \<Rightarrow> debug" where
  "KtlsTrafficSecret_debug self = Struct ''KtlsTrafficSecret'' [] True"

text \<open>The derived implementations print every field.\<close>

definition KtlsTrafficKeys_debug :: "KtlsTrafficKeys \<Rightarrow> debug" where
  "KtlsTrafficKeys_debug self = Struct ''KtlsTrafficKeys''
     [(''tx'', KtlsTrafficSecret_debug (ktk_tx self)), (''rx'', KtlsTrafficSecret_debug (ktk_rx self))] False"

definition KtlsSecrets_debug :: "KtlsSecrets \<Rightarrow> debug" where
  "KtlsSecrets_debug self = Struct ''KtlsSecrets'' [] True"

definition KtlsDuplexKeys_debug :: "KtlsDuplexKeys \<Rightarrow> debug" where
  "KtlsDuplexKeys_debug self = Struct ''KtlsDuplexKeys''
     [(''tx'', KtlsSecrets_debug (kd_tx self)), (''rx'', KtlsSecrets_debug (kd_rx self))] False"

text \<open>The loop of \<open>hex_preview\<close> appends two digits for each of the first eight bytes.\<close>

fun write_hex :: "string \<Rightarrow> bytes \<Rightarrow> string" where
  "write_hex s [] = s"
| "write_hex s (b # bs) =
     write_hex (s @ [char_of (hex_digit (unat b div 16)), char_of (hex_digit (unat b mod 16))]) bs"

definition hex_preview :: "bytes \<Rightarrow> string" where
  "hex_preview bs = write_hex [] (take 8 bs)"

text \<open>\<open>Debug\<close> of a string puts it in quotes; hexadecimal digits need no escapes.\<close>

definition quoted :: "string \<Rightarrow> debug" where
  "quoted s = Text (CHR 0x22 # s @ [CHR 0x22])"

definition IdentityMaterial_debug :: "IdentityMaterial \<Rightarrow> debug" where
  "IdentityMaterial_debug self = Struct ''IdentityMaterial''
     [(''own_ed25519_public'', quoted (hex_preview (own_ed25519_public self))),
      (''own_mldsa65_public_len'', Text (show_nat (length (own_mldsa65_public self)))),
      (''peer_ed25519_public'', quoted (hex_preview (peer_ed25519_public self))),
      (''peer_mldsa65_public_len'', Text (show_nat (length (peer_mldsa65_public self))))] False"

text \<open>\<open>OverSocketError\<close>: conversion from an I/O error by \<open>?\<close> and the text the daemon logs. \<open>io_text\<close> is
  the operating system's text of an error number.\<close>

definition OverSocketError_from :: "int \<Rightarrow> OverSocketError" where
  "OverSocketError_from e = Io e"

fun OverSocketError_display :: "(int \<Rightarrow> string) \<Rightarrow> (int \<Rightarrow> string) \<Rightarrow> OverSocketError \<Rightarrow> string" where
  "OverSocketError_display strerror io_text (Io e) = ''over-socket I/O error: '' @ io_text e"
| "OverSocketError_display strerror io_text (SocketCrypto e) = ''handshake crypto error: '' @ CryptoError_debug e"
| "OverSocketError_display strerror io_text (Protocol m) = ''handshake protocol error: '' @ m"
| "OverSocketError_display strerror io_text (SocketKtls e) = ''kTLS handoff failed: '' @ KernelNativeError_display strerror e"

section \<open>Scrubbing\<close>

definition zeroize :: "bytes \<Rightarrow> bytes" where
  "zeroize bs = replicate (length bs) 0"

definition CachedIdentityConfig_drop :: "CachedIdentityConfig \<Rightarrow> CachedIdentityConfig" where
  "CachedIdentityConfig_drop self =
     self\<lparr>cic_own_ed25519_seed := zeroize (cic_own_ed25519_seed self),
          cic_own_mldsa65_seed := zeroize (cic_own_mldsa65_seed self),
          cic_peer_ed25519_public := zeroize (cic_peer_ed25519_public self),
          cic_peer_mldsa65_public := zeroize (cic_peer_mldsa65_public self)\<rparr>"

text \<open>The body of \<open>drop\<close>; the signing keys after it are dropped by their own crates.\<close>

definition IdentityMaterial_drop :: "IdentityMaterial \<Rightarrow> IdentityMaterial" where
  "IdentityMaterial_drop self =
     self\<lparr>own_ed25519_public := zeroize (own_ed25519_public self),
          own_mldsa65_public := zeroize (own_mldsa65_public self)\<rparr>"

definition FdState_scrub :: "FdState \<Rightarrow> FdState" where
  "FdState_scrub self =
     self\<lparr>counted_active := False, tx_backlog := zeroize (tx_backlog self),
          rx_wire := zeroize (rx_wire self), rx_plain := zeroize (rx_plain self)\<rparr>"

text \<open>\<open>IdentityMaterial::from_bytes\<close> owns copies of the two seeds. What it leaves of them, and of the
  \<open>ml_dsa::Seed\<close> it makes, at each of its returns.\<close>

definition from_bytes_leaves :: "crypto_lib \<Rightarrow> bytes \<Rightarrow> bytes \<Rightarrow> bytes \<Rightarrow> bytes list" where
  "from_bytes_leaves lib ed_seed ml_seed peer_ml =
     (if length peer_ml \<noteq> MLDSA65_PUBLIC_LEN then [ed_seed, ml_seed]
      else case ml_seed_try_from lib ml_seed of
        None \<Rightarrow> [ed_seed, ml_seed]
      | Some seed \<Rightarrow> [zeroize ed_seed, zeroize ml_seed, zeroize seed])"

text \<open>The transient configuration: \<open>to_material\<close> copies the seeds out, then the configuration is dropped.\<close>

definition identity_leaves :: "crypto_lib \<Rightarrow> CachedIdentityConfig \<Rightarrow> bytes list" where
  "identity_leaves lib cfg =
     (let d = CachedIdentityConfig_drop cfg in
      [cic_own_ed25519_seed d, cic_own_mldsa65_seed d] @
      from_bytes_leaves lib (cic_own_ed25519_seed cfg) (cic_own_mldsa65_seed cfg) (cic_peer_mldsa65_public cfg))"

section \<open>Nothing secret is shown\<close>

lemma write_hex_eq: "write_hex s bs = s @ map char_of (hex bs)"
  by (induction bs arbitrary: s) simp_all

lemma hex_preview_eq: "hex_preview bs = map char_of (hex (take 8 bs))"
  by (simp add: hex_preview_def write_hex_eq)

text \<open>Debug output never contains key material. What is printed of established session keys, of exported
  traffic secrets and of the kernel's key blocks is a constant text, whatever the keys are; what is
  printed of one direction depends on its message counter only; and what is printed of an identity
  depends on the first eight bytes of the two Ed25519 public keys and the lengths of the ML-DSA public
  keys only, shown as the hexadecimal digits the identity tool uses.\<close>

lemma debug_hides_secrets:
  "render (SessionKeys_debug k) = ''SessionKeys { .. }''
   \<and> render (KtlsTrafficKeys_debug t) =
       ''KtlsTrafficKeys { tx: KtlsTrafficSecret { .. }, rx: KtlsTrafficSecret { .. } }''
   \<and> render (KtlsDuplexKeys_debug d) = ''KtlsDuplexKeys { tx: KtlsSecrets { .. }, rx: KtlsSecrets { .. } }''
   \<and> render (Direction_debug dir) = ''Direction { counter: '' @ show_nat (unat (dir_counter dir)) @ '', .. }''
   \<and> render (IdentityMaterial_debug i) =
       ''IdentityMaterial { own_ed25519_public: '' @ [CHR 0x22] @ map char_of (hex (take 8 (own_ed25519_public i))) @
       [CHR 0x22] @ '', own_mldsa65_public_len: '' @ show_nat (length (own_mldsa65_public i)) @
       '', peer_ed25519_public: '' @ [CHR 0x22] @ map char_of (hex (take 8 (peer_ed25519_public i))) @ [CHR 0x22] @
       '', peer_mldsa65_public_len: '' @ show_nat (length (peer_mldsa65_public i)) @ '' }''"
  by (simp add: SessionKeys_debug_def KtlsTrafficKeys_debug_def KtlsTrafficSecret_debug_def KtlsDuplexKeys_debug_def
      KtlsSecrets_debug_def Direction_debug_def IdentityMaterial_debug_def quoted_def hex_preview_eq
      del: show_nat.simps)

section \<open>Nothing secret is left\<close>

lemma zeroize_zero: "set (zeroize bs) \<subseteq> {0}"
  by (auto simp: zeroize_def)

lemma scrubbed_states:
  "set (tx_backlog (FdState_scrub st)) \<union> set (rx_wire (FdState_scrub st)) \<union> set (rx_plain (FdState_scrub st)) \<subseteq> {0}"
  "set (own_ed25519_public (IdentityMaterial_drop i)) \<union> set (own_mldsa65_public (IdentityMaterial_drop i)) \<subseteq> {0}"
  using zeroize_zero by (auto simp: FdState_scrub_def IdentityMaterial_drop_def)

lemma read_lengths:
  assumes "read_identity_config_from_sources src = Inr cfg"
  shows "length (cic_own_mldsa65_seed cfg) = MLDSA65_SEED_LEN" "length (cic_peer_mldsa65_public cfg) = MLDSA65_PUBLIC_LEN"
  using assms
  by (auto simp: read_identity_config_from_sources_def read_identity_hex_def read_identity_hex_vec_def decode_hex_exact_def
      rbind_def Let_def dest: decode_hex_vec_length split: sum.split_asm)

text \<open>An early return of the constructor leaves its copies of the seeds as they were.\<close>

lemma early_return_leaves_seeds:
  "length peer_ml \<noteq> MLDSA65_PUBLIC_LEN \<Longrightarrow>
     IdentityMaterial_from_bytes lib ed ml peer_ed peer_ml = Inl BadIdentityConfig \<and>
     from_bytes_leaves lib ed ml peer_ml = [ed, ml]"
  by (simp add: IdentityMaterial_from_bytes_def from_bytes_leaves_def)


lemma toy_config:
  "read_identity_config_from_sources (toy_sources 1 2) = Inr
     \<lparr>cic_own_ed25519_seed = replicate 32 1, cic_own_mldsa65_seed = replicate 32 1,
      cic_peer_ed25519_public = pad 32 (replicate 32 2), cic_peer_mldsa65_public = pad 1952 (pad 32 (replicate 32 2))\<rparr>"
proof -
  note dec = decode_hex_vec_hex [of "replicate 32 1"] decode_hex_vec_hex [of "pad 32 (replicate 32 2)"]
    decode_hex_vec_hex [of "pad 1952 (pad 32 (replicate 32 2))"]
  then show ?thesis
    by (simp add: read_identity_config_from_sources_def read_identity_hex_def read_identity_hex_vec_def
        toy_sources_def len_defs decode_hex_exact_def)
qed


end
