(* ===== verification/Platform_Variants.thy ===== *)
theory Platform_Variants
  imports Control_Daemon
begin

text \<open>
  What is decided when the program is compiled: the memory layout of the connection event, which both
  crates assert with a constant expression, and the variants of the kernel-TLS and descriptor-passing
  functions for platforms other than Linux. The layout is that of the bytes on the wire, and without kernel
  TLS a session handed over ends with its socket closed.
\<close>

section \<open>Layout of the connection event\<close>

record field =
  f_name :: string
  f_size :: nat
  f_align :: nat

definition KernelSockEvent_fields :: "field list" where
  "KernelSockEvent_fields =
     [\<lparr>f_name = ''cookie'', f_size = 8, f_align = 8\<rparr>, \<lparr>f_name = ''cgroup_id'', f_size = 8, f_align = 8\<rparr>,
      \<lparr>f_name = ''src_addr'', f_size = 16, f_align = 1\<rparr>, \<lparr>f_name = ''dst_addr'', f_size = 16, f_align = 1\<rparr>,
      \<lparr>f_name = ''src_port'', f_size = 2, f_align = 2\<rparr>, \<lparr>f_name = ''dst_port'', f_size = 2, f_align = 2\<rparr>,
      \<lparr>f_name = ''family'', f_size = 2, f_align = 2\<rparr>, \<lparr>f_name = ''_pad'', f_size = 2, f_align = 2\<rparr>]"

text \<open>\<open>repr(C)\<close>: each field at the next multiple of its alignment, the size rounded up to the largest one.\<close>

definition align_up :: "nat \<Rightarrow> nat \<Rightarrow> nat" where
  "align_up a n = (n + a - 1) div a * a"

fun offsets :: "nat \<Rightarrow> field list \<Rightarrow> (string \<times> nat) list \<times> nat" where
  "offsets n [] = ([], n)"
| "offsets n (f # fs) =
     (let o1 = align_up (f_align f) n in case offsets (o1 + f_size f) fs of (os, e) \<Rightarrow> ((f_name f, o1) # os, e))"

definition align_of :: "field list \<Rightarrow> nat" where
  "align_of fs = fold max (map f_align fs) 1"

definition size_of :: "field list \<Rightarrow> nat" where
  "size_of fs = align_up (align_of fs) (snd (offsets 0 fs))"

definition offset_of :: "field list \<Rightarrow> string \<Rightarrow> nat option" where
  "offset_of fs name = map_of (fst (offsets 0 fs)) name"

text \<open>The constant expression: compilation stops unless it holds.\<close>

definition abi_guard :: bool where
  "abi_guard \<longleftrightarrow>
     size_of KernelSockEvent_fields = 56 \<and> align_of KernelSockEvent_fields = 8 \<and>
     offset_of KernelSockEvent_fields ''cookie'' = Some 0 \<and>
     offset_of KernelSockEvent_fields ''cgroup_id'' = Some 8 \<and>
     offset_of KernelSockEvent_fields ''src_addr'' = Some 16 \<and>
     offset_of KernelSockEvent_fields ''dst_addr'' = Some 32 \<and>
     offset_of KernelSockEvent_fields ''src_port'' = Some 48 \<and>
     offset_of KernelSockEvent_fields ''dst_port'' = Some 50 \<and>
     offset_of KernelSockEvent_fields ''family'' = Some 52 \<and>
     offset_of KernelSockEvent_fields ''_pad'' = Some 54"

lemma abi_guard_holds: abi_guard
  by code_simp

text \<open>The bytes of a record at the place of a field are the bytes of the field.\<close>

definition field_bytes :: "bool \<Rightarrow> KernelSockEvent \<Rightarrow> string \<rightharpoonup> bytes" where
  "field_bytes big e =
     [''cookie'' \<mapsto> to_ne big 8 (unat (kse_cookie e)), ''cgroup_id'' \<mapsto> to_ne big 8 (unat (kse_cgroup_id e)),
      ''src_addr'' \<mapsto> kse_src_addr e, ''dst_addr'' \<mapsto> kse_dst_addr e,
      ''src_port'' \<mapsto> to_ne big 2 (unat (kse_src_port e)), ''dst_port'' \<mapsto> to_ne big 2 (unat (kse_dst_port e)),
      ''family'' \<mapsto> to_ne big 2 (unat (kse_family e)), ''_pad'' \<mapsto> to_ne big 2 (unat (kse_pad e))]"

lemma field_slices:
  assumes "length (kse_src_addr e) = 16" "length (kse_dst_addr e) = 16"
  shows "field_bytes big e ''cookie'' = Some (bslice 0 8 (KernelSockEvent_to_bytes big e))"
    and "field_bytes big e ''cgroup_id'' = Some (bslice 8 16 (KernelSockEvent_to_bytes big e))"
    and "field_bytes big e ''src_addr'' = Some (bslice 16 32 (KernelSockEvent_to_bytes big e))"
    and "field_bytes big e ''dst_addr'' = Some (bslice 32 48 (KernelSockEvent_to_bytes big e))"
    and "field_bytes big e ''src_port'' = Some (bslice 48 50 (KernelSockEvent_to_bytes big e))"
    and "field_bytes big e ''dst_port'' = Some (bslice 50 52 (KernelSockEvent_to_bytes big e))"
    and "field_bytes big e ''family'' = Some (bslice 52 54 (KernelSockEvent_to_bytes big e))"
    and "field_bytes big e ''_pad'' = Some (bslice 54 56 (KernelSockEvent_to_bytes big e))"
  using assms by (simp_all add: field_bytes_def KernelSockEvent_to_bytes_def bslice_def)

lemma layout_is_wire_format:
  assumes "length (kse_src_addr e) = 16" "length (kse_dst_addr e) = 16" "f \<in> set KernelSockEvent_fields"
    and "offset_of KernelSockEvent_fields (f_name f) = Some k"
  shows "field_bytes big e (f_name f) = Some (bslice k (k + f_size f) (KernelSockEvent_to_bytes big e))"
proof -
  note guard = abi_guard_holds [unfolded abi_guard_def]
  from assms(3) have "f \<in> set (map (\<lambda>(n, s, a). \<lparr>f_name = n, f_size = s, f_align = a\<rparr>)
      [(''cookie'', 8, 8), (''cgroup_id'', 8, 8), (''src_addr'', 16, 1), (''dst_addr'', 16, 1),
       (''src_port'', 2, 2), (''dst_port'', 2, 2), (''family'', 2, 2), (''_pad'', 2, 2)])"
    by (simp add: KernelSockEvent_fields_def)
  then show ?thesis using assms(4) guard field_slices [OF assms(1,2), of big] by auto
qed

section \<open>Platforms other than Linux\<close>

text \<open>\<open>enosys\<close> is the platform's number of \<open>ENOSYS\<close>.\<close>

definition portable_ktls_supported :: bool where
  "portable_ktls_supported = False"

definition portable_attach_tls_ulp :: "int \<Rightarrow> int \<Rightarrow> KtlsError + unit" where
  "portable_attach_tls_ulp enosys fd = Inl \<lparr>ke_stage = ''TCP_ULP=tls'', ke_errno = enosys\<rparr>"

definition portable_install_ktls_tx :: "int \<Rightarrow> int \<Rightarrow> KtlsSecrets \<Rightarrow> KtlsError + unit" where
  "portable_install_ktls_tx enosys fd secrets = Inl \<lparr>ke_stage = ''TLS_TX'', ke_errno = enosys\<rparr>"

definition portable_install_ktls_rx :: "int \<Rightarrow> int \<Rightarrow> KtlsSecrets \<Rightarrow> KtlsError + unit" where
  "portable_install_ktls_rx enosys fd secrets = Inl \<lparr>ke_stage = ''TLS_RX'', ke_errno = enosys\<rparr>"

definition portable_install_ktls_duplex :: "int \<Rightarrow> int \<Rightarrow> KtlsDuplexKeys \<Rightarrow> KtlsError + unit" where
  "portable_install_ktls_duplex enosys fd keys = Inl \<lparr>ke_stage = ''TCP_ULP=tls'', ke_errno = enosys\<rparr>"

definition portable_fail_closed_shutdown :: "'os tcp_ops \<Rightarrow> int \<Rightarrow> 'os \<Rightarrow> 'os" where
  "portable_fail_closed_shutdown ops fd os = t_close ops fd os"

text \<open>The bridge itself is the same code, over these variants.\<close>

definition portable_bridge ::
  "crypto_lib \<Rightarrow> int \<Rightarrow> 'os tcp_ops \<Rightarrow> int \<Rightarrow> SessionKeys \<Rightarrow> 'os \<Rightarrow> (KernelNativeError + unit) outcome \<times> 'os" where
  "portable_bridge lib enosys ops fd keys os =
     (case export_ktls lib keys of
        None \<Rightarrow> (Panic, os)
      | Some traffic \<Rightarrow>
          (let duplex = \<lparr>kd_tx = from_traffic_secret (ktk_tx traffic), kd_rx = from_traffic_secret (ktk_rx traffic)\<rparr>
           in case map_err KernelNativeError_from (portable_install_ktls_duplex enosys fd duplex) of
                Inr _ \<Rightarrow> (Ret (Inr ()), os)
              | Inl e \<Rightarrow> (Ret (Inl e), portable_fail_closed_shutdown ops fd os)))"

text \<open>Descriptor passing; the error is the text of an \<open>Unsupported\<close> I/O error.\<close>

definition portable_send_fd :: "int \<Rightarrow> bytes \<Rightarrow> int \<Rightarrow> string + unit" where
  "portable_send_fd uds payload fd = Inl ''SCM_RIGHTS fd passing is Linux-only''"

definition portable_recv_fd :: "int \<Rightarrow> string + bytes \<times> int option" where
  "portable_recv_fd uds = Inl ''SCM_RIGHTS fd passing is Linux-only''"

lemma portable_bridge_closes:
  assumes "ktls_kernel ops fd sock" "hkdf_laws lib" "enosys \<notin> {ENOENT, EOPNOTSUPP, ENOPROTOOPT, EPROTONOSUPPORT}"
  shows "\<exists>os'. portable_bridge lib enosys ops fd keys os = (Ret (Inl (Ktls \<lparr>ke_stage = ''TCP_ULP=tls'', ke_errno = enosys\<rparr>)), os') \<and>
    sock os' = Closed"
proof -
  from export_ktls_some [OF assms(2)] obtain t where "export_ktls lib keys = Some t" by blast
  moreover have "sock (t_close ops fd os) = Closed" using assms(1) by (simp add: ktls_kernel_def)
  ultimately show ?thesis using assms(3)
    by (simp add: portable_bridge_def portable_install_ktls_duplex_def portable_fail_closed_shutdown_def map_err_def
        KernelNativeError_from_def is_unsupported_def)
qed

end
