(* ===== verification/Rust_Net.thy ===== *)
theory Rust_Net
  imports Rust_Text "HOL-Library.Monad_Syntax"
begin

text \<open>
  Socket addresses of the Rust standard library: the parser behind \<open>parse::<SocketAddr>()\<close>, which reads
  the bytes of the string from the left and gives back what it did not use, and the text form of an IPv4
  address. Printing and parsing an IPv4 address are inverse.
\<close>

datatype SocketAddr =
    V4 nat nat nat nat nat \<comment> \<open>four octets and the port\<close>
  | V6 "nat list" nat nat \<comment> \<open>eight groups, the scope and the port\<close>

section \<open>The parser\<close>

definition to_digit :: "nat \<Rightarrow> nat \<Rightarrow> nat option" where
  "to_digit radix c =
     (let d = (if 48 \<le> c \<and> c \<le> 57 then c - 48
               else if 97 \<le> c \<and> c \<le> 122 then c - 87
               else if 65 \<le> c \<and> c \<le> 90 then c - 55
               else radix)
      in if d < radix then Some d else None)"

text \<open>The loop over the digits of a number below \<open>lim\<close> (the checked arithmetic of its type), of at most
  \<open>mx\<close> digits; \<open>n\<close> digits are read and make \<open>r\<close>.\<close>

fun read_digits :: "nat \<Rightarrow> nat option \<Rightarrow> nat \<Rightarrow> nat \<Rightarrow> nat \<Rightarrow> nat list \<Rightarrow> (nat \<times> nat \<times> nat list) option" where
  "read_digits radix mx lim r n [] = Some (r, n, [])"
| "read_digits radix mx lim r n (c # s) =
     (case to_digit radix c of
        None \<Rightarrow> Some (r, n, c # s)
      | Some d \<Rightarrow>
          if lim \<le> r * radix + d \<or> (case mx of None \<Rightarrow> False | Some m \<Rightarrow> m < n + 1) then None
          else read_digits radix mx lim (r * radix + d) (n + 1) s)"

definition read_number :: "nat \<Rightarrow> nat option \<Rightarrow> bool \<Rightarrow> nat \<Rightarrow> nat list \<Rightarrow> (nat \<times> nat list) option" where
  "read_number radix mx allow_zero_prefix lim s =
     (case read_digits radix mx lim 0 0 s of
        None \<Rightarrow> None
      | Some (r, n, rest) \<Rightarrow>
          if n = 0 \<or> (\<not> allow_zero_prefix \<and> s \<noteq> [] \<and> hd s = 48 \<and> 1 < n) then None else Some (r, rest))"

fun read_given_char :: "nat \<Rightarrow> nat list \<Rightarrow> nat list option" where
  "read_given_char c [] = None"
| "read_given_char c (x # s) = (if x = c then Some s else None)"

definition read_separator :: "nat \<Rightarrow> nat \<Rightarrow> (nat list \<Rightarrow> ('a \<times> nat list) option) \<Rightarrow> nat list \<Rightarrow> ('a \<times> nat list) option" where
  "read_separator sep index inner s =
     (if 0 < index then Option.bind (read_given_char sep s) inner else inner s)"

abbreviation read_octet :: "nat list \<Rightarrow> (nat \<times> nat list) option" where
  "read_octet \<equiv> read_number 10 (Some 3) False 256"

definition read_ipv4_addr :: "nat list \<Rightarrow> ((nat \<times> nat \<times> nat \<times> nat) \<times> nat list) option" where
  "read_ipv4_addr s = do {
     (a, s) \<leftarrow> read_separator 46 0 read_octet s;
     (b, s) \<leftarrow> read_separator 46 1 read_octet s;
     (c, s) \<leftarrow> read_separator 46 2 read_octet s;
     (d, s) \<leftarrow> read_separator 46 3 read_octet s;
     Some ((a, b, c, d), s)
   }"

text \<open>\<open>read_groups\<close> with \<open>k\<close> groups left to read and \<open>i\<close> already read: the groups, whether the last two
  came from an embedded IPv4 address, and the rest.\<close>

fun read_groups :: "nat \<Rightarrow> nat \<Rightarrow> nat list \<Rightarrow> nat list \<times> bool \<times> nat list" where
  "read_groups 0 i s = ([], False, s)"
| "read_groups (Suc k) i s =
     (case (if 0 < k then read_separator 58 i read_ipv4_addr s else None) of
        Some ((a, b, c, d), rest) \<Rightarrow> ([a * 256 + b, c * 256 + d], True, rest)
      | None \<Rightarrow>
          (case read_separator 58 i (read_number 16 (Some 4) True 65536) s of
             None \<Rightarrow> ([], False, s)
           | Some (g, rest) \<Rightarrow> (case read_groups k (i + 1) rest of (gs, v4, s') \<Rightarrow> (g # gs, v4, s'))))"

definition read_ipv6_addr :: "nat list \<Rightarrow> (nat list \<times> nat list) option" where
  "read_ipv6_addr s =
     (case read_groups 8 0 s of (head, head_ipv4, s1) \<Rightarrow>
      if length head = 8 then Some (head, s1)
      else if head_ipv4 then None
      else do {
        s2 \<leftarrow> read_given_char 58 s1;
        s3 \<leftarrow> read_given_char 58 s2;
        (case read_groups (8 - (length head + 1)) 0 s3 of (tail, _, s4) \<Rightarrow>
         Some (head @ replicate (8 - length head - length tail) 0 @ tail, s4))
      })"

definition read_port :: "nat list \<Rightarrow> (nat \<times> nat list) option" where
  "read_port s = Option.bind (read_given_char 58 s) (read_number 10 None True 65536)"

definition read_socket_addr_v4 :: "nat list \<Rightarrow> (SocketAddr \<times> nat list) option" where
  "read_socket_addr_v4 s = do {
     ((a, b, c, d), s) \<leftarrow> read_ipv4_addr s;
     (port, s) \<leftarrow> read_port s;
     Some (V4 a b c d port, s)
   }"

definition read_scope_id :: "nat list \<Rightarrow> (nat \<times> nat list) option" where
  "read_scope_id s = Option.bind (read_given_char 37 s) (read_number 10 None True (2 ^ 32))"

definition read_socket_addr_v6 :: "nat list \<Rightarrow> (SocketAddr \<times> nat list) option" where
  "read_socket_addr_v6 s = do {
     s \<leftarrow> read_given_char 91 s;
     (ip, s) \<leftarrow> read_ipv6_addr s;
     (scope, s) \<leftarrow> (case read_scope_id s of None \<Rightarrow> Some (0, s) | Some r \<Rightarrow> Some r);
     s \<leftarrow> read_given_char 93 s;
     (port, s) \<leftarrow> read_port s;
     Some (V6 ip scope port, s)
   }"

definition parse_socket_addr :: "rstr \<Rightarrow> SocketAddr option" where
  "parse_socket_addr str =
     (let s = map unat (as_bytes str) in
      case (case read_socket_addr_v4 s of None \<Rightarrow> read_socket_addr_v6 s | Some r \<Rightarrow> Some r) of
        Some (a, []) \<Rightarrow> Some a
      | _ \<Rightarrow> None)"

section \<open>Printing\<close>

definition dec :: "nat \<Rightarrow> nat list" where
  "dec n = lit (show_nat n)"

definition display_v4 :: "nat \<Rightarrow> nat \<Rightarrow> nat \<Rightarrow> nat \<Rightarrow> nat \<Rightarrow> rstr" where
  "display_v4 a b c d port = dec a @ [46] @ dec b @ [46] @ dec c @ [46] @ dec d @ [58] @ dec port"

lemma dec_rec: "dec n = (if n < 10 then [48 + n] else dec (n div 10) @ [48 + n mod 10])"
  by (subst dec_def, subst show_nat.simps) (simp add: dec_def lit_def)

declare dec_rec [simp del]

lemma read_digits_append:
  assumes "read_digits 10 mx lim r n xs = Some (r', n', [])"
  shows "read_digits 10 mx lim r n (xs @ ys) = read_digits 10 mx lim r' n' ys"
  using assms by (induction xs arbitrary: r n) (auto split: option.split_asm if_split_asm)

lemma dec_length_pos: "0 < length (dec n)"
  by (subst dec_rec) simp

lemma read_digits_dec:
  assumes "n < lim" and "case mx of None \<Rightarrow> True | Some m \<Rightarrow> length (dec n) \<le> m"
  shows "read_digits 10 mx lim 0 0 (dec n) = Some (n, length (dec n), [])"
  using assms
proof (induction n rule: less_induct)
  case (less n)
  show ?case
  proof (cases "n < 10")
    case True
    then show ?thesis using less.prems by (auto simp: dec_rec [of n] to_digit_def split: option.split)
  next
    case False
    have d: "dec n = dec (n div 10) @ [48 + n mod 10]" using dec_rec [of n] False by simp
    have ih: "read_digits 10 mx lim 0 0 (dec (n div 10)) = Some (n div 10, length (dec (n div 10)), [])"
      by (rule less.IH) (use False less.prems d in \<open>auto split: option.split\<close>)
    have "read_digits 10 mx lim (n div 10) (length (dec (n div 10))) [48 + n mod 10] =
        Some (n, length (dec n), [])"
      using less.prems d by (auto simp: to_digit_def split: option.split)
    then show ?thesis using read_digits_append [OF ih, of "[48 + n mod 10]"] d by simp
  qed
qed

lemma dec_no_leading_zero: "1 < length (dec n) \<Longrightarrow> hd (dec n) \<noteq> 48"
proof (induction n rule: less_induct)
  case (less n)
  then have big: "\<not> n < 10" by (auto simp: dec_rec [of n])
  have d: "dec n = dec (n div 10) @ [48 + n mod 10]" using dec_rec [of n] big by simp
  show ?case
  proof (cases "1 < length (dec (n div 10))")
    case True
    then show ?thesis using less.IH [of "n div 10"] big d dec_length_pos [of "n div 10"] by auto
  next
    case False
    then have "n div 10 < 10" using dec_rec [of "n div 10"] dec_length_pos [of "n div 10 div 10"] by (auto split: if_split_asm)
    then show ?thesis using d big by (simp add: dec_rec [of "n div 10"])
  qed
qed

lemma read_number_dec:
  assumes "n < lim" and "case mx of None \<Rightarrow> True | Some m \<Rightarrow> length (dec n) \<le> m" and "rest = [] \<or> to_digit 10 (hd rest) = None"
  shows "read_number 10 mx z lim (dec n @ rest) = Some (n, rest)"
proof -
  have "read_digits 10 mx lim 0 0 (dec n @ rest) = Some (n, length (dec n), rest)"
    unfolding read_digits_append [OF read_digits_dec [OF assms(1,2)]] using assms(3) by (cases rest) auto
  then show ?thesis using dec_length_pos [of n] dec_no_leading_zero [of n] by (auto simp: read_number_def)
qed

lemma dec_short: "n < 1000 \<Longrightarrow> length (dec n) \<le> 3"
  by (simp add: dec_rec [of n] dec_rec [of "n div 10"] dec_rec [of "n div 10 div 10"])

lemma dec_ascii: "c \<in> set (dec n) \<Longrightarrow> c < 128"
proof (induction n rule: less_induct)
  case (less n)
  have "n div 10 < n" if "\<not> n < 10" using that by simp
  with less.IH [of "n div 10"] less.prems show ?case by (auto simp: dec_rec [of n] split: if_split_asm)
qed

lemma ascii_codes: "\<forall>c \<in> set s. c < 128 \<Longrightarrow> map unat (as_bytes s) = s"
  by (induction s) (simp_all add: as_bytes_def utf8_char_def unsigned_of_nat take_bit_nat_eq_self)

lemma parse_display_v4:
  assumes "a < 256" "b < 256" "c < 256" "d < 256" "port < 65536"
  shows "parse_socket_addr (display_v4 a b c d port) = Some (V4 a b c d port)"
proof -
  have octet: "read_octet (dec n @ x # rest) = Some (n, x # rest)" if "n < 256" "x = 46 \<or> x = 58" for n x rest
    by (rule read_number_dec) (use that dec_short [of n] in \<open>auto simp: to_digit_def\<close>)
  have p: "read_number 10 None True 65536 (dec port) = Some (port, [])"
    using read_number_dec [of port 65536 None "[]" True] assms(5) by simp
  have "map unat (as_bytes (display_v4 a b c d port)) = display_v4 a b c d port"
    by (rule ascii_codes) (auto simp: display_v4_def dest: dec_ascii)
  moreover have "read_socket_addr_v4 (display_v4 a b c d port) = Some (V4 a b c d port, [])"
    using assms by (simp add: read_socket_addr_v4_def read_ipv4_addr_def read_separator_def display_v4_def octet read_port_def p)
  ultimately show ?thesis by (simp add: parse_socket_addr_def)
qed

lemma parse_any_port: "port < 65536 \<Longrightarrow> parse_socket_addr (lit ''0.0.0.0:'' @ dec port) = Some (V4 0 0 0 0 port)"
  using parse_display_v4 [of 0 0 0 0 port] by (simp add: display_v4_def lit_def dec_rec [of 0])

end
