(* ===== verification/Webhook.thy ===== *)
theory Webhook
  imports Runtime_Config
begin

text \<open>
  The admission webhook (\<open>src/bin/webhook.rs\<close>): the admission review and its answer, and the JSON
  patch that puts the overlay into a pod, or marks it for kernel-native enforcement. Looking up a
  path in a JSON value and serialising are library code and parameters of the model. The patch is
  judged by the effect it has when the API server applies it, for which the theory has the
  reference semantics of JSON Patch.
\<close>

section \<open>JSON values and the wire types\<close>

datatype json =
    JNull
  | JBool bool
  | JNum int
  | JStr rstr
  | JArr "json list"
  | JObj "rstr \<Rightarrow> json option"

fun as_array :: "json \<Rightarrow> json list option" where
  "as_array (JArr xs) = Some xs"
| "as_array _ = None"

fun as_object :: "json \<Rightarrow> (rstr \<Rightarrow> json option) option" where
  "as_object (JObj fs) = Some fs"
| "as_object _ = None"

fun as_str :: "json \<Rightarrow> rstr option" where
  "as_str (JStr s) = Some s"
| "as_str _ = None"

fun get_field :: "json \<Rightarrow> rstr \<Rightarrow> json option" where
  "get_field (JObj fs) k = fs k"
| "get_field _ k = None"

text \<open>The \<open>json!\<close> macro on an object and on a string.\<close>

definition obj :: "(string \<times> json) list \<Rightarrow> json" where
  "obj kvs = JObj (map_of (map (\<lambda>(k, v). (lit k, v)) kvs))"

definition str :: "string \<Rightarrow> json" where
  "str s = JStr (lit s)"

record JsonPatchOp =
  jp_op :: string
  jp_path :: rstr
  jp_value :: "json option"

record GroupVersionKind =
  gvk_group :: rstr
  gvk_version :: rstr
  gvk_kind :: rstr

record AdmissionRequest =
  rq_uid :: rstr
  rq_kind :: GroupVersionKind
  rq_operation :: rstr
  rq_namespace :: "rstr option"
  rq_object :: json

record AdmissionStatus =
  status_message :: rstr

record AdmissionResponse =
  rs_uid :: rstr
  rs_allowed :: bool
  rs_status :: "AdmissionStatus option"
  rs_patch_type :: "rstr option"
  rs_patch :: "rstr option"

record AdmissionReview =
  rv_api_version :: rstr
  rv_kind :: rstr
  rv_request :: "AdmissionRequest option"
  rv_response :: "AdmissionResponse option"

section \<open>Building the patch\<close>

definition VOLUME_NAME :: string where "VOLUME_NAME = ''syntriass-overlay''"
definition INIT_CONTAINER_NAME :: string where "INIT_CONTAINER_NAME = ''syntriass-binary-copier''"
definition APP_MOUNT_PATH :: string where "APP_MOUNT_PATH = ''/usr/lib/syntriass''"
definition INIT_MOUNT_PATH :: string where "INIT_MOUNT_PATH = ''/syntriass''"
definition OVERLAY_LIBRARY_NAME :: string where "OVERLAY_LIBRARY_NAME = ''libsyntriass_overlay.so''"
definition WEBHOOK_MODE_KERNEL_NATIVE :: string where "WEBHOOK_MODE_KERNEL_NATIVE = ''kernel-native''"

definition add :: "rstr \<Rightarrow> json \<Rightarrow> JsonPatchOp" where
  "add path value = \<lparr>jp_op = ''add'', jp_path = path, jp_value = Some value\<rparr>"

definition replace :: "rstr \<Rightarrow> json \<Rightarrow> JsonPatchOp" where
  "replace path value = \<lparr>jp_op = ''replace'', jp_path = path, jp_value = Some value\<rparr>"

definition is_named :: "rstr \<Rightarrow> json \<Rightarrow> bool" where
  "is_named name item \<longleftrightarrow> (case get_field item (lit ''name'') of None \<Rightarrow> False | Some v \<Rightarrow> as_str v = Some name)"

fun named_item_index :: "json list \<Rightarrow> rstr \<Rightarrow> nat option" where
  "named_item_index [] name = None"
| "named_item_index (item # items) name =
     (if is_named name item then Some 0 else map_option Suc (named_item_index items name))"

definition has_named_item :: "json list \<Rightarrow> rstr \<Rightarrow> bool" where
  "has_named_item items name \<longleftrightarrow> named_item_index items name \<noteq> None"

type_synonym pointer = "json \<Rightarrow> rstr \<Rightarrow> json option"

definition array_at :: "pointer \<Rightarrow> json \<Rightarrow> rstr \<Rightarrow> json list option" where
  "array_at pointer v path = Option.bind (pointer v path) as_array"

definition overlay_volume :: json where
  "overlay_volume = obj [(''name'', str VOLUME_NAME), (''emptyDir'', obj [(''medium'', str ''Memory'')])]"

definition push_volume_patch :: "pointer \<Rightarrow> json \<Rightarrow> JsonPatchOp list" where
  "push_volume_patch pointer pod =
     (case array_at pointer pod (lit ''/spec/volumes'') of
        Some volumes \<Rightarrow> if has_named_item volumes (lit VOLUME_NAME) then []
          else [add (lit ''/spec/volumes/-'') overlay_volume]
      | None \<Rightarrow> [add (lit ''/spec/volumes'') (JArr [overlay_volume])])"

definition init_container :: "sources \<Rightarrow> json" where
  "init_container src =
     (let image = (case env_var src ''SYNTRIASS_WEBHOOK_COPIER_IMAGE'' of
            Some v \<Rightarrow> v | None \<Rightarrow> lit ''syntriass/overlay-copier:latest'');
          source = (case env_var src ''SYNTRIASS_WEBHOOK_SOURCE_LIBRARY'' of
            Some v \<Rightarrow> v | None \<Rightarrow> lit (''/opt/syntriass/'' @ OVERLAY_LIBRARY_NAME));
          target = lit (INIT_MOUNT_PATH @ ''/'' @ OVERLAY_LIBRARY_NAME);
          command = lit ''cp '' @ source @ lit '' '' @ target @ lit '' && chmod 0555 '' @ target
      in obj [(''name'', str INIT_CONTAINER_NAME), (''image'', JStr image), (''imagePullPolicy'', str ''IfNotPresent''),
           (''command'', JArr [str ''/bin/sh'', str ''-ec'']), (''args'', JArr [JStr command]),
           (''volumeMounts'', JArr [obj [(''name'', str VOLUME_NAME), (''mountPath'', str INIT_MOUNT_PATH)]]),
           (''securityContext'', obj [(''allowPrivilegeEscalation'', JBool False), (''readOnlyRootFilesystem'', JBool True),
              (''runAsNonRoot'', JBool True), (''runAsUser'', JNum 65532), (''runAsGroup'', JNum 65532),
              (''capabilities'', obj [(''drop'', JArr [str ''ALL''])])])])"

definition push_init_container_patch :: "sources \<Rightarrow> pointer \<Rightarrow> json \<Rightarrow> JsonPatchOp list" where
  "push_init_container_patch src pointer pod =
     (case array_at pointer pod (lit ''/spec/initContainers'') of
        Some items \<Rightarrow> if has_named_item items (lit INIT_CONTAINER_NAME) then []
          else [add (lit ''/spec/initContainers/-'') (init_container src)]
      | None \<Rightarrow> [add (lit ''/spec/initContainers'') (JArr [init_container src])])"

definition overlay_mount :: json where
  "overlay_mount =
     obj [(''name'', str VOLUME_NAME), (''mountPath'', str APP_MOUNT_PATH), (''readOnly'', JBool True)]"

definition preload_entry :: json where
  "preload_entry = obj [(''name'', str ''LD_PRELOAD''), (''value'', str (APP_MOUNT_PATH @ ''/'' @ OVERLAY_LIBRARY_NAME))]"

definition push_target_container_patch :: "pointer \<Rightarrow> json \<Rightarrow> nat \<Rightarrow> string + JsonPatchOp list" where
  "push_target_container_patch pointer pod container_index =
     (let base = lit (''/spec/containers/'' @ show_nat container_index) in
      case pointer pod base of
        None \<Rightarrow> Inl ''target container is missing''
      | Some container \<Rightarrow>
          (let mount_path = base @ lit ''/volumeMounts'';
               mount_ops = (case array_at pointer container (lit ''/volumeMounts'') of
                  Some mounts \<Rightarrow> if has_named_item mounts (lit VOLUME_NAME) then []
                    else [add (mount_path @ lit ''/-'') overlay_mount]
                | None \<Rightarrow> [add mount_path (JArr [overlay_mount])]);
               env_path = base @ lit ''/env'';
               env_ops = (case array_at pointer container (lit ''/env'') of
                  Some envs \<Rightarrow>
                    (case named_item_index envs (lit ''LD_PRELOAD'') of
                       Some i \<Rightarrow> [replace (env_path @ lit (''/'' @ show_nat i)) preload_entry]
                     | None \<Rightarrow> [add (env_path @ lit ''/-'') preload_entry])
                | None \<Rightarrow> [add env_path (JArr [preload_entry])])
           in Inr (mount_ops @ env_ops)))"

fun encode_key :: "rstr \<Rightarrow> rstr" where
  "encode_key [] = []"
| "encode_key (c # s) = (if c = 47 then [126, 49] else [c]) @ encode_key s"

definition push_metadata_field :: "pointer \<Rightarrow> json \<Rightarrow> rstr \<Rightarrow> rstr \<Rightarrow> rstr \<Rightarrow> JsonPatchOp list" where
  "push_metadata_field pointer pod object_path key value =
     (let field_path = object_path @ 47 # encode_key key in
      case Option.bind (pointer pod object_path) as_object of
        Some entries \<Rightarrow>
          if Option.bind (entries key) as_str = Some value then []
          else if entries key \<noteq> None then [replace field_path (JStr value)]
          else [add field_path (JStr value)]
      | None \<Rightarrow> [add object_path (JObj [key \<mapsto> JStr value])])"

definition push_kernel_native_metadata_patch :: "pointer \<Rightarrow> json \<Rightarrow> JsonPatchOp list" where
  "push_kernel_native_metadata_patch pointer pod =
     push_metadata_field pointer pod (lit ''/metadata/labels'') (lit ''syntriass.io/enforcement'') (lit ''kernel-native'') @
     push_metadata_field pointer pod (lit ''/metadata/annotations'') (lit ''syntriass.io/pqc-suite'') (lit ''policy'')"

definition build_patch :: "sources \<Rightarrow> pointer \<Rightarrow> json \<Rightarrow> string + JsonPatchOp list" where
  "build_patch src pointer pod =
     rbind (ok_or ''Pod spec.containers must be an array'' (array_at pointer pod (lit ''/spec/containers''))) (\<lambda>containers.
     rbind (ensure (containers \<noteq> []) ''Pod spec.containers cannot be empty'') (\<lambda>_.
     if env_var src ''SYNTRIASS_WEBHOOK_MODE'' = Some (lit WEBHOOK_MODE_KERNEL_NATIVE) then
       Inr (push_kernel_native_metadata_patch pointer pod)
     else
       rbind (push_target_container_patch pointer pod 0) (\<lambda>target.
       Inr (push_volume_patch pointer pod @ push_init_container_patch src pointer pod @ target))))"

section \<open>Answering a review\<close>

definition allow_without_patch :: "rstr \<Rightarrow> AdmissionResponse" where
  "allow_without_patch uid =
     \<lparr>rs_uid = uid, rs_allowed = True, rs_status = None, rs_patch_type = None, rs_patch = None\<rparr>"

definition deny :: "rstr \<Rightarrow> string \<Rightarrow> AdmissionResponse" where
  "deny uid message =
     \<lparr>rs_uid = uid, rs_allowed = False, rs_status = Some \<lparr>status_message = lit message\<rparr>,
      rs_patch_type = None, rs_patch = None\<rparr>"

text \<open>\<open>encode\<close> is JSON serialisation followed by base64; \<open>None\<close> when serialisation fails.\<close>

definition mutate_request ::
  "sources \<Rightarrow> pointer \<Rightarrow> (JsonPatchOp list \<Rightarrow> rstr option) \<Rightarrow> AdmissionRequest \<Rightarrow> AdmissionResponse" where
  "mutate_request src pointer encode request =
     (if gvk_kind (rq_kind request) \<noteq> lit ''Pod'' \<or> rq_operation request \<noteq> lit ''CREATE''
      then allow_without_patch (rq_uid request)
      else case build_patch src pointer (rq_object request) of
        Inl message \<Rightarrow> deny (rq_uid request) message
      | Inr patch \<Rightarrow>
          if patch = [] then allow_without_patch (rq_uid request)
          else case encode patch of
            Some body \<Rightarrow> \<lparr>rs_uid = rq_uid request, rs_allowed = True, rs_status = None,
                rs_patch_type = Some (lit ''JSONPatch''), rs_patch = Some body\<rparr>
          | None \<Rightarrow> deny (rq_uid request) ''failed to serialize Syntriass JSON patch'')"

definition mutate ::
  "sources \<Rightarrow> pointer \<Rightarrow> (JsonPatchOp list \<Rightarrow> rstr option) \<Rightarrow> AdmissionReview \<Rightarrow> nat \<times> AdmissionReview" where
  "mutate src pointer encode review =
     (let response = (case rv_request review of
            Some request \<Rightarrow> mutate_request src pointer encode request
          | None \<Rightarrow> deny [] ''AdmissionReview request is missing'')
      in (200, \<lparr>rv_api_version = rv_api_version review, rv_kind = rv_kind review, rv_request = None,
           rv_response = Some response\<rparr>))"

section \<open>JSON Pointer and JSON Patch\<close>

text \<open>The reference semantics of RFC 6901 paths and of the RFC 6902 operations the webhook emits.\<close>

fun segments :: "rstr \<Rightarrow> rstr list" where
  "segments [] = [[]]"
| "segments (c # s) =
     (if c = 47 then [] # segments s
      else case segments s of [] \<Rightarrow> [[c]] | h # t \<Rightarrow> (c # h) # t)"

fun unescape :: "rstr \<Rightarrow> rstr" where
  "unescape [] = []"
| "unescape (c # s) =
     (if c = 126 \<and> s \<noteq> [] \<and> hd s = 49 then 47 # unescape (tl s)
      else if c = 126 \<and> s \<noteq> [] \<and> hd s = 48 then 126 # unescape (tl s)
      else c # unescape s)"

definition tokens :: "rstr \<Rightarrow> rstr list" where
  "tokens path = (if path = [] then [] else map unescape (tl (segments path)))"

definition array_index :: "rstr \<Rightarrow> nat option" where
  "array_index t =
     (if t \<noteq> [] \<and> (\<forall>c\<in>set t. 48 \<le> c \<and> c \<le> 57) \<and> (hd t = 48 \<longrightarrow> t = [48])
      then Some (foldl (\<lambda>n c. 10 * n + (c - 48)) 0 t) else None)"

fun child :: "json \<Rightarrow> rstr \<Rightarrow> json option" where
  "child (JObj fs) t = fs t"
| "child (JArr xs) t =
     (case array_index t of Some i \<Rightarrow> if i < length xs then Some (xs ! i) else None | None \<Rightarrow> None)"
| "child _ t = None"

fun resolve :: "rstr list \<Rightarrow> json \<Rightarrow> json option" where
  "resolve [] v = Some v"
| "resolve (t # ts) v = Option.bind (child v t) (resolve ts)"

fun set_child :: "json \<Rightarrow> rstr \<Rightarrow> json \<Rightarrow> json" where
  "set_child (JObj fs) t w = JObj (fs(t \<mapsto> w))"
| "set_child (JArr xs) t w = (case array_index t of Some i \<Rightarrow> JArr (xs[i := w]) | None \<Rightarrow> JArr xs)"
| "set_child v t w = v"

fun insert_child :: "json \<Rightarrow> json \<Rightarrow> rstr \<Rightarrow> json option" where
  "insert_child w (JObj fs) t = Some (JObj (fs(t \<mapsto> w)))"
| "insert_child w (JArr xs) t =
     (if t = [45] then Some (JArr (xs @ [w]))
      else case array_index t of
        Some i \<Rightarrow> if i \<le> length xs then Some (JArr (take i xs @ w # drop i xs)) else None
      | None \<Rightarrow> None)"
| "insert_child w _ t = None"

definition replace_child :: "json \<Rightarrow> json \<Rightarrow> rstr \<Rightarrow> json option" where
  "replace_child w v t = (if child v t = None then None else Some (set_child v t w))"

fun put :: "rstr list \<Rightarrow> json \<Rightarrow> json \<Rightarrow> json" where
  "put [] w v = w"
| "put (t # ts) w v = (case child v t of None \<Rightarrow> v | Some u \<Rightarrow> set_child v t (put ts w u))"

definition alter :: "(json \<Rightarrow> rstr \<Rightarrow> json option) \<Rightarrow> rstr list \<Rightarrow> json \<Rightarrow> json option" where
  "alter f ts v =
     Option.bind (resolve (butlast ts) v) (\<lambda>u. map_option (\<lambda>w. put (butlast ts) w v) (f u (last ts)))"

definition apply_op :: "JsonPatchOp \<Rightarrow> json \<Rightarrow> json option" where
  "apply_op p v = Option.bind (jp_value p) (\<lambda>x.
     if tokens (jp_path p) = [] then Some x
     else if jp_op p = ''add'' then alter (insert_child x) (tokens (jp_path p)) v
     else if jp_op p = ''replace'' then alter (replace_child x) (tokens (jp_path p)) v
     else None)"

fun apply_patch :: "JsonPatchOp list \<Rightarrow> json \<Rightarrow> json option" where
  "apply_patch [] v = Some v"
| "apply_patch (p # ps) v = Option.bind (apply_op p v) (apply_patch ps)"

text \<open>What \<open>serde_json\<close> documents of \<open>Value::pointer\<close>: it resolves an RFC 6901 path.\<close>

definition json_pointer :: "pointer \<Rightarrow> bool" where
  "json_pointer pointer \<longleftrightarrow>
     (\<forall>v path. path = [] \<or> hd path = 47 \<longrightarrow> pointer v path = resolve (tokens path) v)"

definition rfc6901 :: pointer where
  "rfc6901 v path = (if path = [] \<or> hd path = 47 then resolve (tokens path) v else None)"

lemma rfc6901_pointer: "json_pointer rfc6901"
  by (simp add: json_pointer_def rfc6901_def)

section \<open>Paths\<close>

lemma segments_nonempty [simp]: "segments s \<noteq> []"
  by (cases s) (auto split: list.split)

lemma segments_plain [simp]: "47 \<notin> set t \<Longrightarrow> segments t = [t]"
  by (induction t) auto

lemma segments_append: "segments (p @ 47 # t) = segments p @ segments t"
proof (induction p)
  case (Cons c p)
  then show ?case by (cases "segments p") auto
qed simp

lemma tl_segments: "tl (segments p @ ys) = tl (segments p) @ ys"
  by (cases "segments p") (use segments_nonempty in auto)

lemma tokens_append:
  "\<lbrakk>p = [] \<or> hd p = 47; 47 \<notin> set t\<rbrakk> \<Longrightarrow> tokens (p @ 47 # t) = tokens p @ [unescape t]"
  by (cases p) (auto simp: tokens_def segments_append tl_segments)

lemma unescape_plain [simp]: "126 \<notin> set t \<Longrightarrow> unescape t = t"
  by (induction t) auto

lemma encode_key_plain: "47 \<notin> set (encode_key k)"
  by (induction k) auto

lemma unescape_encode [simp]: "126 \<notin> set k \<Longrightarrow> unescape (encode_key k) = k"
  by (induction k) auto

lemma show_nat_digits: "c \<in> set (lit (show_nat n)) \<Longrightarrow> 48 \<le> c \<and> c \<le> 57"
proof (induction n rule: show_nat.induct)
  case (1 n)
  show ?case
  proof (cases "n < 10")
    case True
    then show ?thesis using 1 by (simp add: show_nat.simps [of n] lit_def)
  next
    case False
    have "c \<in> set (lit (show_nat (n div 10))) \<or> c = 48 + n mod 10"
      using 1(2) False by (auto simp: show_nat.simps [of n] lit_def)
    then show ?thesis using 1(1) [OF False] by auto
  qed
qed

lemma show_nat_nonempty [simp]: "show_nat n \<noteq> []"
  by (subst show_nat.simps) simp

lemma lit_append [simp]: "lit (a @ b) = lit a @ lit b"
  by (simp add: lit_def)

lemma lit_show_nat:
  "lit (show_nat n) = (if n < 10 then [48 + n] else lit (show_nat (n div 10)) @ [48 + n mod 10])"
  by (subst show_nat.simps) (simp add: lit_def)

lemma show_nat_hd: "hd (lit (show_nat n)) = 48 \<longleftrightarrow> n = 0"
proof (induction n rule: show_nat.induct)
  case (1 n)
  have "lit (show_nat (n div 10)) \<noteq> []" by (simp add: lit_def)
  then show ?case using 1 by (subst lit_show_nat) auto
qed

lemma show_nat_value: "foldl (\<lambda>n c. 10 * n + (c - 48)) 0 (lit (show_nat n)) = n"
proof (induction n rule: show_nat.induct)
  case (1 n)
  then show ?case by (subst lit_show_nat) simp
qed

lemma array_index_show_nat [simp]: "array_index (lit (show_nat n)) = Some n"
proof -
  have ne: "lit (show_nat n) \<noteq> []" by (simp add: lit_def)
  have "hd (lit (show_nat n)) = 48 \<Longrightarrow> lit (show_nat n) = [48]"
    using show_nat_hd [of n] by (simp add: lit_show_nat)
  then show ?thesis
    using ne by (auto simp: array_index_def show_nat_value dest: show_nat_digits)
qed

lemma show_nat_plain: "47 \<notin> set (lit (show_nat n))" "126 \<notin> set (lit (show_nat n))"
  using show_nat_digits [of 47 n] show_nat_digits [of 126 n] by auto

lemma tokens_show_nat:
  "p = [] \<or> hd p = 47 \<Longrightarrow> tokens (p @ 47 # lit (show_nat n)) = tokens p @ [lit (show_nat n)]"
  by (simp add: tokens_append show_nat_plain)

text \<open>The paths of the patch.\<close>

lemma tokens_const:
  "tokens (lit ''/spec/containers'') = [lit ''spec'', lit ''containers'']"
  "tokens (lit ''/spec/volumes'') = [lit ''spec'', lit ''volumes'']"
  "tokens (lit ''/spec/volumes/-'') = [lit ''spec'', lit ''volumes'', [45]]"
  "tokens (lit ''/spec/initContainers'') = [lit ''spec'', lit ''initContainers'']"
  "tokens (lit ''/spec/initContainers/-'') = [lit ''spec'', lit ''initContainers'', [45]]"
  "tokens (lit ''/volumeMounts'') = [lit ''volumeMounts'']"
  "tokens (lit ''/env'') = [lit ''env'']"
  "tokens (lit ''/metadata/labels'') = [lit ''metadata'', lit ''labels'']"
  "tokens (lit ''/metadata/annotations'') = [lit ''metadata'', lit ''annotations'']"
  by code_simp+

lemma tokens_container:
  "tokens (lit (''/spec/containers/'' @ show_nat 0)) = [lit ''spec'', lit ''containers'', lit ''0'']"
  "tokens (lit (''/spec/containers/'' @ show_nat 0) @ lit ''/volumeMounts'') =
     [lit ''spec'', lit ''containers'', lit ''0'', lit ''volumeMounts'']"
  "tokens ((lit (''/spec/containers/'' @ show_nat 0) @ lit ''/volumeMounts'') @ lit ''/-'') =
     [lit ''spec'', lit ''containers'', lit ''0'', lit ''volumeMounts'', [45]]"
  "tokens (lit (''/spec/containers/'' @ show_nat 0) @ lit ''/env'') =
     [lit ''spec'', lit ''containers'', lit ''0'', lit ''env'']"
  "tokens ((lit (''/spec/containers/'' @ show_nat 0) @ lit ''/env'') @ lit ''/-'') =
     [lit ''spec'', lit ''containers'', lit ''0'', lit ''env'', [45]]"
  by code_simp+

lemma array_index_0 [simp]: "array_index (lit ''0'') = Some 0"
  by code_simp

lemma field_names [simp]:
  "lit ''spec'' \<noteq> lit ''metadata''" "lit ''volumes'' \<noteq> lit ''containers''"
  "lit ''volumes'' \<noteq> lit ''initContainers''" "lit ''initContainers'' \<noteq> lit ''containers''"
  "lit ''volumeMounts'' \<noteq> lit ''env''" "lit ''labels'' \<noteq> lit ''annotations''"
  by code_simp+

lemmas field_names_sym [simp] = field_names [symmetric]

section \<open>What an operation does to a document\<close>

lemma alter_at:
  assumes "resolve ts v = Some u"
  shows "alter f (ts @ [t]) v = map_option (\<lambda>w. put ts w v) (f u t)"
  using assms by (simp add: alter_def)

lemma apply_add:
  assumes "tokens path = ts @ [t]" "resolve ts v = Some u"
  shows "apply_op (add path x) v = map_option (\<lambda>w. put ts w v) (insert_child x u t)"
  using assms by (cases "insert_child x u t") (simp_all add: apply_op_def add_def alter_at)

lemma apply_replace:
  assumes "tokens path = ts @ [t]" "resolve ts v = Some u"
  shows "apply_op (replace path x) v = map_option (\<lambda>w. put ts w v) (replace_child x u t)"
  using assms by (cases "replace_child x u t") (simp_all add: apply_op_def replace_def alter_at)

lemma apply_patch_append: "apply_patch (ps @ qs) v = Option.bind (apply_patch ps v) (apply_patch qs)"
  by (induction ps arbitrary: v) (auto split: Option.bind_splits)

lemma resolve_snoc: "resolve (ts @ [t]) v = Option.bind (resolve ts v) (\<lambda>u. child u t)"
  by (induction ts arbitrary: v) (auto split: Option.bind_splits)

lemma set_child_same [simp]: "child v t = Some u \<Longrightarrow> set_child v t u = v"
  by (cases v) (auto split: option.splits if_splits)

lemma put_same: "resolve ts v = Some u \<Longrightarrow> put ts u v = v"
  by (induction ts arbitrary: v) (auto split: Option.bind_splits)

lemma put_snoc:
  "\<lbrakk>resolve ts v = Some u; child u t = Some w\<rbrakk> \<Longrightarrow> put (ts @ [t]) x v = put ts (set_child u t x) v"
  by (induction ts arbitrary: v) (auto split: Option.bind_splits)

section \<open>The injected pod\<close>

text \<open>The lists the patch is meant to leave, as functions of what the pod had.\<close>

definition ensured :: "json option \<Rightarrow> rstr \<Rightarrow> json \<Rightarrow> json list" where
  "ensured old name item =
     (case Option.bind old as_array of
        Some xs \<Rightarrow> if has_named_item xs name then xs else xs @ [item]
      | None \<Rightarrow> [item])"

definition preloaded :: "json option \<Rightarrow> json list" where
  "preloaded old =
     (case Option.bind old as_array of
        Some xs \<Rightarrow>
          (case named_item_index xs (lit ''LD_PRELOAD'') of
             Some i \<Rightarrow> xs[i := preload_entry] | None \<Rightarrow> xs @ [preload_entry])
      | None \<Rightarrow> [preload_entry])"

definition inject_container :: "(rstr \<Rightarrow> json option) \<Rightarrow> (rstr \<Rightarrow> json option)" where
  "inject_container c =
     c(lit ''volumeMounts'' \<mapsto> JArr (ensured (c (lit ''volumeMounts'')) (lit VOLUME_NAME) overlay_mount),
       lit ''env'' \<mapsto> JArr (preloaded (c (lit ''env''))))"

definition inject_spec ::
  "sources \<Rightarrow> (rstr \<Rightarrow> json option) \<Rightarrow> (rstr \<Rightarrow> json option) \<Rightarrow> json list \<Rightarrow> (rstr \<Rightarrow> json option)" where
  "inject_spec src s c cs =
     s(lit ''volumes'' \<mapsto> JArr (ensured (s (lit ''volumes'')) (lit VOLUME_NAME) overlay_volume),
       lit ''initContainers'' \<mapsto>
         JArr (ensured (s (lit ''initContainers'')) (lit INIT_CONTAINER_NAME) (init_container src)),
       lit ''containers'' \<mapsto> JArr (JObj (inject_container c) # cs))"

lemma item_names [simp]:
  "is_named (lit VOLUME_NAME) overlay_volume" "is_named (lit VOLUME_NAME) overlay_mount"
  "is_named (lit ''LD_PRELOAD'') preload_entry" "is_named (lit INIT_CONTAINER_NAME) (init_container src)"
  by (simp_all add: is_named_def obj_def str_def overlay_volume_def overlay_mount_def preload_entry_def
      init_container_def Let_def)

lemma named_item_index_append:
  "named_item_index (xs @ ys) name =
     (case named_item_index xs name of Some i \<Rightarrow> Some i
      | None \<Rightarrow> map_option (\<lambda>i. length xs + i) (named_item_index ys name))"
  by (cases "named_item_index ys name"; induction xs) (auto split: option.splits)

lemma named_item_index_bound: "named_item_index xs name = Some i \<Longrightarrow> i < length xs"
  by (induction xs arbitrary: i) (auto split: if_splits)

lemma named_item_index_update:
  "\<lbrakk>named_item_index xs name = Some i; is_named name x\<rbrakk> \<Longrightarrow> named_item_index (xs[i := x]) name = Some i"
  by (induction xs arbitrary: i) (auto split: if_splits)

lemma ensured_named: "is_named name item \<Longrightarrow> has_named_item (ensured old name item) name"
  by (auto simp: ensured_def has_named_item_def named_item_index_append split: option.split)

lemma ensured_again [simp]:
  "is_named name item \<Longrightarrow> ensured (Some (JArr (ensured old name item))) name item = ensured old name item"
  using ensured_named [of name item old] by (simp add: ensured_def [of "Some _"])

lemma preloaded_entry:
  "\<exists>i. named_item_index (preloaded old) (lit ''LD_PRELOAD'') = Some i \<and> i < length (preloaded old) \<and>
     preloaded old ! i = preload_entry"
  by (auto simp: preloaded_def named_item_index_append named_item_index_update
      dest: named_item_index_bound split: option.split)

lemma preloaded_again [simp]: "preloaded (Some (JArr (preloaded old))) = preloaded old"
proof -
  obtain i where "named_item_index (preloaded old) (lit ''LD_PRELOAD'') = Some i"
    "preloaded old ! i = preload_entry" using preloaded_entry by blast
  then show ?thesis by (simp add: preloaded_def [of "Some _"] list_update_same_conv
      [OF named_item_index_bound])
qed

lemma ensure_patch:
  assumes "tokens path = ts @ [t]" "tokens dash = (ts @ [t]) @ [[45]]" "resolve ts v = Some (JObj f)"
    "old = Option.bind (f t) as_array"
  shows "apply_patch (case old of Some xs \<Rightarrow> if has_named_item xs name then [] else [add dash item]
       | None \<Rightarrow> [add path (JArr [item])]) v =
     Some (put ts (JObj (f(t \<mapsto> JArr (ensured (f t) name item)))) v)"
proof (cases old)
  case None
  then show ?thesis using assms by (simp add: apply_add [OF assms(1,3)] ensured_def)
next
  case (Some xs)
  then have ft: "f t = Some (JArr xs)" using assms(4) by (cases "f t"; cases "the (f t)") auto
  have r: "resolve (ts @ [t]) v = Some (JArr xs)" using assms(3) ft by (simp add: resolve_snoc)
  have "put (ts @ [t]) y v = put ts (JObj (f(t \<mapsto> y))) v" for y
    using put_snoc [OF assms(3)] ft by simp
  moreover have "f(t \<mapsto> JArr xs) = f" using ft by (simp add: fun_upd_idem)
  ultimately show ?thesis
    using Some put_same [OF assms(3)] ft by (simp add: apply_add [OF assms(2) r] ensured_def)
qed

lemma preload_patch:
  assumes "tokens path = ts @ [t]" "path = [] \<or> hd path = 47" "tokens dash = (ts @ [t]) @ [[45]]"
    "resolve ts v = Some (JObj f)" "old = Option.bind (f t) as_array"
  shows "apply_patch (case old of
       Some xs \<Rightarrow> (case named_item_index xs (lit ''LD_PRELOAD'') of
           Some i \<Rightarrow> [replace (path @ lit (''/'' @ show_nat i)) preload_entry]
         | None \<Rightarrow> [add dash preload_entry])
     | None \<Rightarrow> [add path (JArr [preload_entry])]) v =
     Some (put ts (JObj (f(t \<mapsto> JArr (preloaded (f t))))) v)"
proof (cases old)
  case None
  then show ?thesis using assms by (simp add: apply_add [OF assms(1,4)] preloaded_def)
next
  case (Some xs)
  then have ft: "f t = Some (JArr xs)" using assms(5) by (cases "f t"; cases "the (f t)") auto
  have r: "resolve (ts @ [t]) v = Some (JArr xs)" using assms(4) ft by (simp add: resolve_snoc)
  have up: "put (ts @ [t]) y v = put ts (JObj (f(t \<mapsto> y))) v" for y
    using put_snoc [OF assms(4)] ft by simp
  show ?thesis
  proof (cases "named_item_index xs (lit ''LD_PRELOAD'')")
    case None
    then show ?thesis using Some ft up by (simp add: apply_add [OF assms(3) r] preloaded_def)
  next
    case i: (Some i)
    have "lit (CHR ''/'' # show_nat i) = 47 # lit (show_nat i)" by (simp add: lit_def)
    then have p: "tokens (path @ lit (CHR ''/'' # show_nat i)) = (ts @ [t]) @ [lit (show_nat i)]"
      using tokens_show_nat [OF assms(2)] assms(1) by simp
    have "replace_child preload_entry (JArr xs) (lit (show_nat i)) = Some (JArr (xs[i := preload_entry]))"
      using named_item_index_bound [OF i] by (simp add: replace_child_def)
    then show ?thesis using Some i ft up by (simp add: apply_replace [OF p r] preloaded_def)
  qed
qed

lemma pointerD: "\<lbrakk>json_pointer pointer; hd path = 47\<rbrakk> \<Longrightarrow> pointer v path = resolve (tokens path) v"
  by (simp add: json_pointer_def)

lemma path_heads [simp]:
  "hd (lit ''/spec/containers'') = 47" "hd (lit ''/spec/volumes'') = 47"
  "hd (lit ''/spec/initContainers'') = 47" "hd (lit ''/volumeMounts'') = 47" "hd (lit ''/env'') = 47"
  "hd (lit ''/metadata/labels'') = 47" "hd (lit ''/metadata/annotations'') = 47"
  "hd (lit (''/spec/containers/'' @ show_nat 0)) = 47"
  "hd (lit (''/spec/containers/'' @ show_nat 0) @ lit ''/env'') = 47"
  by (simp_all add: lit_def)

lemma volume_patch_effect:
  assumes "json_pointer pointer" "P (lit ''spec'') = Some (JObj S)"
  shows "apply_patch (push_volume_patch pointer (JObj P)) (JObj P) = Some (JObj (P(lit ''spec'' \<mapsto>
     JObj (S(lit ''volumes'' \<mapsto> JArr (ensured (S (lit ''volumes'')) (lit VOLUME_NAME) overlay_volume))))))"
  unfolding push_volume_patch_def
  by (subst ensure_patch [where ts = "[lit ''spec'']" and t = "lit ''volumes''" and f = S])
    (use assms in \<open>simp_all add: tokens_const array_at_def pointerD\<close>)

lemma init_patch_effect:
  assumes "json_pointer pointer" "P (lit ''spec'') = Some (JObj S)" "Q (lit ''spec'') = Some (JObj T)"
    "T (lit ''initContainers'') = S (lit ''initContainers'')"
  shows "apply_patch (push_init_container_patch src pointer (JObj P)) (JObj Q) = Some (JObj (Q(lit ''spec'' \<mapsto>
     JObj (T(lit ''initContainers'' \<mapsto>
       JArr (ensured (S (lit ''initContainers'')) (lit INIT_CONTAINER_NAME) (init_container src)))))))"
  unfolding push_init_container_patch_def
  by (subst ensure_patch [where ts = "[lit ''spec'']" and t = "lit ''initContainers''" and f = T])
    (use assms in \<open>simp_all add: tokens_const array_at_def pointerD\<close>)

lemma target_patch_effect:
  assumes ptr: "json_pointer pointer" and P: "P (lit ''spec'') = Some (JObj S)"
    and S: "S (lit ''containers'') = Some (JArr (JObj C # Cs))"
    and Q: "Q (lit ''spec'') = Some (JObj T)" and T: "T (lit ''containers'') = S (lit ''containers'')"
  obtains ops where "push_target_container_patch pointer (JObj P) 0 = Inr ops" "ops \<noteq> []"
    "apply_patch ops (JObj Q) = Some (JObj (Q(lit ''spec'' \<mapsto>
       JObj (T(lit ''containers'' \<mapsto> JArr (JObj (inject_container C) # Cs))))))"
proof -
  let ?ts = "[lit ''spec'', lit ''containers'', lit ''0'']"
  let ?base = "lit (''/spec/containers/'' @ show_nat 0)"
  let ?m = "case Option.bind (C (lit ''volumeMounts'')) as_array of
      Some xs \<Rightarrow> if has_named_item xs (lit VOLUME_NAME) then []
        else [add ((?base @ lit ''/volumeMounts'') @ lit ''/-'') overlay_mount]
    | None \<Rightarrow> [add (?base @ lit ''/volumeMounts'') (JArr [overlay_mount])]"
  let ?e = "case Option.bind (C (lit ''env'')) as_array of
      Some xs \<Rightarrow> (case named_item_index xs (lit ''LD_PRELOAD'') of
          Some i \<Rightarrow> [replace ((?base @ lit ''/env'') @ lit (''/'' @ show_nat i)) preload_entry]
        | None \<Rightarrow> [add ((?base @ lit ''/env'') @ lit ''/-'') preload_entry])
    | None \<Rightarrow> [add (?base @ lit ''/env'') (JArr [preload_entry])]"
  have base: "pointer (JObj P) ?base = Some (JObj C)"
    using ptr P S by (simp only: pointerD path_heads tokens_container) simp
  have lists: "array_at pointer (JObj C) (lit ''/volumeMounts'') = Option.bind (C (lit ''volumeMounts'')) as_array"
    "array_at pointer (JObj C) (lit ''/env'') = Option.bind (C (lit ''env'')) as_array"
    using ptr by (simp_all add: array_at_def pointerD tokens_const)
  have ops: "push_target_container_patch pointer (JObj P) 0 = Inr (?m @ ?e)"
    by (simp only: push_target_container_patch_def Let_def base lists option.case)
  have r: "resolve ?ts (JObj Q) = Some (JObj C)" using Q T S by simp
  have put: "put ?ts x (JObj Q) = JObj (Q(lit ''spec'' \<mapsto> JObj (T(lit ''containers'' \<mapsto> JArr (x # Cs)))))" for x
    using Q T S by simp
  let ?C = "C(lit ''volumeMounts'' \<mapsto> JArr (ensured (C (lit ''volumeMounts'')) (lit VOLUME_NAME) overlay_mount))"
  have m: "apply_patch ?m (JObj Q) = Some (put ?ts (JObj ?C) (JObj Q))"
    by (rule ensure_patch) (use tokens_container r in simp_all)
  have r2: "resolve ?ts (put ?ts (JObj ?C) (JObj Q)) = Some (JObj ?C)" unfolding put by simp
  have e: "apply_patch ?e (put ?ts (JObj ?C) (JObj Q)) =
      Some (put ?ts (JObj (?C(lit ''env'' \<mapsto> JArr (preloaded (?C (lit ''env'')))))) (put ?ts (JObj ?C) (JObj Q)))"
    by (rule preload_patch [OF _ disjI2 [OF path_heads(9)] _ r2]) (use tokens_container in simp_all)
  have "put ?ts (JObj (?C(lit ''env'' \<mapsto> JArr (preloaded (?C (lit ''env'')))))) (put ?ts (JObj ?C) (JObj Q)) =
      JObj (Q(lit ''spec'' \<mapsto> JObj (T(lit ''containers'' \<mapsto> JArr (JObj (inject_container C) # Cs)))))"
    unfolding put by (simp add: inject_container_def)
  then have "apply_patch (?m @ ?e) (JObj Q) =
      Some (JObj (Q(lit ''spec'' \<mapsto> JObj (T(lit ''containers'' \<mapsto> JArr (JObj (inject_container C) # Cs))))))"
    by (simp only: apply_patch_append m e Option.bind.simps)
  moreover have "?m @ ?e \<noteq> []" by (simp split: option.split)
  ultimately show ?thesis using that ops by blast
qed

lemma inject_again:
  assumes "inject_spec src S C Cs = S'"
  shows "inject_spec src S' (inject_container C) Cs = S'"
  unfolding assms [symmetric] by (simp add: inject_spec_def inject_container_def fun_upd_twist)

lemma injection_effect:
  assumes ptr: "json_pointer pointer"
    and mode: "env_var src ''SYNTRIASS_WEBHOOK_MODE'' \<noteq> Some (lit WEBHOOK_MODE_KERNEL_NATIVE)"
    and P: "P (lit ''spec'') = Some (JObj S)" and S: "S (lit ''containers'') = Some (JArr (JObj C # Cs))"
  obtains patch where "build_patch src pointer (JObj P) = Inr patch" "patch \<noteq> []"
    "apply_patch patch (JObj P) = Some (JObj (P(lit ''spec'' \<mapsto> JObj (inject_spec src S C Cs))))"
proof -
  let ?S1 = "S(lit ''volumes'' \<mapsto> JArr (ensured (S (lit ''volumes'')) (lit VOLUME_NAME) overlay_volume))"
  let ?S2 = "?S1(lit ''initContainers'' \<mapsto>
      JArr (ensured (S (lit ''initContainers'')) (lit INIT_CONTAINER_NAME) (init_container src)))"
  let ?P1 = "P(lit ''spec'' \<mapsto> JObj ?S1)" and ?P2 = "P(lit ''spec'' \<mapsto> JObj ?S2)"
  obtain ops where ops: "push_target_container_patch pointer (JObj P) 0 = Inr ops" "ops \<noteq> []"
    "apply_patch ops (JObj ?P2) = Some (JObj (?P2(lit ''spec'' \<mapsto>
       JObj (?S2(lit ''containers'' \<mapsto> JArr (JObj (inject_container C) # Cs))))))"
    by (rule target_patch_effect [where P = P and S = S and Q = ?P2 and T = ?S2 and C = C and Cs = Cs])
      (use ptr P S in simp_all)
  let ?patch = "push_volume_patch pointer (JObj P) @ push_init_container_patch src pointer (JObj P) @ ops"
  have "array_at pointer (JObj P) (lit ''/spec/containers'') = Some (JObj C # Cs)"
    using ptr P S by (simp add: array_at_def pointerD tokens_const)
  then have "build_patch src pointer (JObj P) = Inr ?patch"
    using mode ops by (simp add: build_patch_def ok_or_def ensure_def)
  moreover have "apply_patch (push_init_container_patch src pointer (JObj P)) (JObj ?P1) = Some (JObj ?P2)"
    by (subst init_patch_effect [where S = S and T = ?S1]) (use ptr P in simp_all)
  then have "apply_patch ?patch (JObj P) = Some (JObj (P(lit ''spec'' \<mapsto> JObj (inject_spec src S C Cs))))"
    using volume_patch_effect [where P = P and S = S, OF ptr P] ops(3) by (simp add: apply_patch_append inject_spec_def)
  ultimately show ?thesis using that ops(2) by blast
qed

text \<open>The labels and annotations in kernel-native mode.\<close>

definition marked :: "json option \<Rightarrow> rstr \<Rightarrow> rstr \<Rightarrow> (rstr \<Rightarrow> json option)" where
  "marked old key value = (case Option.bind old as_object of Some fs \<Rightarrow> fs | None \<Rightarrow> Map.empty)(key \<mapsto> JStr value)"

lemma metadata_field_effect:
  assumes "json_pointer pointer" "tokens path = [m, t]" "hd path = 47" "126 \<notin> set key"
    "P m = Some (JObj M)" "Q m = Some (JObj N)" "N t = M t"
  shows "apply_patch (push_metadata_field pointer (JObj P) path key value) (JObj Q) =
     Some (JObj (Q(m \<mapsto> JObj (N(t \<mapsto> JObj (marked (M t) key value))))))"
proof -
  have at: "pointer (JObj P) path = M t" using assms by (cases "M t") (simp_all add: pointerD)
  have r: "resolve [m] (JObj Q) = Some (JObj N)" using assms by simp
  show ?thesis
  proof (cases "Option.bind (M t) as_object")
    case None
    have "tokens path = [m] @ [t]" using assms(2) by simp
    then show ?thesis using None assms(6)
      by (simp add: push_metadata_field_def at apply_add [OF _ r] marked_def)
  next
    case (Some fs)
    then have mt: "M t = Some (JObj fs)" by (cases "M t"; cases "the (M t)") auto
    have p: "tokens (path @ 47 # encode_key key) = [m, t] @ [key]"
      using assms(2-4) by (simp add: tokens_append encode_key_plain)
    have r2: "resolve [m, t] (JObj Q) = Some (JObj fs)" using assms mt by simp
    have same: "fs key = Some (JStr value) \<Longrightarrow> fs(key \<mapsto> JStr value) = fs" by (simp add: fun_upd_idem)
    have str: "Option.bind (fs key) as_str = Some value \<longleftrightarrow> fs key = Some (JStr value)"
      by (cases "fs key"; cases "the (fs key)") auto
    have idem: "Q(m \<mapsto> JObj (N(t \<mapsto> JObj fs))) = Q" using assms mt by (simp add: fun_upd_idem)
    show ?thesis using Some assms(6,7) mt
      by (auto simp: push_metadata_field_def Let_def at str same idem marked_def replace_child_def
          apply_add [OF p r2] apply_replace [OF p r2])
  qed
qed

lemma mark_keys:
  "126 \<notin> set (lit ''syntriass.io/enforcement'')" "126 \<notin> set (lit ''syntriass.io/pqc-suite'')"
  by code_simp+

section \<open>Properties\<close>

text \<open>C32. The webhook puts the overlay into every pod it admits in preload mode. For a pod whose
  first container is an object, the patch exists, the API server can apply it, and the result is
  the pod with the overlay volume, the copying init container, the mount on the first container and
  \<open>LD_PRELOAD\<close> naming the library there, everything else being as it was. The answer carries that
  patch, or is a denial when it cannot be serialised; the pod is never admitted without it. Reviewing
  the patched pod again leaves it as it is.\<close>

theorem webhook_injects:
  assumes "json_pointer pointer"
    "env_var src ''SYNTRIASS_WEBHOOK_MODE'' \<noteq> Some (lit WEBHOOK_MODE_KERNEL_NATIVE)"
    "gvk_kind (rq_kind request) = lit ''Pod''" "rq_operation request = lit ''CREATE''"
    "rq_object request = JObj P" "P (lit ''spec'') = Some (JObj S)"
    "S (lit ''containers'') = Some (JArr (JObj C # Cs))"
    "pod' = JObj (P(lit ''spec'' \<mapsto> JObj (inject_spec src S C Cs)))"
  shows "(\<exists>patch again. build_patch src pointer (rq_object request) = Inr patch
      \<and> apply_patch patch (rq_object request) = Some pod'
      \<and> mutate_request src pointer encode request =
          (case encode patch of
             Some body \<Rightarrow> \<lparr>rs_uid = rq_uid request, rs_allowed = True, rs_status = None,
               rs_patch_type = Some (lit ''JSONPatch''), rs_patch = Some body\<rparr>
           | None \<Rightarrow> deny (rq_uid request) ''failed to serialize Syntriass JSON patch'')
      \<and> build_patch src pointer pod' = Inr again \<and> apply_patch again pod' = Some pod')
    \<and> has_named_item (ensured (S (lit ''volumes'')) (lit VOLUME_NAME) overlay_volume) (lit VOLUME_NAME)
    \<and> has_named_item (ensured (S (lit ''initContainers'')) (lit INIT_CONTAINER_NAME) (init_container src))
        (lit INIT_CONTAINER_NAME)
    \<and> has_named_item (ensured (C (lit ''volumeMounts'')) (lit VOLUME_NAME) overlay_mount) (lit VOLUME_NAME)
    \<and> (\<exists>i. named_item_index (preloaded (C (lit ''env''))) (lit ''LD_PRELOAD'') = Some i
        \<and> preloaded (C (lit ''env'')) ! i = preload_entry)"
proof -
  let ?S = "inject_spec src S C Cs"
  obtain patch where p: "build_patch src pointer (JObj P) = Inr patch" "patch \<noteq> []"
    "apply_patch patch (JObj P) = Some pod'"
    by (rule injection_effect [where P = P and S = S and C = C and Cs = Cs, OF assms(1,2,6,7)])
      (simp add: assms(8))
  have "?S (lit ''containers'') = Some (JArr (JObj (inject_container C) # Cs))" by (simp add: inject_spec_def)
  then obtain again where "build_patch src pointer pod' = Inr again" "apply_patch again pod' = Some pod'"
    using assms(8)
    by - (rule injection_effect [where P = "P(lit ''spec'' \<mapsto> JObj ?S)" and S = ?S
          and C = "inject_container C" and Cs = Cs, OF assms(1,2)],
        simp_all add: inject_again [OF refl])
  moreover have "mutate_request src pointer encode request =
      (case encode patch of
         Some body \<Rightarrow> \<lparr>rs_uid = rq_uid request, rs_allowed = True, rs_status = None,
           rs_patch_type = Some (lit ''JSONPatch''), rs_patch = Some body\<rparr>
       | None \<Rightarrow> deny (rq_uid request) ''failed to serialize Syntriass JSON patch'')"
    using assms(3-5) p(1,2) by (simp add: mutate_request_def)
  ultimately show ?thesis
    using p assms(5) ensured_named item_names preloaded_entry [of "C (lit ''env'')"] by auto
qed

definition toy_pod :: "rstr \<Rightarrow> json option" where
  "toy_pod = [lit ''metadata'' \<mapsto> JObj Map.empty, lit ''spec'' \<mapsto> JObj [lit ''containers'' \<mapsto> JArr [JObj Map.empty]]]"

definition toy_request :: AdmissionRequest where
  "toy_request = \<lparr>rq_uid = lit ''7'', rq_kind = \<lparr>gvk_group = [], gvk_version = lit ''v1'', gvk_kind = lit ''Pod''\<rparr>,
     rq_operation = lit ''CREATE'', rq_namespace = None, rq_object = JObj toy_pod\<rparr>"

definition toy_mode :: "rstr option \<Rightarrow> sources" where
  "toy_mode mode = \<lparr>env_var = (\<lambda>k. if k = ''SYNTRIASS_WEBHOOK_MODE'' then mode else None),
     policy_toml = None, identity_toml = None\<rparr>"

theorem webhook_injects_witness:
  "\<exists>patch. build_patch (toy_mode None) rfc6901 (rq_object toy_request) = Inr patch
     \<and> apply_patch patch (rq_object toy_request) = Some (JObj (toy_pod(lit ''spec'' \<mapsto>
         JObj (inject_spec (toy_mode None) [lit ''containers'' \<mapsto> JArr [JObj Map.empty]] Map.empty []))))"
  using webhook_injects [of rfc6901 "toy_mode None" toy_request toy_pod
      "[lit ''containers'' \<mapsto> JArr [JObj Map.empty]]" Map.empty "[]", OF _ _ _ _ _ _ _ refl]
  by (simp add: rfc6901_pointer toy_mode_def toy_request_def toy_pod_def) blast

text \<open>In kernel-native mode the webhook marks the pod and nothing else. For a pod with
  metadata and at least one container, the patch applies and the result has the enforcement label
  and the suite annotation among the ones it had; reviewing the marked pod again finds nothing to
  do, and the pod is admitted without a patch.\<close>

lemma kernel_native_marks:
  assumes "json_pointer pointer"
    "env_var src ''SYNTRIASS_WEBHOOK_MODE'' = Some (lit WEBHOOK_MODE_KERNEL_NATIVE)"
    "P (lit ''spec'') = Some (JObj S)" "S (lit ''containers'') = Some (JArr (c # cs))"
    "P (lit ''metadata'') = Some (JObj M)"
    "pod' = JObj (P(lit ''metadata'' \<mapsto> JObj (M(
       lit ''labels'' \<mapsto> JObj (marked (M (lit ''labels'')) (lit ''syntriass.io/enforcement'') (lit ''kernel-native'')),
       lit ''annotations'' \<mapsto> JObj (marked (M (lit ''annotations'')) (lit ''syntriass.io/pqc-suite'') (lit ''policy''))))))"
  shows "(\<exists>patch. build_patch src pointer (JObj P) = Inr patch \<and> apply_patch patch (JObj P) = Some pod')
    \<and> build_patch src pointer pod' = Inr []
    \<and> (rq_object request = pod' \<longrightarrow> mutate_request src pointer encode request = allow_without_patch (rq_uid request))"
proof -
  let ?L = "JObj (marked (M (lit ''labels'')) (lit ''syntriass.io/enforcement'') (lit ''kernel-native''))"
  let ?P = "P(lit ''metadata'' \<mapsto> JObj (M(lit ''labels'' \<mapsto> ?L)))"
  have build: "build_patch src pointer (JObj Q) = Inr (push_kernel_native_metadata_patch pointer (JObj Q))"
    if "Q (lit ''spec'') = Some (JObj S)" for Q
    using that assms(1,2,4) by (simp add: build_patch_def array_at_def pointerD tokens_const ok_or_def ensure_def)
  have l: "apply_patch (push_metadata_field pointer (JObj P) (lit ''/metadata/labels'')
      (lit ''syntriass.io/enforcement'') (lit ''kernel-native'')) (JObj P) = Some (JObj ?P)"
    by (rule metadata_field_effect [where M = M and N = M]) (use assms mark_keys in \<open>simp_all add: tokens_const\<close>)
  have "apply_patch (push_metadata_field pointer (JObj P) (lit ''/metadata/annotations'')
      (lit ''syntriass.io/pqc-suite'') (lit ''policy'')) (JObj ?P) = Some pod'"
    by (subst metadata_field_effect [where m = "lit ''metadata''" and t = "lit ''annotations''" and M = M
          and N = "M(lit ''labels'' \<mapsto> ?L)"])
      (use assms mark_keys in \<open>simp_all add: tokens_const\<close>)
  then have "apply_patch (push_kernel_native_metadata_patch pointer (JObj P)) (JObj P) = Some pod'"
    by (simp add: push_kernel_native_metadata_patch_def apply_patch_append l)
  moreover have again: "build_patch src pointer pod' = Inr []"
    using assms(1,3,6) build
    by (simp add: push_kernel_native_metadata_patch_def push_metadata_field_def pointerD tokens_const marked_def)
  ultimately show ?thesis
    using build [of P, OF assms(3)] by (simp add: mutate_request_def)
qed

lemma kernel_native_marks_example:
  "\<exists>patch. build_patch (toy_mode (Some (lit WEBHOOK_MODE_KERNEL_NATIVE))) rfc6901 (JObj toy_pod) = Inr patch
     \<and> apply_patch patch (JObj toy_pod) = Some (JObj (toy_pod(lit ''metadata'' \<mapsto> JObj [
         lit ''labels'' \<mapsto> JObj (marked None (lit ''syntriass.io/enforcement'') (lit ''kernel-native'')),
         lit ''annotations'' \<mapsto> JObj (marked None (lit ''syntriass.io/pqc-suite'') (lit ''policy''))])))"
  using kernel_native_marks [of rfc6901 "toy_mode (Some (lit WEBHOOK_MODE_KERNEL_NATIVE))" toy_pod
      "[lit ''containers'' \<mapsto> JArr [JObj Map.empty]]" "JObj Map.empty" "[]" Map.empty, OF _ _ _ _ _ refl]
  by (simp add: rfc6901_pointer toy_mode_def toy_pod_def)

text \<open>The webhook denies rather than guesses. A request is refused exactly when it creates a
  pod and either the pod's containers are absent, not a list or empty, or the patch cannot be
  serialised; a review without a request is refused. Every other kind of request is admitted
  unchanged, and a patch is attached exactly to an admitted pod creation that has something to
  change.\<close>

lemma webhook_fails_closed:
  fixes src pointer encode
  assumes "json_pointer pointer"
    "creates = (gvk_kind (rq_kind request) = lit ''Pod'' \<and> rq_operation request = lit ''CREATE'')"
    "containers = Option.bind (resolve [lit ''spec'', lit ''containers''] (rq_object request)) as_array"
    "response = mutate_request src pointer encode request"
    "review = \<lparr>rv_api_version = v, rv_kind = k, rv_request = r, rv_response = q\<rparr>"
  shows "(\<not> rs_allowed response \<longleftrightarrow> creates \<and> (containers = None \<or> containers = Some [] \<or>
        (\<exists>patch. build_patch src pointer (rq_object request) = Inr patch \<and> patch \<noteq> [] \<and> encode patch = None)))
    \<and> (\<not> creates \<longrightarrow> response = allow_without_patch (rq_uid request))
    \<and> (rs_patch response \<noteq> None \<longleftrightarrow>
        creates \<and> (\<exists>patch. build_patch src pointer (rq_object request) = Inr patch \<and> patch \<noteq> [] \<and> encode patch \<noteq> None))
    \<and> rs_uid response = rq_uid request
    \<and> (r = None \<longrightarrow> rv_response (snd (mutate src pointer encode review)) =
        Some (deny [] ''AdmissionReview request is missing''))
    \<and> (r = Some request \<longrightarrow> rv_response (snd (mutate src pointer encode review)) = Some response)"
proof -
  have c: "array_at pointer (rq_object request) (lit ''/spec/containers'') = containers"
    using assms(1,3) by (simp add: array_at_def pointerD tokens_const)
  have target: "\<exists>ops. push_target_container_patch pointer (rq_object request) 0 = Inr ops"
    if "containers = Some (x # xs)" for x xs
  proof -
    have "pointer (rq_object request) (lit (''/spec/containers/'' @ show_nat 0)) = Some x"
      using that assms(1,3) by (simp only: pointerD path_heads tokens_container)
        (auto split: Option.bind_splits elim!: as_array.elims)
    then show ?thesis by (simp only: push_target_container_patch_def Let_def option.case) blast
  qed
  have "(\<exists>e. build_patch src pointer (rq_object request) = Inl e) \<longleftrightarrow> containers = None \<or> containers = Some []"
    using target by (cases containers; cases "the containers")
      (auto simp: build_patch_def c ok_or_def ensure_def)
  then show ?thesis
    using assms(2,4,5)
    by (cases "build_patch src pointer (rq_object request)")
      (auto simp: mutate_request_def mutate_def deny_def allow_without_patch_def split: option.splits)
qed

lemma webhook_fails_closed_example:
  "\<not> rs_allowed (mutate_request (toy_mode None) rfc6901 (\<lambda>_. None) (toy_request\<lparr>rq_object := JObj Map.empty\<rparr>))"
  using webhook_fails_closed [where request = "toy_request\<lparr>rq_object := JObj Map.empty\<rparr>" and src = "toy_mode None" and encode = "\<lambda>_. None",
      OF rfc6901_pointer refl refl refl refl]
  by (simp add: toy_request_def)

end
