(* ===== verification/Daemon_Server.thy ===== *)
theory Daemon_Server
  imports Control_Daemon
begin

text \<open>
  The control daemon as a server (\<open>src/bin/daemon.rs\<close>): choosing the mode, binding the listener, the
  accept loop that spawns one task per connection, and the end of the process when accepting fails,
  which drops the tasks that are still waiting and thereby closes their connections. A task runs as
  one step once its connection is ready: it works on its own connection, so that the steps of
  different tasks do not interfere. Listener and runtime are a parameter.
\<close>

section \<open>The server\<close>

text \<open>\<open>l_accept\<close> yields nothing while no connection is waiting. \<open>l_ready\<close> says that the operations of the
  task on a connection can complete, because the peer has answered or has gone.\<close>

record 'os listen_ops =
  l_daemon :: "'os daemon_ops"
  l_remove_file :: "rstr \<Rightarrow> 'os \<Rightarrow> 'os"
  l_bind_tcp :: "rstr \<Rightarrow> 'os \<Rightarrow> (int + int) \<times> 'os"
  l_bind_unix :: "rstr \<Rightarrow> 'os \<Rightarrow> (int + int) \<times> 'os"
  l_accept :: "int \<Rightarrow> 'os \<Rightarrow> (int + int) option \<times> 'os"
  l_read_to_end :: "int \<Rightarrow> 'os \<Rightarrow> (int + bytes) \<times> 'os"
  l_write_all :: "int \<Rightarrow> bytes \<Rightarrow> 'os \<Rightarrow> int option \<times> 'os"
  l_ready :: "int \<Rightarrow> 'os \<Rightarrow> bool"

record 'os daemon =
  dm_os :: 'os
  dm_mode :: daemon_mode
  dm_listener :: int
  dm_tasks :: "int list"
  dm_exit :: "int option"

definition listen :: "'os listen_ops \<Rightarrow> daemon_mode \<Rightarrow> 'os \<Rightarrow> (int + int) \<times> 'os" where
  "listen lops mode os =
     (case mode of
        FdPassing path \<Rightarrow> l_bind_unix lops path (l_remove_file lops path os)
      | OverSocketListen addr \<Rightarrow> l_bind_tcp lops addr os
      | Upcalls path \<Rightarrow> l_bind_unix lops path (l_remove_file lops path os))"

definition daemon_start :: "'os listen_ops \<Rightarrow> sources \<Rightarrow> 'os \<Rightarrow> int + 'os daemon" where
  "daemon_start lops src os =
     (case listen lops (daemon_main src) os of
        (Inl e, os1) \<Rightarrow> Inl e
      | (Inr listener, os1) \<Rightarrow>
          Inr \<lparr>dm_os = os1, dm_mode = daemon_main src, dm_listener = listener, dm_tasks = [], dm_exit = None\<rparr>)"

text \<open>When \<open>main\<close> returns, the runtime drops every unfinished task, and the listener is dropped with it.\<close>

definition shut_down :: "'os listen_ops \<Rightarrow> int \<Rightarrow> 'os daemon \<Rightarrow> 'os daemon" where
  "shut_down lops e d =
     (let close = u_close (d_unix (l_daemon lops)) in
      d\<lparr>dm_os := close (dm_listener d) (fold close (dm_tasks d) (dm_os d)), dm_tasks := [], dm_exit := Some e\<rparr>)"

definition accept_turn :: "'os listen_ops \<Rightarrow> 'os daemon \<Rightarrow> 'os daemon" where
  "accept_turn lops d =
     (case l_accept lops (dm_listener d) (dm_os d) of
        (None, os1) \<Rightarrow> d\<lparr>dm_os := os1\<rparr>
      | (Some (Inr stream), os1) \<Rightarrow> d\<lparr>dm_os := os1, dm_tasks := stream # dm_tasks d\<rparr>
      | (Some (Inl e), os1) \<Rightarrow> shut_down lops e (d\<lparr>dm_os := os1\<rparr>))"

section \<open>The tasks\<close>

text \<open>A request is read to its end, answered, and its connection dropped. An error is only logged.\<close>

definition serve_request ::
  "crypto_lib \<Rightarrow> bool \<Rightarrow> 'os listen_ops \<Rightarrow> (bytes \<Rightarrow> string + KernelUpcall) \<Rightarrow> (UpcallResponse \<Rightarrow> string + bytes) \<Rightarrow>
     upcall_env \<Rightarrow> int \<Rightarrow> 'os \<Rightarrow> unit outcome \<times> 'os" where
  "serve_request lib big lops from_slice to_vec ue stream os =
     (let close = u_close (d_unix (l_daemon lops)) stream in
      case l_read_to_end lops stream os of
        (Inl e, os1) \<Rightarrow> (Ret (), close os1)
      | (Inr buf, os1) \<Rightarrow>
          (case handle_stream lib big (d_tcp (l_daemon lops)) ue from_slice to_vec buf os1 of
             (Panic, os2) \<Rightarrow> (Panic, close os2)
           | (Ret (Inl e), os2) \<Rightarrow> (Ret (), close os2)
           | (Ret (Inr body), os2) \<Rightarrow>
               (if buf = [] then (Ret (), close os2)
                else case l_write_all lops stream body os2 of (r, os3) \<Rightarrow> (Ret (), close os3))))"

definition serve_passed ::
  "crypto_lib \<Rightarrow> bool \<Rightarrow> 'os listen_ops \<Rightarrow> upcall_env \<Rightarrow> int \<Rightarrow> 'os \<Rightarrow> unit outcome \<times> 'os" where
  "serve_passed lib big lops ue channel os =
     (case handle_passed_fd lib big (l_daemon lops) (ue_lock ue) (ue_responder ue) channel os of
        (Panic, os1) \<Rightarrow> (Panic, os1)
      | (Ret _, os1) \<Rightarrow> (Ret (), os1))"

definition serve_accepted ::
  "crypto_lib \<Rightarrow> bool \<Rightarrow> 'os listen_ops \<Rightarrow> upcall_env \<Rightarrow> int \<Rightarrow> 'os \<Rightarrow> unit outcome \<times> 'os" where
  "serve_accepted lib big lops ue stream os =
     serve_over_socket lib big (d_tcp (l_daemon lops)) (ue_lock ue) (ue_responder ue) stream Responder os"

definition daemon_task ::
  "crypto_lib \<Rightarrow> bool \<Rightarrow> 'os listen_ops \<Rightarrow> (bytes \<Rightarrow> string + KernelUpcall) \<Rightarrow> (UpcallResponse \<Rightarrow> string + bytes) \<Rightarrow>
     daemon_mode \<Rightarrow> upcall_env \<Rightarrow> int \<Rightarrow> 'os \<Rightarrow> unit outcome \<times> 'os" where
  "daemon_task lib big lops from_slice to_vec mode =
     (case mode of
        FdPassing _ \<Rightarrow> serve_passed lib big lops
      | OverSocketListen _ \<Rightarrow> serve_accepted lib big lops
      | Upcalls _ \<Rightarrow> serve_request lib big lops from_slice to_vec)"

definition task_turn ::
  "crypto_lib \<Rightarrow> bool \<Rightarrow> 'os listen_ops \<Rightarrow> (bytes \<Rightarrow> string + KernelUpcall) \<Rightarrow> (UpcallResponse \<Rightarrow> string + bytes) \<Rightarrow>
     upcall_env \<Rightarrow> int \<Rightarrow> 'os daemon \<Rightarrow> 'os daemon" where
  "task_turn lib big lops from_slice to_vec ue c d =
     d\<lparr>dm_os := snd (daemon_task lib big lops from_slice to_vec (dm_mode d) ue c (dm_os d)), dm_tasks := remove1 c (dm_tasks d)\<rparr>"

section \<open>Runs\<close>

text \<open>The process as a transition system. What happens outside, at the peers for instance, does not open
  or close the daemon's descriptors. The random draws and the configuration a task sees are arbitrary.\<close>

datatype turn = Accept | Run int | Outside

inductive daemon_step ::
  "crypto_lib \<Rightarrow> bool \<Rightarrow> 'os listen_ops \<Rightarrow> (bytes \<Rightarrow> string + KernelUpcall) \<Rightarrow> (UpcallResponse \<Rightarrow> string + bytes) \<Rightarrow>
     ('os \<Rightarrow> int \<Rightarrow> sockstate) \<Rightarrow> turn \<Rightarrow> 'os daemon \<Rightarrow> 'os daemon \<Rightarrow> bool"
  for lib big lops from_slice to_vec sock where
  accepting: "dm_exit d = None \<Longrightarrow> daemon_step lib big lops from_slice to_vec sock Accept d (accept_turn lops d)"
| running: "dm_exit d = None \<Longrightarrow> c \<in> set (dm_tasks d) \<Longrightarrow> l_ready lops c (dm_os d) \<Longrightarrow>
    daemon_step lib big lops from_slice to_vec sock (Run c) d (task_turn lib big lops from_slice to_vec ue c d)"
| outside: "sock os = sock (dm_os d) \<Longrightarrow> daemon_step lib big lops from_slice to_vec sock Outside d (d\<lparr>dm_os := os\<rparr>)"

inductive_cases accept_stepE: "daemon_step lib big lops from_slice to_vec sock Accept d d'"
inductive_cases run_stepE: "daemon_step lib big lops from_slice to_vec sock (Run c) d d'"
inductive_cases outside_stepE: "daemon_step lib big lops from_slice to_vec sock Outside d d'"

inductive daemon_reaches ::
  "crypto_lib \<Rightarrow> bool \<Rightarrow> 'os listen_ops \<Rightarrow> (bytes \<Rightarrow> string + KernelUpcall) \<Rightarrow> (UpcallResponse \<Rightarrow> string + bytes) \<Rightarrow>
     ('os \<Rightarrow> int \<Rightarrow> sockstate) \<Rightarrow> 'os daemon \<Rightarrow> 'os daemon \<Rightarrow> bool"
  for lib big lops from_slice to_vec sock d where
  start: "daemon_reaches lib big lops from_slice to_vec sock d d"
| turn: "daemon_reaches lib big lops from_slice to_vec sock d d' \<Longrightarrow>
    daemon_step lib big lops from_slice to_vec sock t d' d'' \<Longrightarrow> daemon_reaches lib big lops from_slice to_vec sock d d''"

definition daemon_run ::
  "crypto_lib \<Rightarrow> bool \<Rightarrow> 'os listen_ops \<Rightarrow> (bytes \<Rightarrow> string + KernelUpcall) \<Rightarrow> (UpcallResponse \<Rightarrow> string + bytes) \<Rightarrow>
     ('os \<Rightarrow> int \<Rightarrow> sockstate) \<Rightarrow> (nat \<Rightarrow> 'os daemon) \<Rightarrow> (nat \<Rightarrow> turn) \<Rightarrow> bool" where
  "daemon_run lib big lops from_slice to_vec sock \<sigma> lab \<longleftrightarrow>
     (\<forall>n. daemon_step lib big lops from_slice to_vec sock (lab n) (\<sigma> n) (\<sigma> (Suc n)))"

text \<open>The runtime is fair: a task that stays runnable is run. The peers are responsive: the connection of
  a waiting task becomes ready for good.\<close>

definition fair :: "'os listen_ops \<Rightarrow> (nat \<Rightarrow> 'os daemon) \<Rightarrow> (nat \<Rightarrow> turn) \<Rightarrow> bool" where
  "fair lops \<sigma> lab \<longleftrightarrow>
     (\<forall>c n. (\<forall>m \<ge> n. c \<in> set (dm_tasks (\<sigma> m)) \<and> l_ready lops c (dm_os (\<sigma> m))) \<longrightarrow> (\<exists>m \<ge> n. lab m = Run c))"

definition responsive :: "'os listen_ops \<Rightarrow> (nat \<Rightarrow> 'os daemon) \<Rightarrow> bool" where
  "responsive lops \<sigma> \<longleftrightarrow>
     (\<forall>c n. c \<in> set (dm_tasks (\<sigma> n)) \<longrightarrow>
        (\<exists>m \<ge> n. \<forall>k \<ge> m. c \<in> set (dm_tasks (\<sigma> k)) \<longrightarrow> l_ready lops c (dm_os (\<sigma> k))))"

section \<open>What the kernel promises\<close>

text \<open>An operation on one descriptor leaves what is observed of another one.\<close>

definition op_keeps :: "'os tcp_ops \<Rightarrow> int \<Rightarrow> ('os \<Rightarrow> 'a) \<Rightarrow> bool" where
  "op_keeps ops fd obs \<longleftrightarrow>
     (\<forall>level opt bs os. obs (snd (t_setsockopt ops fd level opt bs os)) = obs os) \<and>
     (\<forall>os. obs (t_shutdown ops fd os) = obs os) \<and> (\<forall>os. obs (t_close ops fd os) = obs os) \<and>
     (\<forall>bs os. obs (snd (s_write_all ops fd bs os)) = obs os) \<and> (\<forall>os. obs (snd (s_flush ops fd os)) = obs os) \<and>
     (\<forall>n os. obs (snd (s_read_exact ops fd n os)) = obs os) \<and> (\<forall>os. obs (snd (s_into_std ops fd os)) = obs os)"

text \<open>\<open>sock os fd\<close> is the state of descriptor \<open>fd\<close>, \<open>Closed\<close> also standing for one that is not in use. \<open>mine\<close>
  are the descriptors the daemon obtains by accepting or receiving. Accepting and receiving install
  free descriptors. Control data that is reported as truncated carries no descriptor.\<close>

definition socket_table :: "'os tcp_ops \<Rightarrow> ('os \<Rightarrow> int \<Rightarrow> sockstate) \<Rightarrow> bool" where
  "socket_table ops sock \<longleftrightarrow>
     (\<forall>fd. ktls_kernel ops fd (\<lambda>os. sock os fd) \<and> (\<forall>fd'. fd' \<noteq> fd \<longrightarrow> op_keeps ops fd (\<lambda>os. sock os fd')))"

definition passes_fds :: "'os unix_ops \<Rightarrow> ('os \<Rightarrow> int \<Rightarrow> sockstate) \<Rightarrow> bool" where
  "passes_fds ops sock \<longleftrightarrow>
     (\<forall>fd os. sock (u_close ops fd os) = (sock os)(fd := Closed)) \<and>
     (\<forall>uds n m os e os'. u_recvmsg ops uds n m os = (Inl e, os') \<longrightarrow> sock os' = sock os) \<and>
     (\<forall>uds n m os msg os'. u_recvmsg ops uds n m os = (Inr msg, os') \<longrightarrow>
        (\<forall>fd \<in> carried msg. sock os fd = Closed) \<and>
        sock os' = (\<lambda>fd. if fd \<in> carried msg then Plain else sock os fd) \<and>
        (rm_ctrunc msg \<longrightarrow> carried msg = {}) \<and> length (filter is_rights (rm_cmsgs msg)) \<le> 1 \<and>
        (\<forall>c \<in> set (rm_cmsgs msg). is_rights c \<longrightarrow> cmsg_len c = CMSG_LEN (4 * length (cmsg_data c))))"

definition daemon_kernel :: "'os listen_ops \<Rightarrow> ('os \<Rightarrow> int \<Rightarrow> sockstate) \<Rightarrow> (int \<Rightarrow> bool) \<Rightarrow> bool" where
  "daemon_kernel lops sock mine \<longleftrightarrow>
     socket_table (d_tcp (l_daemon lops)) sock \<and> passes_fds (d_unix (l_daemon lops)) sock \<and>
     (\<forall>c os. sock (snd (d_into_std (l_daemon lops) c os)) = sock os) \<and>
     (\<forall>c b os. sock (snd (d_set_nonblocking (l_daemon lops) c b os)) = sock os) \<and>
     (\<forall>c os. sock (snd (d_from_std (l_daemon lops) c os)) = sock os) \<and>
     (\<forall>c os. sock (snd (l_read_to_end lops c os)) = sock os) \<and>
     (\<forall>c bs os. sock (snd (l_write_all lops c bs os)) = sock os) \<and>
     (\<forall>l os r os'. l_accept lops l os = (r, os') \<longrightarrow>
        (case r of Some (Inr c) \<Rightarrow> mine c \<and> sock os c = Closed \<and> sock os' = (sock os)(c := Plain)
         | _ \<Rightarrow> sock os' = sock os))"

text \<open>Up-calls name sockets of applications, never a connection of the daemon itself.\<close>

definition foreign_fds :: "(bytes \<Rightarrow> string + KernelUpcall) \<Rightarrow> (int \<Rightarrow> bool) \<Rightarrow> bool" where
  "foreign_fds from_slice mine \<longleftrightarrow>
     (\<forall>buf up fd. from_slice buf = Inr up \<longrightarrow> ku_fd up = Some fd \<longrightarrow> \<not> mine fd)"

definition settled :: "bool \<Rightarrow> sockstate \<Rightarrow> bool" where
  "settled big s \<longleftrightarrow> s = Closed \<or> (\<exists>t. s = installed big t)"

lemma settled_simps [simp]: "settled big Closed" "settled big (installed big t)" "\<not> settled big Plain"
  by (auto simp: settled_def installed_def)

section \<open>A task and the other descriptors\<close>

lemma op_keepsD:
  assumes "op_keeps ops fd obs"
  shows "t_setsockopt ops fd level opt bs os = (x, os') \<Longrightarrow> obs os' = obs os"
    and "s_write_all ops fd bs os = (y, os') \<Longrightarrow> obs os' = obs os"
    and "s_flush ops fd os = (y, os') \<Longrightarrow> obs os' = obs os"
    and "s_read_exact ops fd n os = (z, os') \<Longrightarrow> obs os' = obs os"
    and "s_into_std ops fd os = (y, os') \<Longrightarrow> obs os' = obs os"
  using assms unfolding op_keeps_def by (metis snd_conv)+

lemma op_keeps_close [simp]:
  "op_keeps ops fd obs \<Longrightarrow> obs (t_close ops fd os) = obs os"
  "op_keeps ops fd obs \<Longrightarrow> obs (t_shutdown ops fd os) = obs os"
  by (simp_all add: op_keeps_def)

lemma frames_keep:
  assumes "op_keeps ops fd obs"
  shows "write_frame ops fd p os = (r, os') \<Longrightarrow> obs os' = obs os"
    and "read_frame ops fd os = (q, os') \<Longrightarrow> obs os' = obs os"
  by (auto simp: write_frame_def read_frame_def Let_def dest!: op_keepsD [OF assms]
      split: prod.split_asm option.split_asm sum.split_asm if_split_asm)

lemma roles_keep:
  assumes "op_keeps ops fd obs"
  shows "obs (snd (initiator_handshake lib ops fd rand i suite os)) = obs os"
    and "obs (snd (responder_handshake lib ops fd rand i suite os)) = obs os"
  by (auto simp: initiator_handshake_def responder_handshake_def dest!: frames_keep [OF assms]
      split: prod.split sum.split)

lemma bridge_keeps:
  assumes "op_keeps ops fd obs" "bridge_session_to_ktls lib big ops fd keys os = (r, os')"
  shows "obs os' = obs os"
proof -
  have "obs o1 = obs os" if "install_ktls_duplex big ops fd d os = (x, o1)" for d x o1
    using that by (auto simp: install_ktls_duplex_def attach_tls_ulp_def install_ktls_tx_def install_ktls_rx_def
        install_direction_def dest!: op_keepsD [OF assms(1)] split: prod.split_asm option.split_asm)
  then show ?thesis using assms
    by (auto simp: bridge_session_to_ktls_def install_ktls_keys_def fail_closed_shutdown_def Let_def
        split: option.split_asm prod.split_asm sum.split_asm)
qed

lemma establish_keeps:
  assumes "op_keeps ops fd obs" "establish_and_bridge lib big ops fd rand i suite role os = (r, os')"
  shows "obs os' = obs os"
proof -
  have h: "obs (snd (case role of Initiator \<Rightarrow> initiator_handshake lib ops fd rand i suite os
      | Responder \<Rightarrow> responder_handshake lib ops fd rand i suite os)) = obs os"
    using roles_keep [OF assms(1)] by (cases role) simp_all
  from assms(2) show ?thesis
    by (cases rule: establish_cases)
      (use h in \<open>auto simp: op_keeps_close [OF assms(1)] dest!: op_keepsD(5) [OF assms(1)] bridge_keeps [OF assms(1)]\<close>)
qed

lemma serve_keeps:
  assumes "op_keeps ops fd obs"
  shows "obs (snd (serve_over_socket lib big ops l rand fd role os)) = obs os"
  using assms by (auto simp: serve_over_socket_def dest!: establish_keeps [OF assms]
      split: sum.split prod.split outcome.split)

lemma upcall_keeps:
  assumes "\<And>fd. ku_fd up = Some fd \<Longrightarrow> op_keeps ops fd obs" "complete_kernel_upcall lib big ops l ri rr up os = (r, os')"
  shows "obs os' = obs os"
  using assms(2) by (auto simp: complete_kernel_upcall_def dest: bridge_keeps [OF assms(1)]
      split: if_split_asm sum.split_asm option.split_asm)

lemma upcall_returns:
  assumes "hkdf_laws lib"
  shows "fst (complete_kernel_upcall lib big ops l ri rr up os) \<noteq> Panic"
proof -
  have "\<not> export_ktls lib keys = None" for keys using export_ktls_some [OF assms, of keys] by auto
  note none = this [THEN notE]
  show ?thesis
    by (auto intro: none simp: complete_kernel_upcall_def bridge_session_to_ktls_def Let_def split: sum.split option.split prod.split)
qed

lemma handle_stream_keeps:
  assumes "\<And>up fd. from_slice buf = Inr up \<Longrightarrow> ku_fd up = Some fd \<Longrightarrow> op_keeps ops fd obs" "hkdf_laws lib"
    and "handle_stream lib big ops ue from_slice to_vec buf os = (r, os')"
  shows "obs os' = obs os \<and> r \<noteq> Panic"
proof -
  have run: "obs o1 = obs os \<and> q \<noteq> Panic" if "run_upcall lib big ops ue up os = (q, o1)"
    "\<And>fd. ku_fd up = Some fd \<Longrightarrow> op_keeps ops fd obs" for up q o1
    using that(1) upcall_keeps [OF that(2), of up lib big "ue_lock ue" "ue_initiator ue" "ue_responder ue" os]
      upcall_returns [OF assms(2), of big ops "ue_lock ue" "ue_initiator ue" "ue_responder ue" up os]
    by (auto simp: run_upcall_def split: prod.split_asm outcome.split_asm sum.split_asm)
  have rec: "obs o1 = obs os \<and> q \<noteq> Panic" if "process_event_record lib big ops ue buf None os = (q, o1)" for q o1
    using that by (auto simp: process_event_record_def to_upcall_def dest!: run split: option.split_asm)
  show ?thesis using assms(1,3)
    by (auto simp: handle_stream_def dest!: rec run split: if_split_asm sum.split_asm prod.split_asm outcome.split_asm)
qed

text \<open>Receiving leaves every descriptor as it was, except one that it returns, which was free before.\<close>

lemma scan_sock:
  assumes "passes_fds ops sock" and "length (filter is_rights cs) \<le> 1"
    and "\<forall>c \<in> set cs. is_rights c \<longrightarrow> cmsg_len c = CMSG_LEN (4 * length (cmsg_data c))"
    and "scan_cmsgs ops cs os = (r, os')"
  shows "sock os' = (\<lambda>fd. if fd \<in> \<Union> (set (map (\<lambda>c. set (cmsg_data c)) (filter is_rights cs))) - set_option r then Closed else sock os fd)
    \<and> (r \<noteq> None \<longrightarrow> \<Union> (set (map (\<lambda>c. set (cmsg_data c)) (filter is_rights cs))) = set_option r)"
proof -
  let ?C = "\<Union> (set (map (\<lambda>c. set (cmsg_data c)) (filter is_rights cs)))"
  have "{fd. sock (u_close ops x o1) fd \<in> S} = {fd. sock o1 fd \<in> S} - {x}" if "Closed \<notin> S" for x o1 S
    using assms(1) that by (auto simp: passes_fds_def)
  from scan_accounts [where open_fds = "\<lambda>o1. {fd. sock o1 fd \<in> S}" for S, OF this assms(2-4)]
  have "{fd. sock os' fd \<in> S} = {fd. sock os fd \<in> S} - (?C - set_option r)" if "Closed \<notin> S" for S
    using that by blast
  then have acc: "sock os' fd = x \<longleftrightarrow> sock os fd = x \<and> fd \<notin> ?C - set_option r" if "x \<noteq> Closed" for x fd
    using that by (metis (mono_tags, lifting) Diff_iff mem_Collect_eq singletonD singletonI)
  have "r \<noteq> None \<longrightarrow> ?C = set_option r"
    using scan_accounts [where open_fds = "\<lambda>_. {}", OF _ assms(2-4)] by simp
  moreover have "sock os' fd = (if fd \<in> ?C - set_option r then Closed else sock os fd)" for fd
    using acc [of "sock os' fd" fd] acc [of "sock os fd" fd] by (simp split: if_split) metis
  ultimately show ?thesis by auto
qed

lemma recv_fd_sock:
  assumes "passes_fds ops sock" and "recv_fd ops uds os = (r, os')"
  shows "(case r of Inr (_, Some fd) \<Rightarrow> sock os fd = Closed \<and> sock os' = (sock os)(fd := Plain) | _ \<Rightarrow> sock os' = sock os)"
proof -
  obtain q o1 where q: "u_recvmsg ops uds 256 (CMSG_SPACE 4) os = (q, o1)" by fastforce
  show ?thesis
  proof (cases q)
    case (Inl e)
    then show ?thesis using assms q unfolding recv_fd_def passes_fds_def by auto
  next
    case (Inr msg)
    with q assms(1) have m: "\<forall>fd \<in> carried msg. sock os fd = Closed"
      "sock o1 = (\<lambda>fd. if fd \<in> carried msg then Plain else sock os fd)" "rm_ctrunc msg \<longrightarrow> carried msg = {}"
      and w: "length (filter is_rights (rm_cmsgs msg)) \<le> 1"
      "\<forall>c \<in> set (rm_cmsgs msg). is_rights c \<longrightarrow> cmsg_len c = CMSG_LEN (4 * length (cmsg_data c))"
      unfolding passes_fds_def by blast+
    obtain x o2 where x: "scan_cmsgs ops (rm_cmsgs msg) o1 = (x, o2)" by fastforce
    from scan_sock [OF assms(1) w x] have s: "sock o2 = (\<lambda>fd. if fd \<in> carried msg - set_option x then Closed else sock o1 fd)"
      "x \<noteq> None \<longrightarrow> carried msg = set_option x" by (simp_all add: carried_def)
    have "r = Inr (rm_data msg, None) \<and> os' = o1 \<and> carried msg = {} \<or> r = Inr (rm_data msg, x) \<and> os' = o2"
      using assms(2) q Inr x m(3) by (auto simp: recv_fd_def split: if_split_asm)
    then show ?thesis using m(1,2) s by (cases x) (auto simp: fun_eq_iff)
  qed
qed

section \<open>The contract of a task\<close>

text \<open>The daemon's own descriptors are accounted for: every one that is open in the clear belongs to a
  waiting task or was open when the daemon started (\<open>base\<close>).\<close>

definition accounted :: "bool \<Rightarrow> (int \<Rightarrow> bool) \<Rightarrow> int set \<Rightarrow> int list \<Rightarrow> (int \<Rightarrow> sockstate) \<Rightarrow> bool" where
  "accounted big mine base tasks s \<longleftrightarrow>
     distinct tasks \<and> (\<forall>c \<in> set tasks. mine c \<and> s c = Plain) \<and>
     (\<forall>fd. mine fd \<longrightarrow> \<not> settled big (s fd) \<longrightarrow> fd \<in> set tasks \<union> base)"

text \<open>What a task does to its connection \<open>c\<close> and to the daemon's other descriptors.\<close>

definition settles_own :: "bool \<Rightarrow> ('os \<Rightarrow> int \<Rightarrow> sockstate) \<Rightarrow> (int \<Rightarrow> bool) \<Rightarrow> int \<Rightarrow> 'os \<Rightarrow> unit outcome \<times> 'os \<Rightarrow> bool" where
  "settles_own big sock mine c os res \<longleftrightarrow>
     (\<exists>os'. res = (Ret (), os') \<and> settled big (sock os' c) \<and>
        (\<forall>fd. fd \<noteq> c \<longrightarrow> mine fd \<longrightarrow> sock os' fd = sock os fd \<or> sock os fd = Closed \<and> settled big (sock os' fd)))"

locale connection_task =
  fixes task :: "'p \<Rightarrow> upcall_env \<Rightarrow> int \<Rightarrow> 'os \<Rightarrow> unit outcome \<times> 'os"
    and laws :: "'p \<Rightarrow> ('os \<Rightarrow> int \<Rightarrow> sockstate) \<Rightarrow> (int \<Rightarrow> bool) \<Rightarrow> bool"
    and endian :: "'p \<Rightarrow> bool"
  assumes settles: "laws p sock mine \<Longrightarrow> mine c \<Longrightarrow> sock os c = Plain \<Longrightarrow>
      settles_own (endian p) sock mine c os (task p ue c os)"
begin

lemma task_accounted:
  assumes "laws p sock mine" "accounted (endian p) mine base tasks (sock os)" "c \<in> set tasks"
  shows "\<exists>os'. task p ue c os = (Ret (), os') \<and> settled (endian p) (sock os' c) \<and>
    accounted (endian p) mine base (remove1 c tasks) (sock os')"
proof -
  have c: "mine c" "sock os c = Plain" and d: "distinct tasks" using assms(2,3) by (auto simp: accounted_def)
  from settles [OF assms(1) c, of ue] obtain os' where os': "task p ue c os = (Ret (), os')" "settled (endian p) (sock os' c)"
    and other: "\<And>fd. fd \<noteq> c \<Longrightarrow> mine fd \<Longrightarrow> sock os' fd = sock os fd \<or> sock os fd = Closed \<and> settled (endian p) (sock os' fd)"
    unfolding settles_own_def by blast
  have "sock os' x = Plain" if "x \<in> set (remove1 c tasks)" for x
    using other [of x] that assms(2) d by (auto simp: accounted_def)
  moreover have "fd \<in> set (remove1 c tasks) \<union> base" if "mine fd" "\<not> settled (endian p) (sock os' fd)" for fd
    using other [of fd] that os'(2) assms(2) d by (cases "fd = c") (auto simp: accounted_def)
  ultimately show ?thesis using os' assms(2) d by (auto simp: accounted_def)
qed

text \<open>Run one after the other, in whatever order, the waiting tasks settle everything that was accepted.\<close>

lemma drain:
  assumes "laws p sock mine" "accounted (endian p) mine base tasks (sock os)"
  shows "accounted (endian p) mine base [] (sock (fold (\<lambda>c os. snd (task p (ue c) c os)) tasks os))"
  using assms(2)
proof (induction tasks arbitrary: os)
  case (Cons c tasks)
  from task_accounted [OF assms(1) Cons.prems, of c "ue c"] obtain os' where
    "task p (ue c) c os = (Ret (), os')" "accounted (endian p) mine base tasks (sock os')" by auto
  with Cons.IH show ?case by simp
qed simp

end

section \<open>The three kinds of task keep the contract\<close>

lemma serve_settles:
  assumes "socket_table ops sock" "hkdf_laws lib" "sock os c = Plain"
  shows "\<exists>os'. serve_over_socket lib big ops l rand c role os = (Ret (), os') \<and> settled big (sock os' c) \<and>
    (\<forall>fd. fd \<noteq> c \<longrightarrow> sock os' fd = sock os fd)"
proof -
  have t: "ktls_kernel ops c (\<lambda>os. sock os c)" using assms(1) by (simp add: socket_table_def)
  obtain os' where s: "serve_over_socket lib big ops l rand c role os = (Ret (), os')" "settled big (sock os' c)"
    using serve_decides [OF t assms(2), of os big l rand role] assms(3) by (auto simp: settled_def)
  have "sock os' fd = sock os fd" if "fd \<noteq> c" for fd
    using serve_keeps [of ops c "\<lambda>os. sock os fd" lib big l rand role os] s(1) that assms(1) by (simp add: socket_table_def)
  with s show ?thesis by blast
qed

lemma accepted_settles:
  assumes "daemon_kernel lops sock mine" "hkdf_laws lib" "sock os c = Plain"
  shows "settles_own big sock mine c os (serve_accepted lib big lops ue c os)"
proof -
  have "socket_table (d_tcp (l_daemon lops)) sock" using assms(1) by (simp add: daemon_kernel_def)
  from serve_settles [where sock = sock, OF this assms(2,3)] show ?thesis
    unfolding settles_own_def serve_accepted_def by blast
qed

lemma passed_settles:
  assumes k: "daemon_kernel lops sock mine" and h: "hkdf_laws lib" and c: "sock os c = Plain"
  shows "settles_own big sock mine c os (serve_passed lib big lops ue c os)"
proof -
  let ?D = "l_daemon lops"
  have keep: "sock o2 = sock o1" if "(r, o2) \<in> {d_into_std ?D x o1, d_set_nonblocking ?D x True o1, d_set_nonblocking ?D x False o1, d_from_std ?D x o1}"
    for x r o1 o2 using k that unfolding daemon_kernel_def by (auto dest!: arg_cong [of "(r, o2)" _ snd])
  have close: "sock (u_close (d_unix ?D) x o1) = (sock o1)(x := Closed)" for x o1
    using k by (simp add: daemon_kernel_def passes_fds_def)
  have tab: "socket_table (d_tcp ?D) sock" "passes_fds (d_unix ?D) sock" using k by (simp_all add: daemon_kernel_def)
  obtain a o1 where a: "d_into_std ?D c os = (a, o1)" by fastforce
  obtain b o2 where b: "d_set_nonblocking ?D c False o1 = (b, o2)" by fastforce
  obtain r o3 where r: "recv_fd (d_unix ?D) c o2 = (r, o3)" by fastforce
  let ?o4 = "u_close (d_unix ?D) c o3"
  have s2: "sock o1 = sock os" "sock o2 = sock os" using keep [of a o1 c os] keep [of b o2 c o1] a b by simp_all
  note defs = settles_own_def serve_passed_def handle_passed_fd_def Let_def
  show ?thesis
  proof (cases "a = None \<and> b = None \<and> (\<exists>data fd. r = Inr (data, Some fd))")
    case False
    then have "sock o3 = sock os" if "a = None" "b = None"
      using recv_fd_sock [OF tab(2) r] s2 that by (auto split: sum.split_asm prod.split_asm option.split_asm)
    then show ?thesis using False a b r s2 close
      by (auto simp: defs split: option.split sum.split prod.split)
  next
    case True
    then obtain data fd where t: "r = Inr (data, Some fd)" "a = None" "b = None" by blast
    have f: "sock os fd = Closed" "sock o3 = (sock os)(fd := Plain)" using recv_fd_sock [OF tab(2) r] t s2 by simp_all
    then have ne: "fd \<noteq> c" using c by auto
    obtain n o5 where n: "d_set_nonblocking ?D fd True ?o4 = (n, o5)" by fastforce
    obtain g o6 where g: "d_from_std ?D fd o5 = (g, o6)" by fastforce
    have s6: "sock o5 = (sock os)(fd := Plain, c := Closed)" "sock o6 = (sock os)(fd := Plain, c := Closed)"
      using keep [of n o5 fd ?o4] keep [of g o6 fd o5] n g f close by simp_all
    have "sock o6 fd = Plain" using s6 ne by simp
    from serve_settles [where sock = sock, OF tab(1) h this, of big "ue_lock ue" "ue_responder ue" Responder] obtain o7 where
      o7: "serve_over_socket lib big (d_tcp ?D) (ue_lock ue) (ue_responder ue) fd Responder o6 = (Ret (), o7)"
        "settled big (sock o7 fd)" "\<forall>x. x \<noteq> fd \<longrightarrow> sock o7 x = sock o6 x" by blast
    let ?res = "serve_passed lib big lops ue c os"
    have run: "?res = (Ret (), if n \<noteq> None then u_close (d_unix ?D) fd o5 else if g \<noteq> None then u_close (d_unix ?D) fd o6 else o7)"
      using a b r t n g o7(1) by (auto simp: defs split: option.split)
    have "sock o7 = (sock os)(c := Closed, fd := sock o7 fd)" using o7(3) s6(2) by auto
    moreover have "(sock os)(fd := Plain, c := Closed, fd := Closed) = (sock os)(c := Closed, fd := Closed)" using ne by auto
    ultimately have v: "settled big (if n = None \<and> g = None then sock o7 fd else Closed)"
      "sock (snd ?res) = (sock os)(c := Closed, fd := if n = None \<and> g = None then sock o7 fd else Closed)"
      using o7(2) by (cases n; cases g; simp add: run close s6)+
    have "?res = (Ret (), snd ?res)" by (simp add: run)
    then show ?thesis unfolding settles_own_def using v f(1) ne by (intro exI [of _ "snd ?res"]) auto
  qed
qed

lemma request_settles:
  assumes k: "daemon_kernel lops sock mine" and h: "hkdf_laws lib" and f: "foreign_fds from_slice mine"
  shows "settles_own big sock mine c os (serve_request lib big lops from_slice to_vec ue c os)"
proof -
  have close: "sock (u_close (d_unix (l_daemon lops)) x o1) = (sock o1)(x := Closed)" for x o1
    using k by (simp add: daemon_kernel_def passes_fds_def)
  have rd: "sock o1 = sock os" if "l_read_to_end lops c os = (r, o1)" for r o1
    using k that unfolding daemon_kernel_def by (metis snd_conv)
  have wr: "sock o2 = sock o1" if "l_write_all lops c bs o1 = (r, o2)" for bs r o1 o2
    using k that unfolding daemon_kernel_def by (metis snd_conv)
  have tab: "fd \<noteq> fd' \<Longrightarrow> op_keeps (d_tcp (l_daemon lops)) fd (\<lambda>os. sock os fd')" for fd fd'
    using k by (auto simp: daemon_kernel_def socket_table_def)
  have hs: "(\<forall>fd. mine fd \<longrightarrow> sock o2 fd = sock o1 fd) \<and> r \<noteq> Panic"
    if e: "handle_stream lib big (d_tcp (l_daemon lops)) ue from_slice to_vec buf o1 = (r, o2)" for buf r o1 o2
  proof -
    have own: "sock o2 fd = sock o1 fd \<and> r \<noteq> Panic" if m: "mine fd" for fd
      by (rule handle_stream_keeps [where obs = "\<lambda>os. sock os fd", OF _ h e])
        (use f m in \<open>auto simp: foreign_fds_def intro!: tab\<close>)
    show ?thesis using own handle_stream_keeps [where obs = "\<lambda>_. ()", OF _ h e] by (simp add: op_keeps_def)
  qed
  obtain r o1 where r: "l_read_to_end lops c os = (r, o1)" by fastforce
  obtain q o2 where q: "handle_stream lib big (d_tcp (l_daemon lops)) ue from_slice to_vec (projr r) o1 = (q, o2)" by fastforce
  show ?thesis using rd [OF r] hs [OF q] q
    by (auto simp: settles_own_def serve_request_def Let_def r close wr split: sum.split outcome.split prod.split)
qed

text \<open>The parameters of the daemon, and what is assumed of them.\<close>

type_synonym 'os daemon_params =
  "crypto_lib \<times> bool \<times> 'os listen_ops \<times> (bytes \<Rightarrow> string + KernelUpcall) \<times> (UpcallResponse \<Rightarrow> string + bytes)"

definition daemon_laws :: "'os daemon_params \<Rightarrow> ('os \<Rightarrow> int \<Rightarrow> sockstate) \<Rightarrow> (int \<Rightarrow> bool) \<Rightarrow> bool" where
  "daemon_laws = (\<lambda>(lib, big, lops, from_slice, to_vec) sock mine.
     daemon_kernel lops sock mine \<and> hkdf_laws lib \<and> foreign_fds from_slice mine)"

definition endianness :: "'os daemon_params \<Rightarrow> bool" where
  "endianness = (\<lambda>(lib, big, lops, from_slice, to_vec). big)"

interpretation accepted: connection_task "\<lambda>(lib, big, lops, from_slice, to_vec). serve_accepted lib big lops" daemon_laws endianness
  by unfold_locales (auto simp: daemon_laws_def endianness_def intro: accepted_settles)

interpretation passed: connection_task "\<lambda>(lib, big, lops, from_slice, to_vec). serve_passed lib big lops" daemon_laws endianness
  by unfold_locales (auto simp: daemon_laws_def endianness_def intro: passed_settles)

interpretation request: connection_task "\<lambda>(lib, big, lops, from_slice, to_vec). serve_request lib big lops from_slice to_vec" daemon_laws endianness
  by unfold_locales (auto simp: daemon_laws_def endianness_def intro: request_settles)

lemma task_accounts:
  assumes "daemon_kernel lops sock mine" "hkdf_laws lib" "foreign_fds from_slice mine"
    and "accounted big mine base tasks (sock os)" "c \<in> set tasks"
  shows "\<exists>os'. daemon_task lib big lops from_slice to_vec mode ue c os = (Ret (), os') \<and> settled big (sock os' c) \<and>
    accounted big mine base (remove1 c tasks) (sock os')"
proof -
  let ?p = "(lib, big, lops, from_slice, to_vec)"
  have laws: "daemon_laws ?p sock mine" using assms(1-3) by (simp add: daemon_laws_def)
  have acc: "accounted (endianness ?p) mine base tasks (sock os)" using assms(4) by (simp add: endianness_def)
  show ?thesis
    using passed.task_accounted [OF laws acc assms(5)] accepted.task_accounted [OF laws acc assms(5)]
      request.task_accounted [OF laws acc assms(5)]
    by (cases mode) (simp_all add: daemon_task_def endianness_def)
qed

section \<open>Runs of the daemon\<close>

lemma close_all_sock:
  assumes "passes_fds ops sock"
  shows "sock (fold (u_close ops) cs os) = (\<lambda>fd. if fd \<in> set cs then Closed else sock os fd)"
proof (induction cs arbitrary: os)
  case (Cons c cs)
  have "sock (u_close ops c os) = (sock os)(c := Closed)" using assms by (simp add: passes_fds_def)
  with Cons show ?case by auto
qed simp

lemma shut_down_settles:
  assumes "daemon_kernel lops sock mine" "accounted big mine base (dm_tasks d) (sock (dm_os d))"
  shows "accounted big mine base [] (sock (dm_os (shut_down lops e d)))"
    and "c \<in> set (dm_tasks d) \<Longrightarrow> settled big (sock (dm_os (shut_down lops e d)) c)"
proof -
  have p: "passes_fds (d_unix (l_daemon lops)) sock" using assms(1) by (simp add: daemon_kernel_def)
  then have "sock (dm_os (shut_down lops e d)) = (\<lambda>fd. if fd = dm_listener d \<or> fd \<in> set (dm_tasks d) then Closed else sock (dm_os d) fd)"
    by (auto simp: shut_down_def Let_def close_all_sock [OF p] passes_fds_def)
  then show "accounted big mine base [] (sock (dm_os (shut_down lops e d)))"
    "c \<in> set (dm_tasks d) \<Longrightarrow> settled big (sock (dm_os (shut_down lops e d)) c)"
    using assms(2) by (auto simp: accounted_def)
qed

lemma accept_accounted:
  assumes "daemon_kernel lops sock mine" "accounted big mine base (dm_tasks d) (sock (dm_os d))"
  shows "accounted big mine base (dm_tasks (accept_turn lops d)) (sock (dm_os (accept_turn lops d))) \<and>
    (\<forall>c \<in> set (dm_tasks d) - set (dm_tasks (accept_turn lops d)). settled big (sock (dm_os (accept_turn lops d)) c))"
proof -
  obtain r os1 where a: "l_accept lops (dm_listener d) (dm_os d) = (r, os1)" by fastforce
  with assms(1) have l: "case r of Some (Inr c) \<Rightarrow> mine c \<and> sock (dm_os d) c = Closed \<and> sock os1 = (sock (dm_os d))(c := Plain)
      | _ \<Rightarrow> sock os1 = sock (dm_os d)" unfolding daemon_kernel_def by blast
  consider (wait) "r = None" | (stop) e where "r = Some (Inl e)" | (stream) c where "r = Some (Inr c)"
    by (metis option.exhaust sum.exhaust)
  then show ?thesis
  proof cases
    case wait
    then show ?thesis using a l assms(2) by (simp add: accept_turn_def)
  next
    case stop
    let ?d = "d\<lparr>dm_os := os1\<rparr>"
    have acc: "accounted big mine base (dm_tasks ?d) (sock (dm_os ?d))" using stop l assms(2) by simp
    have "accept_turn lops d = shut_down lops e ?d" using stop a by (simp add: accept_turn_def)
    moreover have "dm_tasks (shut_down lops e ?d) = []" by (simp add: shut_down_def Let_def)
    ultimately show ?thesis
      using shut_down_settles(1) [OF assms(1) acc, of e] shut_down_settles(2) [OF assms(1) acc, where e = e] by simp
  next
    case stream
    then have "c \<notin> set (dm_tasks d)" using l assms(2) by (auto simp: accounted_def)
    then show ?thesis using stream a l assms(2) by (auto simp: accept_turn_def accounted_def)
  qed
qed

lemma step_accounted:
  assumes "daemon_kernel lops sock mine" "hkdf_laws lib" "foreign_fds from_slice mine"
    and "daemon_step lib big lops from_slice to_vec sock t d d'"
    and "accounted big mine base (dm_tasks d) (sock (dm_os d))"
  shows "accounted big mine base (dm_tasks d') (sock (dm_os d'))"
    and "c \<in> set (dm_tasks d) \<Longrightarrow> c \<notin> set (dm_tasks d') \<Longrightarrow> settled big (sock (dm_os d') c)"
    and "t = Run c \<Longrightarrow> c \<notin> set (dm_tasks d')"
proof -
  have "accounted big mine base (dm_tasks d') (sock (dm_os d')) \<and>
    (\<forall>c \<in> set (dm_tasks d) - set (dm_tasks d'). settled big (sock (dm_os d') c)) \<and> (\<forall>c. t = Run c \<longrightarrow> c \<notin> set (dm_tasks d'))"
    using assms(4)
  proof cases
    case accepting
    then show ?thesis using accept_accounted [OF assms(1,5)] by simp
  next
    case (running x ue)
    from task_accounts [OF assms(1-3,5) running(4), of to_vec "dm_mode d" ue] obtain os' where
      t: "daemon_task lib big lops from_slice to_vec (dm_mode d) ue x (dm_os d) = (Ret (), os')"
        "settled big (sock os' x)" "accounted big mine base (remove1 x (dm_tasks d)) (sock os')" by blast
    moreover have "distinct (dm_tasks d)" using assms(5) by (simp add: accounted_def)
    ultimately show ?thesis using running by (auto simp: task_turn_def)
  next
    case outside
    then show ?thesis using assms(5) by simp
  qed
  then show "accounted big mine base (dm_tasks d') (sock (dm_os d'))"
    "c \<in> set (dm_tasks d) \<Longrightarrow> c \<notin> set (dm_tasks d') \<Longrightarrow> settled big (sock (dm_os d') c)"
    "t = Run c \<Longrightarrow> c \<notin> set (dm_tasks d')" by blast+
qed

lemma start_accounted:
  assumes "daemon_start lops src os = Inr d"
  shows "accounted big mine {fd. \<not> settled big (sock (dm_os d) fd)} (dm_tasks d) (sock (dm_os d))"
  using assms by (auto simp: daemon_start_def accounted_def split: prod.split_asm sum.split_asm)

lemma reaches_accounted:
  assumes "daemon_reaches lib big lops from_slice to_vec sock d0 d"
    and "daemon_kernel lops sock mine" "hkdf_laws lib" "foreign_fds from_slice mine" "daemon_start lops src os = Inr d0"
  shows "accounted big mine {fd. \<not> settled big (sock (dm_os d0) fd)} (dm_tasks d) (sock (dm_os d))"
  using assms(1)
proof induction
  case (turn d' t d'')
  show ?case by (rule step_accounted(1) [OF assms(2-4) turn.hyps(2) turn.IH])
qed (rule start_accounted [OF assms(5)])

lemma exit_empties:
  assumes "daemon_reaches lib big lops from_slice to_vec sock d0 d" "daemon_start lops src os = Inr d0"
  shows "dm_exit d \<noteq> None \<longrightarrow> dm_tasks d = []"
  using assms(1)
proof induction
  case start
  show ?case using assms(2) by (auto simp: daemon_start_def split: prod.split_asm sum.split_asm)
next
  case (turn d' t d'')
  from turn.hyps(2) turn.IH show ?case
    by cases (auto simp: accept_turn_def shut_down_def task_turn_def Let_def split: prod.split option.split sum.split)
qed

lemma run_reaches:
  assumes "daemon_run lib big lops from_slice to_vec sock \<sigma> lab"
  shows "daemon_reaches lib big lops from_slice to_vec sock (\<sigma> 0) (\<sigma> n)"
  by (induction n) (use assms in \<open>auto simp: daemon_run_def intro: daemon_reaches.intros\<close>)



section \<open>Instances\<close>

text \<open>A kernel without a TLS layer, whose peers hang up.\<close>

record toy_net =
  tn_sock :: "int \<Rightarrow> sockstate"
  tn_queue :: "int list"

definition tn_close :: "int \<Rightarrow> toy_net \<Rightarrow> toy_net" where
  "tn_close fd os = os\<lparr>tn_sock := (tn_sock os)(fd := Closed)\<rparr>"

definition toy_listen :: "toy_net listen_ops" where
  "toy_listen =
     \<lparr>l_daemon = \<lparr>d_unix = \<lparr>u_sendmsg = (\<lambda>_ bs _ os. (Inr (length bs), os)), u_recvmsg = (\<lambda>_ _ _ os. (Inl 11, os)), u_close = tn_close\<rparr>,
        d_tcp = \<lparr>t_setsockopt = (\<lambda>_ _ _ _ os. (Some ENOENT, os)), t_shutdown = (\<lambda>_ os. os), t_close = tn_close,
          t_socket = (\<lambda>os. (SysErr 1, os)), s_write_all = (\<lambda>_ _ os. (None, os)), s_flush = (\<lambda>_ os. (None, os)),
          s_read_exact = (\<lambda>_ _ os. (Inl 104, os)), s_into_std = (\<lambda>_ os. (None, os))\<rparr>,
        d_into_std = (\<lambda>_ os. (None, os)), d_set_nonblocking = (\<lambda>_ _ os. (None, os)), d_from_std = (\<lambda>_ os. (None, os))\<rparr>,
      l_remove_file = (\<lambda>_ os. os), l_bind_tcp = (\<lambda>_ os. (Inr 3, os\<lparr>tn_sock := (tn_sock os)(3 := Plain)\<rparr>)),
      l_bind_unix = (\<lambda>_ os. (Inr 3, os\<lparr>tn_sock := (tn_sock os)(3 := Plain)\<rparr>)),
      l_accept = (\<lambda>_ os. case tn_queue os of
          [] \<Rightarrow> (None, os)
        | c # cs \<Rightarrow> if tn_sock os c = Closed then (Some (Inr c), os\<lparr>tn_sock := (tn_sock os)(c := Plain), tn_queue := cs\<rparr>)
            else (None, os)),
      l_read_to_end = (\<lambda>_ os. (Inr [], os)), l_write_all = (\<lambda>_ _ os. (None, os)), l_ready = (\<lambda>_ _. True)\<rparr>"

lemma toy_daemon_kernel: "daemon_kernel toy_listen tn_sock (\<lambda>_. True)"
  unfolding daemon_kernel_def socket_table_def passes_fds_def ktls_kernel_def op_keeps_def toy_listen_def
  by (auto simp: tn_close_def split: list.split_asm if_split_asm)

definition toy_listening :: "toy_net daemon" where
  "toy_listening = \<lparr>dm_os = \<lparr>tn_sock = (\<lambda>_. Closed)(3 := Plain), tn_queue = [5]\<rparr>, dm_mode = OverSocketListen (lit ''127.0.0.1:7443''),
     dm_listener = 3, dm_tasks = [], dm_exit = None\<rparr>"

definition toy_listen_sources :: sources where
  "toy_listen_sources = \<lparr>env_var = (\<lambda>k. if k = ''SYNTRIASS_OVERSOCKET_LISTEN'' then Some (lit ''127.0.0.1:7443'') else None),
     policy_toml = None, identity_toml = None\<rparr>"

lemma toy_starts: "daemon_start toy_listen toy_listen_sources \<lparr>tn_sock = (\<lambda>_. Closed), tn_queue = [5]\<rparr> = Inr toy_listening"
  by (simp add: daemon_start_def daemon_main_def listen_def toy_listen_def toy_listen_sources_def toy_listening_def)

lemma toy_accepts: "dm_tasks (accept_turn toy_listen toy_listening) = [5]" "dm_exit toy_listening = None"
    "dm_exit (accept_turn toy_listen toy_listening) = None"
  by (simp_all add: accept_turn_def toy_listen_def toy_listening_def)

lemma toy_foreign: "foreign_fds (\<lambda>_. Inl ''bad'') (\<lambda>_. True)"
  by (simp add: foreign_fds_def)



end
