(* ===== verification/Http_Servers.thy ===== *)
theory Http_Servers
  imports Rust_Net Webhook Daemon_Server
begin

text \<open>
  Start-up and surface of the two HTTP servers: \<open>main\<close> and the metrics route of the admission webhook, and
  the metrics server of \<open>telemetry.rs\<close> with its one-time registration. Sockets, the serving loop, the
  metrics registry and the text encoder are library code and parameters; a router is the list of its routes.
\<close>

section \<open>Routes and servers\<close>

datatype http_method = Get | Post

datatype handler = Mutate | WebhookMetrics | KernelMetrics

record route =
  rt_path :: string
  rt_method :: http_method
  rt_handler :: handler

text \<open>\<open>h_serve\<close> runs servers side by side and returns with the first error.\<close>

record 'os http_ops =
  h_bind :: "SocketAddr \<Rightarrow> 'os \<Rightarrow> (int + int) \<times> 'os"
  h_close :: "int \<Rightarrow> 'os \<Rightarrow> 'os"
  h_serve :: "(int \<times> route list) list \<Rightarrow> 'os \<Rightarrow> (int + unit) \<times> 'os"

datatype start_error = BadAddress | IoError int

definition webhook_app :: "route list" where
  "webhook_app = [\<lparr>rt_path = ''/mutate'', rt_method = Post, rt_handler = Mutate\<rparr>]"

definition metrics_app :: "route list" where
  "metrics_app = [\<lparr>rt_path = ''/metrics'', rt_method = Get, rt_handler = WebhookMetrics\<rparr>]"

definition bind_address :: "sources \<Rightarrow> string \<Rightarrow> string \<Rightarrow> SocketAddr option" where
  "bind_address src key default_addr =
     parse_socket_addr (case env_var src key of Some v \<Rightarrow> v | None \<Rightarrow> lit default_addr)"

text \<open>The listeners are dropped on every return.\<close>

definition webhook_main :: "'os http_ops \<Rightarrow> sources \<Rightarrow> 'os \<Rightarrow> (start_error + unit) \<times> 'os" where
  "webhook_main ops src os =
     (case bind_address src ''SYNTRIASS_WEBHOOK_BIND'' ''0.0.0.0:8443'' of
        None \<Rightarrow> (Inl BadAddress, os)
      | Some bind_addr \<Rightarrow>
          (case bind_address src ''SYNTRIASS_METRICS_BIND'' ''0.0.0.0:9090'' of
             None \<Rightarrow> (Inl BadAddress, os)
           | Some metrics_addr \<Rightarrow>
               (case h_bind ops bind_addr os of
                  (Inl e, os1) \<Rightarrow> (Inl (IoError e), os1)
                | (Inr webhook_listener, os1) \<Rightarrow>
                    (case h_bind ops metrics_addr os1 of
                       (Inl e, os2) \<Rightarrow> (Inl (IoError e), h_close ops webhook_listener os2)
                     | (Inr metrics_listener, os2) \<Rightarrow>
                         (case h_serve ops [(webhook_listener, webhook_app), (metrics_listener, metrics_app)] os2 of
                            (Inl e, os3) \<Rightarrow>
                              (Inl (IoError e), h_close ops webhook_listener (h_close ops metrics_listener os3))
                          | (Inr _, os3) \<Rightarrow>
                              (Inr (), h_close ops webhook_listener (h_close ops metrics_listener os3)))))))"

definition kernel_metrics_app :: "route list" where
  "kernel_metrics_app = [\<lparr>rt_path = ''/metrics'', rt_method = Get, rt_handler = KernelMetrics\<rparr>]"

definition start_metrics_server :: "'os http_ops \<Rightarrow> SocketAddr \<Rightarrow> 'os \<Rightarrow> (start_error + unit) \<times> 'os" where
  "start_metrics_server ops bind_addr os =
     (case h_bind ops bind_addr os of
        (Inl e, os1) \<Rightarrow> (Inl (IoError e), os1)
      | (Inr listener, os1) \<Rightarrow>
          (case h_serve ops [(listener, kernel_metrics_app)] os1 of
             (Inl e, os2) \<Rightarrow> (Inl (IoError e), h_close ops listener os2)
           | (Inr _, os2) \<Rightarrow> (Inr (), h_close ops listener os2)))"

section \<open>Metrics\<close>

text \<open>The process metrics as text; \<open>encode\<close> gathers and encodes them.\<close>

definition render_prometheus_metrics :: "(RuntimeMetrics \<Rightarrow> string + string) \<Rightarrow> RuntimeMetrics \<Rightarrow> string + string" where
  "render_prometheus_metrics encode m = (case encode m of Inl e \<Rightarrow> Inl e | Inr output \<Rightarrow> Inr output)"

text \<open>Status, content type and body; \<open>text_format\<close> is the content type of the encoder.\<close>

definition webhook_metrics ::
  "string \<Rightarrow> (RuntimeMetrics \<Rightarrow> string + string) \<Rightarrow> RuntimeMetrics \<Rightarrow> nat \<times> string \<times> string" where
  "webhook_metrics text_format encode m =
     (case render_prometheus_metrics encode m of
        Inr body \<Rightarrow> (200, text_format, body)
      | Inl _ \<Rightarrow> (500, ''text/plain; charset=utf-8'', ''metrics unavailable'' @ [CHR 0x0A]))"

text \<open>Registration of the two kernel metrics: once, with a panic when the registry refuses, after which the
  static is poisoned. \<open>register\<close> is the registry's operation on the name of a metric.\<close>

definition ACTIVE_SESSIONS_NAME :: string where
  "ACTIVE_SESSIONS_NAME = ''syntriass_kernel_active_sessions''"

definition BYPASS_ATTEMPTS_NAME :: string where
  "BYPASS_ATTEMPTS_NAME = ''syntriass_kernel_bypass_attempts_total''"

datatype lazy_state = Fresh | Forced | Broken

record 'r telemetry_statics =
  ts_register :: lazy_state
  ts_registry :: 'r
  ts_values :: KernelTelemetry

definition REGISTER_force ::
  "(string \<Rightarrow> 'r \<Rightarrow> string + 'r) \<Rightarrow> 'r telemetry_statics \<Rightarrow> unit outcome \<times> 'r telemetry_statics" where
  "REGISTER_force register s =
     (case ts_register s of
        Forced \<Rightarrow> (Ret (), s)
      | Broken \<Rightarrow> (Panic, s)
      | Fresh \<Rightarrow>
          (case register ACTIVE_SESSIONS_NAME (ts_registry s) of
             Inl _ \<Rightarrow> (Panic, s\<lparr>ts_register := Broken\<rparr>)
           | Inr r1 \<Rightarrow>
               (case register BYPASS_ATTEMPTS_NAME r1 of
                  Inl _ \<Rightarrow> (Panic, s\<lparr>ts_register := Broken, ts_registry := r1\<rparr>)
                | Inr r2 \<Rightarrow> (Ret (), s\<lparr>ts_register := Forced, ts_registry := r2\<rparr>))))"

text \<open>One request to the kernel metrics route.\<close>

definition kernel_scrape ::
  "(string \<Rightarrow> 'r \<Rightarrow> string + 'r) \<Rightarrow> ('r \<Rightarrow> KernelTelemetry \<Rightarrow> string + string) \<Rightarrow> 'r telemetry_statics \<Rightarrow>
     (nat \<times> string) outcome \<times> 'r telemetry_statics" where
  "kernel_scrape register encode s =
     (case REGISTER_force register s of
        (Panic, s1) \<Rightarrow> (Panic, s1)
      | (Ret _, s1) \<Rightarrow>
          (case telemetry_metrics (encode (ts_registry s1)) (ts_values s1) of
             (r, v) \<Rightarrow> (Ret r, s1\<lparr>ts_values := v\<rparr>)))"

section \<open>Scrapes\<close>

text \<open>The registry refuses a name exactly when it has it; \<open>names\<close> reads the registered names.\<close>

definition metric_registry :: "(string \<Rightarrow> 'r \<Rightarrow> string + 'r) \<Rightarrow> ('r \<Rightarrow> string set) \<Rightarrow> bool" where
  "metric_registry register names \<longleftrightarrow>
     (\<forall>n r. case register n r of Inl _ \<Rightarrow> n \<in> names r | Inr r' \<Rightarrow> n \<notin> names r \<and> names r' = insert n (names r))"

fun scrapes :: "(string \<Rightarrow> 'r \<Rightarrow> string + 'r) \<Rightarrow> ('r \<Rightarrow> KernelTelemetry \<Rightarrow> string + string) \<Rightarrow> nat \<Rightarrow> 'r telemetry_statics \<Rightarrow>
    (nat \<times> string) outcome list \<times> 'r telemetry_statics" where
  "scrapes register encode 0 s = ([], s)"
| "scrapes register encode (Suc n) s =
     (case kernel_scrape register encode s of
        (r, s1) \<Rightarrow> (case scrapes register encode n s1 of (rs, s2) \<Rightarrow> (r # rs, s2)))"

lemma registers:
  assumes "metric_registry register names" "n \<notin> names r"
  obtains r' where "register n r = Inr r'" "names r' = insert n (names r)"
proof -
  from assms(1) have "case register n r of Inl _ \<Rightarrow> n \<in> names r | Inr r' \<Rightarrow> n \<notin> names r \<and> names r' = insert n (names r)"
    by (simp add: metric_registry_def)
  with assms(2) that show thesis by (cases "register n r") auto
qed

lemma first_force:
  assumes "metric_registry register names" "ts_register s = Fresh" "names (ts_registry s) = {}"
  obtains r2 where "REGISTER_force register s = (Ret (), s\<lparr>ts_register := Forced, ts_registry := r2\<rparr>)"
    "names r2 = {BYPASS_ATTEMPTS_NAME, ACTIVE_SESSIONS_NAME}"
proof -
  have "ACTIVE_SESSIONS_NAME \<notin> names (ts_registry s)" using assms(3) by simp
  with assms(1) obtain r1 where r1: "register ACTIVE_SESSIONS_NAME (ts_registry s) = Inr r1"
      "names r1 = insert ACTIVE_SESSIONS_NAME (names (ts_registry s))" by (rule registers)
  have "BYPASS_ATTEMPTS_NAME \<notin> names r1" using assms(3) by (simp add: r1(2) ACTIVE_SESSIONS_NAME_def BYPASS_ATTEMPTS_NAME_def)
  with assms(1) obtain r2 where r2: "register BYPASS_ATTEMPTS_NAME r1 = Inr r2" "names r2 = insert BYPASS_ATTEMPTS_NAME (names r1)"
    by (rule registers)
  show thesis by (rule that [of r2]) (use r1 r2 assms(2,3) in \<open>simp_all add: REGISTER_force_def\<close>)
qed

lemma later_scrapes:
  assumes "ts_register s = Forced" "scrapes register encode n s = (rs, s')"
  shows "Panic \<notin> set rs \<and> ts_register s' = Forced \<and> ts_registry s' = ts_registry s"
  using assms
proof (induction n arbitrary: s rs)
  case (Suc n)
  obtain r v where t: "telemetry_metrics (encode (ts_registry s)) (ts_values s) = (r, v)" by fastforce
  let ?s = "s\<lparr>ts_values := v\<rparr>"
  obtain rs' where "scrapes register encode n ?s = (rs', s')" "rs = Ret r # rs'"
    using Suc.prems t by (auto simp: kernel_scrape_def REGISTER_force_def split: prod.split_asm)
  with Suc.IH [of ?s rs'] Suc.prems(1) show ?case by simp
qed simp

lemma scrapes_never_panic:
  assumes "metric_registry register names" "ts_register s = Fresh" "names (ts_registry s) = {}"
    and "scrapes register encode n s = (rs, s')"
  shows "Panic \<notin> set rs \<and> (0 < n \<longrightarrow> names (ts_registry s') = {BYPASS_ATTEMPTS_NAME, ACTIVE_SESSIONS_NAME})"
proof (cases n)
  case (Suc k)
  obtain r2 where f: "REGISTER_force register s = (Ret (), s\<lparr>ts_register := Forced, ts_registry := r2\<rparr>)"
    "names r2 = {BYPASS_ATTEMPTS_NAME, ACTIVE_SESSIONS_NAME}"
    using assms(1-3) by (rule first_force)
  obtain r v where t: "telemetry_metrics (encode r2) (ts_values s) = (r, v)" by fastforce
  let ?s = "s\<lparr>ts_register := Forced, ts_registry := r2, ts_values := v\<rparr>"
  obtain rs' where rs: "scrapes register encode k ?s = (rs', s')" "rs = Ret r # rs'"
    using assms(4) Suc f t by (auto simp: kernel_scrape_def split: prod.split_asm)
  from later_scrapes [OF _ rs(1)] rs(2) f(2) show ?thesis by simp
qed (use assms(4) in simp)

section \<open>Start-up\<close>

text \<open>\<open>listening\<close> reads the open listeners of the operating system with their addresses.\<close>

definition listener_table :: "'os http_ops \<Rightarrow> ('os \<Rightarrow> int \<rightharpoonup> SocketAddr) \<Rightarrow> bool" where
  "listener_table ops listening \<longleftrightarrow>
     (\<forall>a os os' e. h_bind ops a os = (Inl e, os') \<longrightarrow> listening os' = listening os) \<and>
     (\<forall>a os os' l. h_bind ops a os = (Inr l, os') \<longrightarrow> listening os l = None \<and> listening os' = (listening os)(l \<mapsto> a)) \<and>
     (\<forall>l os. listening (h_close ops l os) = (listening os)(l := None)) \<and>
     (\<forall>ss os r os'. h_serve ops ss os = (r, os') \<longrightarrow> listening os' = listening os)"

text \<open>The address a variable asks for: written out, or the default on all interfaces.\<close>

definition asks :: "sources \<Rightarrow> string \<Rightarrow> nat \<Rightarrow> SocketAddr \<Rightarrow> bool" where
  "asks src key default_port addr \<longleftrightarrow>
     (case env_var src key of
        None \<Rightarrow> addr = V4 0 0 0 0 default_port
      | Some v \<Rightarrow> (\<exists>a b c d p. a < 256 \<and> b < 256 \<and> c < 256 \<and> d < 256 \<and> p < 65536 \<and>
          v = display_v4 a b c d p \<and> addr = V4 a b c d p))"

lemma asked_address:
  assumes "asks src key p addr" "p < 65536" "lit text = lit ''0.0.0.0:'' @ dec p"
  shows "bind_address src key text = Some addr"
  using assms parse_display_v4 parse_any_port [OF assms(2)]
  by (auto simp: asks_def bind_address_def split: option.split_asm)

lemma default_texts: "lit ''0.0.0.0:8443'' = lit ''0.0.0.0:'' @ dec 8443" "lit ''0.0.0.0:9090'' = lit ''0.0.0.0:'' @ dec 9090"
  by (simp_all add: lit_def dec_rec)


definition toy_http :: "(int \<rightharpoonup> SocketAddr) http_ops" where
  "toy_http =
     \<lparr>h_bind = (\<lambda>a os. if os 3 = None then (Inr 3, os(3 \<mapsto> a)) else if os 4 = None then (Inr 4, os(4 \<mapsto> a)) else (Inl 98, os)),
      h_close = (\<lambda>l os. os(l := None)), h_serve = (\<lambda>ss os. (Inl 5, os))\<rparr>"

definition toy_binds :: sources where
  "toy_binds = \<lparr>env_var = (\<lambda>k. if k = ''SYNTRIASS_METRICS_BIND'' then Some (display_v4 10 0 0 7 9100) else None),
     policy_toml = None, identity_toml = None\<rparr>"


end
