(* ===== verification/Spec2Isabelle.thy ===== *)
theory Spec2Isabelle
  imports Config_Readers Crypto_Ops End_To_End Hook_Equivalence Session_Types Shared_Sessions Process_Statics
    Secret_Hygiene Platform_Variants Http_Servers
begin

text \<open>
  A verification development for the Syntriass overlay, a library that puts a post-quantum hybrid
  channel under the stream sockets of a process, and the daemon, kernel program and admission
  webhook around it. Paths below are relative to \<open>src/\<close>.

  \<^bold>\<open>The program.\<close> A preloaded library replaces the socket functions of the C library
  (\<open>src/interceptor.rs\<close>). Each tracked descriptor has a session (\<open>src/fd_state.rs\<close>) that performs a
  handshake (\<open>src/crypto/\<close>: hybrid, or a pre-shared-key fallback on nodes in degraded posture) with
  its peer and then carries sealed records. Policy and identity come from environment variables and
  files and are reloaded when the files change. In kernel-native mode an eBPF program
  (\<open>ebpf/src/\<close>) reports new connections to a daemon (\<open>src/bin/daemon.rs\<close>), which runs the handshake
  on the connection itself (\<open>src/over_socket.rs\<close>) and hands the keys to kernel TLS
  (\<open>src/kernel_native.rs\<close>); sockets reach it by descriptor passing (\<open>src/fd_passing.rs\<close>). A webhook
  (\<open>src/bin/webhook.rs\<close>) puts the library into pods, or marks them for the daemon.

  \<^bold>\<open>Conventions.\<close> \<open>Result\<close> is a sum with the error on the left; a method on \<open>&mut self\<close> returns
  its result with the new state; a panic is the value \<open>Panic\<close>; bytes and counters are words of their
  width. Loops that may run for ever are iterated step functions with values in \<open>option\<close>
  (\<open>Loops\<close>), \<open>None\<close> meaning that the loop does not end; no fuel is used anywhere. Cryptographic
  primitives, the C library, the operating system, the dynamic linker, the asynchronous runtime, the HTTP and metrics libraries and
  JSON handling are parameters, given as records of operations. What is assumed of them is stated by named
  predicates: correctness of decryption, key agreement and encapsulation and of signatures, lengths
  of key derivation (\<open>crypto_laws\<close> and its parts), the effect of kernel-TLS socket options
  (\<open>ktls_kernel\<close>), ordered delivery on streams (\<open>tcp_stream\<close>, \<open>reliable\<close>), the descriptor table
  (\<open>fd_table\<close>), listening sockets (\<open>listener_table\<close>), the metric registry (\<open>metric_registry\<close>), JSON
  paths (\<open>json_pointer\<close>). Each is satisfied by a concrete instance.

  \<^bold>\<open>Cryptography.\<close>
  \<^item> \<open>Overlay_Prelude\<close>, \<open>Crypto_Lib\<close>, \<open>Crypto_Instance\<close>: results, byte strings, the primitives and
    their laws, and an instance of them.
  \<^item> \<open>Record_Layer\<close> (\<open>crypto/generic.rs\<close>, \<open>crypto/mod.rs\<close>): directions, sessions, sealing, opening, key
    derivation, kernel-TLS export. Nonces never repeat; streams of records are delivered in order,
    and only what was sealed is opened. The interface \<open>record_channel\<close> is interpreted on sessions.
  \<^item> \<open>Identity\<close>, \<open>Hybrid_Handshake\<close> (also \<open>nist768.rs\<close>, \<open>nist1024.rs\<close>): pinned identities, the two hello
    messages, key agreement and authentication of both sides for both suites; interface
    \<open>handshake_engine\<close>.
  \<^item> \<open>Psk_Fallback\<close> (\<open>crypto/fallback.rs\<close>): the fallback handshake and its downgrade detection.
  \<^item> \<open>Rust_Text\<close>, \<open>Runtime_Config\<close> (\<open>crypto/mod.rs\<close>, \<open>bin/syntriass-identity.rs\<close>): string operations,
    policy and identity parsing, the provisioning tool, loading and reloading. \<open>Config_Readers\<close>: the
    two hexadecimal decoders and the two policy readers are equivalent.
  \<^item> \<open>Benchmarks\<close> (\<open>benchmarks.rs\<close>, \<open>examples/crypto_ops.rs\<close>): the measurements, with the clock and the
    random draws as arguments. They never panic, the percentiles are ordered, the sizes are fixed.
    \<open>Crypto_Ops\<close> adds the single-operation tables of the example.
  \<^item> \<open>Secret_Hygiene\<close>: the \<open>Debug\<close> and \<open>Drop\<close> implementations of the types that hold secrets. Debug output
    does not depend on them, and loading an identity leaves no seed behind.

  \<^bold>\<open>The overlay.\<close>
  \<^item> \<open>Wire_Frame\<close>: frames and the incremental parser; however the bytes arrive, the frames are those
    sent (interface \<open>framing\<close>).
  \<^item> \<open>Fd_State\<close>, \<open>Posture\<close>, \<open>Negotiation\<close>: session state with its bounded buffers (interface
    \<open>bounded_buffer\<close>, interpreted on the three buffers) and metrics; the handshake driver, with the
    evidence each activation needs, and agreement of two nodes.
  \<^item> \<open>Loops\<close>, \<open>Wire_Io\<close>, \<open>Data_Path\<close>, \<open>Delivery\<close>: flushing, reading, sending and receiving with every
    error path and blocking loop. Nothing but handshake messages and sealed records is added to the
    wire, both directions terminate under stated conditions, and what is sent is received.
  \<^item> \<open>End_To_End\<close>: two nodes over a link that cuts the stream anywhere, from the first \<open>send\<close> through the
    handshake to a request and its reply; the results of the theories above are composed here.
  \<^item> \<open>Iovec\<close>, \<open>Interposer\<close>: scatter/gather over application memory and the fifteen replaced functions
    with registry, locks and poisoning.
  \<^item> \<open>Config_Reload\<close>: the watcher, its event scan, and retiring of idle sessions.
  \<^item> \<open>Interposition\<close>: the process as a transition system of calls, reloads and outside changes (memory,
    operating system, hence also fork). Reachable states
    satisfy the registry invariant; no data-moving call reaches the original function; the wire
    stays protected; crashes are contained. The contracts \<open>egress_guard\<close> and \<open>session_guard\<close> are
    interpreted on the hooks that share them.
  \<^item> \<open>Session_Types\<close>: every session a process can reach holds data of the sizes the source declares as
    arrays. The interface \<open>phase_property\<close> carries a property of phases through all hooks.
  \<^item> \<open>Process_Statics\<close> (also \<open>lib.rs\<close>): the symbol table, the registry static, the start of the reloader
    and errno. Each is initialised once, and calls are forwarded to the functions of their names.
  \<^item> \<open>Hook_Equivalence\<close>: the entry points agree with each other; vectored calls are plain calls on a
    contiguous buffer.
  \<^item> \<open>Shared_Sessions\<close>: sessions as counted references used by several threads. The steps are the
    critical sections of the registry lock and of the session locks, in any order. States live as
    long as they are referred to, the gauge stays exact, the wire stays protected, and a call that
    is not interrupted is the sequential one of \<open>Interposer\<close>.

  \<^bold>\<open>Kernel-native mode and deployment.\<close>
  \<^item> \<open>Sock_Event\<close> (\<open>ebpf/src/\<close>, \<open>kernel_native.rs\<close>): the sockops program and the record it shares with
    the daemon, for both byte orders.
  \<^item> \<open>Kernel_Tls\<close> (\<open>kernel_native.rs\<close>): installing keys, the bridge, completing an up-call.
  \<^item> \<open>Over_Socket\<close>, \<open>Fd_Passing\<close>, \<open>Control_Daemon\<close> (also \<open>telemetry.rs\<close>): the handshake between daemons,
    descriptor passing, and the daemon's handlers. A served socket ends protected or closed.
  \<^item> \<open>Daemon_Server\<close>: the accept loops and their tasks as a transition system. No descriptor is left
    open in the clear, and in fair runs every connection is served. The contract \<open>connection_task\<close>
    is interpreted on the tasks of the three modes.
  \<^item> \<open>Platform_Variants\<close>: the compile-time layout guard of the record and the functions for platforms
    without kernel TLS, which close the socket instead.
  \<^item> \<open>Webhook\<close>: the review and its patch, judged by the reference semantics of JSON Patch.
  \<^item> \<open>Rust_Net\<close>, \<open>Http_Servers\<close> (\<open>bin/webhook.rs\<close>, \<open>telemetry.rs\<close>): the address parser of the standard
    library, start-up and routes of the HTTP servers, registration and rendering of the metrics.

  \<^bold>\<open>Bounds.\<close> The source's own limits are kept: 64-bit nonce counters, frame bodies, record sizes, the
  three buffers, vector copies, and handshake frames. Termination of sending assumes that the
  operating system keeps accepting bytes on a blocking descriptor, and of receiving that the input
  is finite, since the source waits otherwise. The daemon's liveness assumes a runtime that
  eventually runs a task that stays ready, and peers that answer or hang up.

  \<^bold>\<open>Not modelled.\<close> Library code, which is a parameter: cryptographic crates and their own wiping of
  keys, HTTP serving, text encoding of metrics, the asynchronous runtime. Log lines and the layout of
  printed numbers, which nothing reads. The delay between two attempts to watch the configuration
  directory. The unused type \<open>SecureSocket\<close> and the flag constants of \<open>ebpf/src/maps.rs\<close>; \<open>benches/\<close>, whose
  only statement calls the modelled \<open>run_all\<close>; module declarations and the source's unit tests.
\<close>

end
